(* ===== verification/Prelude.thy ===== *)
theory Prelude
  imports Complex_Main
begin

text \<open>
  What every component of the Converge (ReplayForge) control plane shares.

  \<^item> Names for the base types: identifiers (a UUID is its canonical text, which is what
    \<^verbatim>\<open>str(event.id)\<close> puts on a Redis stream), instants (microseconds since the epoch, the
    resolution of Python's \<^verbatim>\<open>datetime\<close>; every column of the schema is
    \<^verbatim>\<open>DateTime(timezone=True)\<close>), JSON documents and the exceptions the code raises.
  \<^item> The parts of Python's \<^verbatim>\<open>str\<close> the source uses, over the code points 0 to 255.
  \<^item> Relational queries over a table kept as a list of rows:
    \<^verbatim>\<open>select .. where\<close>, \<^verbatim>\<open>scalar_one_or_none\<close>, \<^verbatim>\<open>update .. where\<close>.
  \<^item> The collections \<open>table_simps\<close> and \<open>record_frame\<close> that the component proofs give to
    \<open>simp\<close>.
\<close>

named_theorems table_simps \<open>rewrite rules for queries and updates of tables\<close>
named_theorems record_frame \<open>fields an operation leaves alone\<close>

type_synonym uuid = string
type_synonym time = int

abbreviation seconds :: "int \<Rightarrow> int" where
  "seconds n \<equiv> 1000000 * n"

abbreviation minutes :: "int \<Rightarrow> int" where
  "minutes n \<equiv> 60 * seconds n"

datatype json =
    JNull
  | JBool bool
  | JInt int
  | JFloat rat
  | JStr string
  | JList "json list"
  | JObj "(string \<times> json) list"

type_synonym dict = "(string \<times> json) list"

text \<open>Python's truth value of a JSON value: empty, zero, false and null are false.\<close>

fun truthy :: "json \<Rightarrow> bool" where
  "truthy JNull = False"
| "truthy (JBool b) = b"
| "truthy (JInt i) = (i \<noteq> 0)"
| "truthy (JFloat q) = (q \<noteq> 0)"
| "truthy (JStr s) = (s \<noteq> [])"
| "truthy (JList xs) = (xs \<noteq> [])"
| "truthy (JObj kvs) = (kvs \<noteq> [])"

text \<open>\<^verbatim>\<open>d.get(k)\<close>, with null for a missing key.\<close>

definition dict_get :: "dict \<Rightarrow> string \<Rightarrow> json" where
  "dict_get d k = (case map_of d k of None \<Rightarrow> JNull | Some v \<Rightarrow> v)"

datatype exn =
    HTTPException int string
  | IntegrityError
  | DataError
  | DatabaseError string
  | NoResultFound
  | MultipleResultsFound
  | SimulatedFailure string
  | WorkerCrashError string
  | RedisError string
  | ResponseError string
  | HttpError string
  | ValueError string
  | PendingRollbackError
  | StaleDataError
  | TypeError string
  | AttributeError string
  | KeyError string
  | TimeoutError string
  | OverflowError
  | FileNotFoundError string

text \<open>\<^verbatim>\<open>str(exc)\<close>\<close>

fun exn_str :: "exn \<Rightarrow> string" where
  "exn_str (SimulatedFailure m) = m"
| "exn_str (WorkerCrashError m) = m"
| "exn_str (RedisError m) = m"
| "exn_str (ResponseError m) = m"
| "exn_str (HttpError m) = m"
| "exn_str (ValueError m) = m"
| "exn_str (HTTPException c m) = m"
| "exn_str IntegrityError = ''IntegrityError''"
| "exn_str DataError = ''DataError''"
| "exn_str (DatabaseError m) = m"
| "exn_str (TypeError m) = m"
| "exn_str (AttributeError m) = m"
| "exn_str (KeyError m) = [CHR 0x27] @ m @ [CHR 0x27]"
| "exn_str (TimeoutError m) = m"
| "exn_str PendingRollbackError = ''PendingRollbackError''"
| "exn_str StaleDataError = ''StaleDataError''"
| "exn_str (FileNotFoundError p) = ''[Errno 2] No such file or directory: '' @ [CHR 0x27] @ p @ [CHR 0x27]"
| "exn_str OverflowError = ''date value out of range''"
| "exn_str NoResultFound = ''No row was found when one was required''"
| "exn_str MultipleResultsFound = ''Multiple rows were found when exactly one was required''"

text \<open>
  \<^verbatim>\<open>t - timedelta(...)\<close> stays within the years 1 to 9999. A \<^verbatim>\<open>timedelta\<close> of a billion days or more raises
  the same error on construction, and leaves that range too.
\<close>

definition datetime_ok :: "time \<Rightarrow> bool" where
  "datetime_ok t \<longleftrightarrow> seconds (- 62135596800) \<le> t \<and> t < seconds 253402300800"

definition datetime_minus :: "time \<Rightarrow> int \<Rightarrow> exn + time" where
  "datetime_minus t delta = (if datetime_ok (t - delta) then Inr (t - delta) else Inl OverflowError)"

section \<open>Python strings\<close>

definition is_space :: "char \<Rightarrow> bool" where
  "is_space c = (let n = (of_char c :: nat) in
     (9 \<le> n \<and> n \<le> 13) \<or> (28 \<le> n \<and> n \<le> 32) \<or> n = 133 \<or> n = 160)"

definition py_lstrip :: "string \<Rightarrow> string" where
  "py_lstrip s = dropWhile is_space s"

definition py_rstrip :: "string \<Rightarrow> string" where
  "py_rstrip s = rev (dropWhile is_space (rev s))"

definition py_strip :: "string \<Rightarrow> string" where
  "py_strip s = py_rstrip (py_lstrip s)"

definition lower_char :: "char \<Rightarrow> char" where
  "lower_char c = (let n = (of_char c :: nat) in
     if (65 \<le> n \<and> n \<le> 90) \<or> (192 \<le> n \<and> n \<le> 222 \<and> n \<noteq> 215) then char_of (n + 32) else c)"

definition py_lower :: "string \<Rightarrow> string" where
  "py_lower s = map lower_char s"

text \<open>\<^verbatim>\<open>s.split(c)\<close> for a one-character separator: always at least one piece.\<close>

fun py_split :: "char \<Rightarrow> string \<Rightarrow> string list" where
  "py_split c [] = [[]]"
| "py_split c (x # xs) =
     (if x = c then [] # py_split c xs
      else (case py_split c xs of [] \<Rightarrow> [[x]] | p # ps \<Rightarrow> (x # p) # ps))"

text \<open>\<^verbatim>\<open>s.rstrip("/")\<close>\<close>

definition rstrip_char :: "char \<Rightarrow> string \<Rightarrow> string" where
  "rstrip_char c s = rev (dropWhile (\<lambda>x. x = c) (rev s))"

definition starts_with :: "string \<Rightarrow> string \<Rightarrow> bool" where
  "starts_with p s = (take (length p) s = p)"

text \<open>\<^verbatim>\<open>p in s\<close> for two strings\<close>

fun str_contains :: "string \<Rightarrow> string \<Rightarrow> bool" where
  "str_contains p [] = (p = [])"
| "str_contains p (x # xs) = (starts_with p (x # xs) \<or> str_contains p xs)"

definition digit_char :: "nat \<Rightarrow> char" where
  "digit_char d = char_of (48 + d)"

fun show_nat :: "nat \<Rightarrow> string" where
  "show_nat n = (if n < 10 then [digit_char n] else show_nat (n div 10) @ [digit_char (n mod 10)])"

declare show_nat.simps [simp del]

definition show_int :: "int \<Rightarrow> string" where
  "show_int i = (if i < 0 then CHR ''-'' # show_nat (nat (- i)) else show_nat (nat i))"

definition is_dec_digit :: "char \<Rightarrow> bool" where
  "is_dec_digit c = (let n = (of_char c :: nat) in 48 \<le> n \<and> n \<le> 57)"

definition digit_val :: "char \<Rightarrow> nat" where
  "digit_val c = of_char c - 48"

definition read_nat :: "string \<Rightarrow> nat" where
  "read_nat s = foldl (\<lambda>acc c. 10 * acc + digit_val c) 0 s"

section \<open>Numbers out of decoded values\<close>

text \<open>Sequencing of fallible computations.\<close>

fun and_then :: "'e + 'a \<Rightarrow> ('a \<Rightarrow> 'e + 'b) \<Rightarrow> 'e + 'b" where
  "and_then (Inl x) f = Inl x"
| "and_then (Inr a) f = f a"

text \<open>\<^verbatim>\<open>int(s)\<close> of a string: surrounding white space, a sign, digits with single underscores between them.\<close>

definition py_int_str :: "string \<Rightarrow> exn + int" where
  "py_int_str s =
     (let t = py_strip s;
          (sign, body) = (case t of
             [] \<Rightarrow> (1, [])
           | c # cs \<Rightarrow> if c = CHR ''-'' then (- 1, cs) else if c = CHR ''+'' then (1, cs) else (1, c # cs));
          parts = py_split (CHR ''_'') body
      in if list_all (\<lambda>p. p \<noteq> [] \<and> list_all is_dec_digit p) parts
         then Inr (sign * int (read_nat (concat parts)))
         else Inl (ValueError (''invalid literal for int() with base 10: '' @ [CHR 0x27] @ s @ [CHR 0x27])))"

section \<open>Tables\<close>

text \<open>\<^verbatim>\<open>.scalar_one_or_none()\<close> raises when the query has more than one row.\<close>

definition scalar_one_or_none :: "('a \<Rightarrow> bool) \<Rightarrow> 'a list \<Rightarrow> exn + 'a option" where
  "scalar_one_or_none P xs = (case filter P xs of
      [] \<Rightarrow> Inr None
    | [x] \<Rightarrow> Inr (Some x)
    | _ \<Rightarrow> Inl MultipleResultsFound)"

text \<open>\<^verbatim>\<open>.scalar_one()\<close> raises unless the query has exactly one row.\<close>

definition scalar_one :: "('a \<Rightarrow> bool) \<Rightarrow> 'a list \<Rightarrow> exn + 'a" where
  "scalar_one P xs = (case filter P xs of
      [] \<Rightarrow> Inl NoResultFound
    | [x] \<Rightarrow> Inr x
    | _ \<Rightarrow> Inl MultipleResultsFound)"

definition update_where :: "('a \<Rightarrow> bool) \<Rightarrow> ('a \<Rightarrow> 'a) \<Rightarrow> 'a list \<Rightarrow> 'a list" where
  "update_where P f xs = map (\<lambda>x. if P x then f x else x) xs"

definition count_where :: "('a \<Rightarrow> bool) \<Rightarrow> 'a list \<Rightarrow> nat" where
  "count_where P xs = length (filter P xs)"

text \<open>\<^verbatim>\<open>.limit(n).offset(k)\<close>: the server refuses a negative number and one that is not a \<^verbatim>\<open>bigint\<close>.\<close>

definition sql_page :: "int \<Rightarrow> int \<Rightarrow> 'a list \<Rightarrow> exn + 'a list" where
  "sql_page limit offset rows =
     (if 0 \<le> limit \<and> limit < 2 ^ 63 \<and> 0 \<le> offset \<and> offset < 2 ^ 63
      then Inr (take (nat limit) (drop (nat offset) rows)) else Inl DataError)"

section \<open>Lemmas on tables\<close>

lemma sql_page_map: "and_then (sql_page n k rows) (\<lambda>rs. Inr (map f rs)) = sql_page n k (map f rows)"
  by (simp add: sql_page_def take_map drop_map)

lemma sql_page_subset: "sql_page n k rows = Inr rs \<Longrightarrow> set rs \<subseteq> set rows"
  by (auto simp: sql_page_def split: if_splits dest!: in_set_takeD in_set_dropD)

lemma length_update_where [simp]: "length (update_where P f xs) = length xs"
  by (simp add: update_where_def)

lemma update_where_Nil [simp]: "update_where P f [] = []"
  by (simp add: update_where_def)

lemma update_where_append [table_simps]:
  "update_where P f (xs @ ys) = update_where P f xs @ update_where P f ys"
  by (simp add: update_where_def)

lemma map_update_where [table_simps]:
  "(\<And>x. P x \<Longrightarrow> g (f x) = g x) \<Longrightarrow> map g (update_where P f xs) = map g xs"
  by (auto simp: update_where_def)

lemma update_where_none: "(\<And>x. x \<in> set xs \<Longrightarrow> \<not> P x) \<Longrightarrow> update_where P f xs = xs"
  by (auto simp: update_where_def intro: map_idI)

lemma set_update_where: "set (update_where P f xs) = (\<lambda>x. if P x then f x else x) ` set xs"
  by (auto simp: update_where_def)

lemma in_set_update_whereE:
  assumes "y \<in> set (update_where P f xs)"
  obtains x where "x \<in> set xs" and "y = (if P x then f x else x)"
  using assms by (auto simp: set_update_where)

lemma count_where_simps [simp]:
  "count_where P [] = 0"
  "count_where P (x # xs) = (if P x then Suc (count_where P xs) else count_where P xs)"
  "count_where P (xs @ ys) = count_where P xs + count_where P ys"
  by (simp_all add: count_where_def)

lemma count_where_le_length: "count_where P xs \<le> length xs"
  by (simp add: count_where_def)

text \<open>With unique keys a query by key is a lookup.\<close>

lemma filter_key_distinct:
  assumes "distinct (map k xs)" and "x \<in> set xs"
  shows "filter (\<lambda>y. k y = k x) xs = [x]"
  using assms
proof (induction xs)
  case Nil
  then show ?case by simp
next
  case (Cons a as)
  show ?case
  proof (cases "x = a")
    case True
    with Cons.prems have "filter (\<lambda>y. k y = k x) as = []"
      by (auto simp: filter_empty_conv) (metis image_eqI)
    with True show ?thesis by simp
  next
    case False
    with Cons.prems have "k a \<noteq> k x" by (auto simp: rev_image_eqI)
    with False Cons show ?thesis by simp
  qed
qed

lemma scalar_one_or_none_key:
  assumes "distinct (map k xs)" and "x \<in> set xs"
  shows "scalar_one_or_none (\<lambda>y. k y = k x) xs = Inr (Some x)"
  using filter_key_distinct [OF assms] by (simp add: scalar_one_or_none_def)

lemma scalar_one_key:
  assumes "distinct (map k xs)" and "x \<in> set xs"
  shows "scalar_one (\<lambda>y. k y = k x) xs = Inr x"
  using filter_key_distinct [OF assms] by (simp add: scalar_one_def)

lemma scalar_one_or_none_absent:
  "(\<And>x. x \<in> set xs \<Longrightarrow> \<not> P x) \<Longrightarrow> scalar_one_or_none P xs = Inr None"
  by (simp add: scalar_one_or_none_def filter_empty_conv split: list.splits)

lemma scalar_one_or_none_SomeD:
  "scalar_one_or_none P xs = Inr (Some x) \<Longrightarrow> x \<in> set xs \<and> P x"
  by (auto simp: scalar_one_or_none_def split: list.splits dest: filter_eq_ConsD)

lemma scalar_one_or_none_NoneD:
  "scalar_one_or_none P xs = Inr None \<Longrightarrow> x \<in> set xs \<Longrightarrow> \<not> P x"
  by (auto simp: scalar_one_or_none_def filter_empty_conv split: list.splits)

lemma scalar_one_InrD: "scalar_one P xs = Inr x \<Longrightarrow> x \<in> set xs \<and> P x"
  by (auto simp: scalar_one_def split: list.splits dest: filter_eq_ConsD)

lemma scalar_one_or_none_cases:
  assumes "distinct (map k xs)"
  obtains "scalar_one_or_none (\<lambda>y. k y = v) xs = Inr None" and "v \<notin> k ` set xs"
  | x where "scalar_one_or_none (\<lambda>y. k y = v) xs = Inr (Some x)" and "x \<in> set xs" and "k x = v"
proof (cases "v \<in> k ` set xs")
  case True
  then obtain x where "x \<in> set xs" "k x = v" by auto
  with scalar_one_or_none_key [OF assms, of x] that(2) show ?thesis by auto
next
  case False
  then have "scalar_one_or_none (\<lambda>y. k y = v) xs = Inr None"
    by (intro scalar_one_or_none_absent) auto
  with False that(1) show ?thesis by blast
qed

section \<open>Lemmas on strings\<close>

lemma read_nat_snoc: "read_nat (s @ [c]) = 10 * read_nat s + digit_val c"
  by (simp add: read_nat_def)

lemma digit_val_digit_char: "d < 10 \<Longrightarrow> digit_val (digit_char d) = d"
  by (simp add: digit_val_def digit_char_def)

lemma read_show_nat: "read_nat (show_nat n) = n"
proof (induction n rule: show_nat.induct)
  case (1 n)
  show ?case
  proof (cases "n < 10")
    case True
    then show ?thesis
      by (simp add: show_nat.simps [of n] read_nat_def digit_val_digit_char)
  next
    case False
    with "1.IH" show ?thesis
      by (simp add: show_nat.simps [of n] read_nat_snoc digit_val_digit_char)
  qed
qed

lemma show_nat_inj: "show_nat m = show_nat n \<longleftrightarrow> m = n"
  by (metis read_show_nat)

lemma show_nat_digits: "c \<in> set (show_nat n) \<Longrightarrow> is_dec_digit c"
proof (induction n rule: show_nat.induct)
  case (1 n)
  have d: "is_dec_digit (digit_char k)" if "k < 10" for k
    using that by (simp add: is_dec_digit_def digit_char_def Let_def)
  show ?case
  proof (cases "n < 10")
    case True
    with "1.prems" d show ?thesis by (simp add: show_nat.simps [of n])
  next
    case False
    with "1" d show ?thesis by (auto simp: show_nat.simps [of n])
  qed
qed

lemma show_nat_not_Nil [simp]: "show_nat n \<noteq> []"
  by (simp add: show_nat.simps [of n])

lemma py_rstrip_idem [simp]: "py_rstrip (py_rstrip s) = py_rstrip s"
  by (simp add: py_rstrip_def)

lemma py_rstrip_Cons:
  assumes "\<not> is_space c"
  shows "py_rstrip (c # s) = c # py_rstrip s"
proof -
  have "dropWhile is_space (xs @ [c]) = dropWhile is_space xs @ [c]" for xs
    using assms by (induction xs) auto
  then show ?thesis by (simp add: py_rstrip_def)
qed

lemma py_strip_idem [simp]: "py_strip (py_strip s) = py_strip s"
proof (cases "dropWhile is_space s")
  case Nil
  show ?thesis unfolding py_strip_def py_lstrip_def Nil by (simp add: py_rstrip_def)
next
  case (Cons c t)
  then have "\<not> is_space c" by (metis dropWhile_eq_Cons_conv)
  with Cons show ?thesis
    by (simp add: py_strip_def py_lstrip_def py_rstrip_Cons)
qed

lemma py_split_not_Nil [simp]: "py_split c s \<noteq> []"
  by (induction s) (auto split: list.splits)

lemma py_split_no_sep: "p \<in> set (py_split c s) \<Longrightarrow> c \<notin> set p"
  by (induction s arbitrary: p) (auto split: list.splits if_splits)

lemma py_split_single: "c \<notin> set s \<Longrightarrow> py_split c s = [s]"
  by (induction s) auto

lemma py_split_append: "c \<notin> set s \<Longrightarrow> py_split c (s @ c # t) = s # py_split c t"
  by (induction s) auto

lemma set_py_strip: "set (py_strip s) \<subseteq> set s"
  unfolding py_strip_def py_lstrip_def py_rstrip_def set_rev
  by (metis set_dropWhileD set_rev subsetI)

end
