(* ===== verification/Models.thy ===== *)
theory Models
  imports Prelude
begin

text \<open>
  The relational schema (\<^verbatim>\<open>api/app/models.py\<close>) and the request body
  (\<^verbatim>\<open>api/app/schemas.py\<close>): a \<^theory_text>\<open>record\<close> per mapped class with the class's columns, a
  database as one list of rows per table, and the insertions, which enforce the primary keys,
  unique constraints and foreign keys the classes declare and raise \<^verbatim>\<open>IntegrityError\<close>
  otherwise; a row that does not fit its columns is refused before that. Attempts and dead letters
  hold literals, texts and the name of a registered worker, which always fit. \<open>schema_ok\<close> says that
  a database meets all of the key constraints; the lemmas show that every insertion and every
  key-preserving update keeps it.
\<close>

record application =
  app_id :: uuid
  app_name :: string
  app_created_at :: time

record event =
  ev_id :: uuid
  ev_application_id :: uuid
  ev_workflow_id :: string
  ev_event_type :: string
  ev_service_name :: string
  ev_idempotency_key :: string
  ev_status :: string
  ev_payload_json :: dict
  ev_metadata_json :: dict
  ev_attempt_count :: int
  ev_max_attempts :: int
  ev_next_retry_at :: "time option"
  ev_last_error :: "string option"
  ev_created_at :: time
  ev_updated_at :: time

record event_attempt =
  at_id :: uuid
  at_event_id :: uuid
  at_attempt_number :: int
  at_worker_id :: "uuid option"
  at_worker_name :: "string option"
  at_status :: string
  at_error_message :: "string option"
  at_metadata_json :: dict
  at_started_at :: time
  at_finished_at :: "time option"
  at_duration_ms :: "int option"

record dead_letter =
  dl_id :: uuid
  dl_event_id :: uuid
  dl_reason :: string
  dl_last_error :: "string option"
  dl_created_at :: time
  dl_replayed_at :: "time option"
  dl_replay_status :: "string option"

record worker =
  wk_id :: uuid
  wk_worker_name :: string
  wk_status :: string
  wk_last_heartbeat_at :: time
  wk_current_event_id :: "uuid option"
  wk_created_at :: time
  wk_updated_at :: time

record incident_summary =
  is_id :: uuid
  is_workflow_id :: string
  is_summary_text :: string
  is_model_name :: "string option"
  is_created_at :: time

record db =
  applications :: "application list"
  events :: "event list"
  event_attempts :: "event_attempt list"
  dead_letters :: "dead_letter list"
  workers :: "worker list"
  incident_summaries :: "incident_summary list"

definition empty_db :: db where
  "empty_db = \<lparr>applications = [], events = [], event_attempts = [], dead_letters = [],
     workers = [], incident_summaries = []\<rparr>"

record event_create =
  ec_application_name :: string
  ec_workflow_id :: string
  ec_event_type :: string
  ec_service_name :: string
  ec_idempotency_key :: string
  ec_payload :: dict
  ec_metadata :: dict
  ec_max_attempts :: int

abbreviation ev_key :: "event \<Rightarrow> uuid \<times> string" where
  "ev_key e \<equiv> (ev_application_id e, ev_idempotency_key e)"

section \<open>Column types\<close>

text \<open>
  What the columns accept. PostgreSQL refuses a string longer than its \<^verbatim>\<open>varchar\<close> column, an
  \<^verbatim>\<open>integer\<close> outside 32 bits and a NUL in a \<^verbatim>\<open>jsonb\<close> value (\<^verbatim>\<open>DataError\<close>); psycopg2 refuses a string
  parameter with a NUL itself (\<^verbatim>\<open>ValueError\<close>). A row is a list of its \<^verbatim>\<open>varchar\<close> columns with their
  widths; the values of the other columns are checked apart.
\<close>

abbreviation NUL :: char where
  "NUL \<equiv> CHR 0x00"

definition column_error :: "(nat \<times> string) list \<Rightarrow> exn option" where
  "column_error cols =
     (if list_ex (\<lambda>(n, s). NUL \<in> set s) cols
      then Some (ValueError ''A string literal cannot contain NUL (0x00) characters.'')
      else if list_ex (\<lambda>(n, s). n < length s) cols then Some DataError
      else None)"

definition fits_int4 :: "int \<Rightarrow> bool" where
  "fits_int4 i \<longleftrightarrow> - (2 ^ 31) \<le> i \<and> i < 2 ^ 31"

fun nul_free :: "json \<Rightarrow> bool" where
  "nul_free (JStr s) = (NUL \<notin> set s)"
| "nul_free (JList js) = list_all nul_free js"
| "nul_free (JObj kvs) = list_all (\<lambda>kv. NUL \<notin> set (fst kv) \<and> nul_free (snd kv)) kvs"
| "nul_free _ = True"

definition application_columns :: "application \<Rightarrow> (nat \<times> string) list" where
  "application_columns a = [(255, app_name a)]"

definition event_columns :: "event \<Rightarrow> (nat \<times> string) list" where
  "event_columns e = [(255, ev_workflow_id e), (255, ev_event_type e), (255, ev_service_name e),
     (512, ev_idempotency_key e), (32, ev_status e)]"

definition worker_columns :: "worker \<Rightarrow> (nat \<times> string) list" where
  "worker_columns w = [(255, wk_worker_name w), (32, wk_status w)]"

definition event_error :: "event \<Rightarrow> exn option" where
  "event_error e = (case column_error (event_columns e) of
     Some x \<Rightarrow> Some x
   | None \<Rightarrow>
       if nul_free (JObj (ev_payload_json e)) \<and> nul_free (JObj (ev_metadata_json e))
         \<and> fits_int4 (ev_attempt_count e) \<and> fits_int4 (ev_max_attempts e)
       then None else Some DataError)"

section \<open>Insertion\<close>

definition insert_application :: "application \<Rightarrow> db \<Rightarrow> exn + db" where
  "insert_application a d = (case column_error (application_columns a) of
     Some x \<Rightarrow> Inl x
   | None \<Rightarrow>
       if app_id a \<in> app_id ` set (applications d) \<or> app_name a \<in> app_name ` set (applications d)
       then Inl IntegrityError
       else Inr (d\<lparr>applications := applications d @ [a]\<rparr>))"

definition insert_event :: "event \<Rightarrow> db \<Rightarrow> exn + db" where
  "insert_event e d = (case event_error e of
     Some x \<Rightarrow> Inl x
   | None \<Rightarrow>
       if ev_id e \<in> ev_id ` set (events d) \<or> ev_key e \<in> ev_key ` set (events d)
         \<or> ev_application_id e \<notin> app_id ` set (applications d)
       then Inl IntegrityError
       else Inr (d\<lparr>events := events d @ [e]\<rparr>))"

text \<open>A nullable foreign key into \<^verbatim>\<open>workers\<close>.\<close>

definition worker_ref :: "worker list \<Rightarrow> uuid option \<Rightarrow> bool" where
  "worker_ref ws w = (case w of None \<Rightarrow> True | Some i \<Rightarrow> i \<in> wk_id ` set ws)"

definition insert_attempt :: "event_attempt \<Rightarrow> db \<Rightarrow> exn + db" where
  "insert_attempt a d =
     (if at_id a \<in> at_id ` set (event_attempts d)
         \<or> at_event_id a \<notin> ev_id ` set (events d)
         \<or> \<not> worker_ref (workers d) (at_worker_id a)
      then Inl IntegrityError
      else Inr (d\<lparr>event_attempts := event_attempts d @ [a]\<rparr>))"

definition insert_dead_letter :: "dead_letter \<Rightarrow> db \<Rightarrow> exn + db" where
  "insert_dead_letter l d =
     (if dl_id l \<in> dl_id ` set (dead_letters d) \<or> dl_event_id l \<notin> ev_id ` set (events d)
      then Inl IntegrityError
      else Inr (d\<lparr>dead_letters := dead_letters d @ [l]\<rparr>))"

definition insert_worker :: "worker \<Rightarrow> db \<Rightarrow> exn + db" where
  "insert_worker w d = (case column_error (worker_columns w) of
     Some x \<Rightarrow> Inl x
   | None \<Rightarrow>
       if wk_id w \<in> wk_id ` set (workers d) \<or> wk_worker_name w \<in> wk_worker_name ` set (workers d)
       then Inl IntegrityError
       else Inr (d\<lparr>workers := workers d @ [w]\<rparr>))"

text \<open>An \<^verbatim>\<open>UPDATE events .. WHERE id = i\<close>, and the same for the other tables.\<close>

definition update_event :: "uuid \<Rightarrow> (event \<Rightarrow> event) \<Rightarrow> db \<Rightarrow> db" where
  "update_event i f d = d\<lparr>events := update_where (\<lambda>e. ev_id e = i) f (events d)\<rparr>"

definition update_dead_letter :: "uuid \<Rightarrow> (dead_letter \<Rightarrow> dead_letter) \<Rightarrow> db \<Rightarrow> db" where
  "update_dead_letter i f d = d\<lparr>dead_letters := update_where (\<lambda>l. dl_id l = i) f (dead_letters d)\<rparr>"

definition update_workers :: "(worker \<Rightarrow> bool) \<Rightarrow> (worker \<Rightarrow> worker) \<Rightarrow> db \<Rightarrow> db" where
  "update_workers P f d = d\<lparr>workers := update_where P f (workers d)\<rparr>"

text \<open>
  \<^verbatim>\<open>DELETE FROM workers WHERE ..\<close>: \<^verbatim>\<open>event_attempts.worker_id\<close> is declared
  \<^verbatim>\<open>ondelete="SET NULL"\<close>.
\<close>

definition delete_workers :: "(worker \<Rightarrow> bool) \<Rightarrow> db \<Rightarrow> db" where
  "delete_workers P d =
     (let gone = wk_id ` set (filter P (workers d)) in
      d\<lparr>workers := filter (\<lambda>w. \<not> P w) (workers d),
        event_attempts := update_where
          (\<lambda>a. case at_worker_id a of None \<Rightarrow> False | Some w \<Rightarrow> w \<in> gone)
          (\<lambda>a. a\<lparr>at_worker_id := None\<rparr>) (event_attempts d)\<rparr>)"

definition get_event :: "uuid \<Rightarrow> db \<Rightarrow> event option" where
  "get_event i d = find (\<lambda>e. ev_id e = i) (events d)"

definition get_dead_letter :: "uuid \<Rightarrow> db \<Rightarrow> dead_letter option" where
  "get_dead_letter i d = find (\<lambda>l. dl_id l = i) (dead_letters d)"

section \<open>The constraints\<close>

definition app_keys_ok :: "db \<Rightarrow> bool" where
  "app_keys_ok d \<longleftrightarrow> distinct (map app_id (applications d)) \<and> distinct (map app_name (applications d))"

definition event_keys_ok :: "db \<Rightarrow> bool" where
  "event_keys_ok d \<longleftrightarrow> distinct (map ev_id (events d)) \<and> distinct (map ev_key (events d))
     \<and> (\<forall>e \<in> set (events d). ev_application_id e \<in> app_id ` set (applications d))"

definition attempt_keys_ok :: "db \<Rightarrow> bool" where
  "attempt_keys_ok d \<longleftrightarrow> distinct (map at_id (event_attempts d))
     \<and> (\<forall>a \<in> set (event_attempts d). at_event_id a \<in> ev_id ` set (events d)
          \<and> worker_ref (workers d) (at_worker_id a))"

definition dead_letter_keys_ok :: "db \<Rightarrow> bool" where
  "dead_letter_keys_ok d \<longleftrightarrow> distinct (map dl_id (dead_letters d))
     \<and> (\<forall>l \<in> set (dead_letters d). dl_event_id l \<in> ev_id ` set (events d))"

definition worker_keys_ok :: "db \<Rightarrow> bool" where
  "worker_keys_ok d \<longleftrightarrow> distinct (map wk_id (workers d)) \<and> distinct (map wk_worker_name (workers d))"

definition schema_ok :: "db \<Rightarrow> bool" where
  "schema_ok d \<longleftrightarrow> app_keys_ok d \<and> event_keys_ok d \<and> attempt_keys_ok d
     \<and> dead_letter_keys_ok d \<and> worker_keys_ok d"

lemmas keys_ok_defs =
  app_keys_ok_def event_keys_ok_def attempt_keys_ok_def dead_letter_keys_ok_def worker_keys_ok_def

text \<open>The rows fit their columns, apart from the status of an event and the counters.\<close>

definition event_typed :: "event \<Rightarrow> bool" where
  "event_typed e \<longleftrightarrow> column_error [(255, ev_workflow_id e), (255, ev_event_type e), (255, ev_service_name e),
       (512, ev_idempotency_key e)] = None
     \<and> nul_free (JObj (ev_payload_json e)) \<and> nul_free (JObj (ev_metadata_json e)) \<and> fits_int4 (ev_max_attempts e)"

definition rows_typed :: "db \<Rightarrow> bool" where
  "rows_typed d \<longleftrightarrow> (\<forall>a \<in> set (applications d). column_error (application_columns a) = None)
     \<and> (\<forall>e \<in> set (events d). event_typed e)
     \<and> (\<forall>w \<in> set (workers d). column_error (worker_columns w) = None)"

lemma column_error_None:
  "column_error cols = None \<longleftrightarrow> (\<forall>(n, s) \<in> set cols. length s \<le> n \<and> NUL \<notin> set s)"
  by (induction cols) (auto simp: column_error_def not_less split: if_splits)

lemma not_integrity: "column_error cols \<noteq> Some IntegrityError" "event_error e \<noteq> Some IntegrityError"
  by (auto simp: column_error_def event_error_def split: option.splits)

lemma event_error_typed: "event_error e = None \<Longrightarrow> event_typed e"
  by (auto simp: event_error_def event_typed_def event_columns_def column_error_None split: option.splits if_splits)

lemma schema_ok_empty [simp]: "schema_ok empty_db"
  by (simp add: schema_ok_def keys_ok_defs empty_db_def)

lemma schema_ok_eventsD: "schema_ok d \<Longrightarrow> distinct (map ev_id (events d))"
  by (simp add: schema_ok_def event_keys_ok_def)

lemma worker_ref_mono: "worker_ref ws w \<Longrightarrow> set ws \<subseteq> set ws' \<Longrightarrow> worker_ref ws' w"
  by (auto simp: worker_ref_def split: option.splits)

lemma insert_application_ok:
  "schema_ok d \<Longrightarrow> insert_application a d = Inr d' \<Longrightarrow> schema_ok d'"
  unfolding insert_application_def schema_ok_def keys_ok_defs
  by (simp split: if_splits option.splits) fastforce

lemma insert_event_ok:
  "schema_ok d \<Longrightarrow> insert_event e d = Inr d' \<Longrightarrow> schema_ok d'"
  unfolding insert_event_def schema_ok_def keys_ok_defs
  by (simp split: if_splits option.splits) fastforce

lemma insert_attempt_ok:
  "schema_ok d \<Longrightarrow> insert_attempt a d = Inr d' \<Longrightarrow> schema_ok d'"
  unfolding insert_attempt_def schema_ok_def keys_ok_defs
  by (simp split: if_splits) fastforce

lemma insert_dead_letter_ok:
  "schema_ok d \<Longrightarrow> insert_dead_letter l d = Inr d' \<Longrightarrow> schema_ok d'"
  unfolding insert_dead_letter_def schema_ok_def keys_ok_defs
  by (simp split: if_splits) fastforce

lemma insert_worker_ok:
  assumes "schema_ok d" and "insert_worker w d = Inr d'"
  shows "schema_ok d'"
proof -
  have "worker_ref (workers d @ [w]) x" if "worker_ref (workers d) x" for x
    using that by (rule worker_ref_mono) auto
  with assms show ?thesis
    unfolding insert_worker_def schema_ok_def keys_ok_defs
    by (simp split: if_splits option.splits) fastforce
qed

lemmas insert_ok =
  insert_application_ok insert_event_ok insert_attempt_ok insert_dead_letter_ok insert_worker_ok

text \<open>An update that keeps the key columns of the rows it touches.\<close>

definition keeps_event_keys :: "(event \<Rightarrow> event) \<Rightarrow> bool" where
  "keeps_event_keys f \<longleftrightarrow> (\<forall>e. ev_id (f e) = ev_id e \<and> ev_key (f e) = ev_key e)"

lemma update_event_maps:
  assumes "keeps_event_keys f"
  shows "map ev_id (events (update_event i f d)) = map ev_id (events d)"
    and "map ev_key (events (update_event i f d)) = map ev_key (events d)"
    and "map ev_application_id (events (update_event i f d)) = map ev_application_id (events d)"
  using assms by (auto simp: update_event_def keeps_event_keys_def intro!: map_update_where)

lemma update_event_sets:
  assumes "keeps_event_keys f"
  shows "ev_id ` set (events (update_event i f d)) = ev_id ` set (events d)"
  using update_event_maps(1) [OF assms, of i d] by (metis list.set_map)

lemma in_update_event:
  "e \<in> set (events (update_event i f d)) \<longleftrightarrow>
    (\<exists>e0 \<in> set (events d). e = (if ev_id e0 = i then f e0 else e0))"
proof -
  have "events (update_event i f d) = map (\<lambda>x. if ev_id x = i then f x else x) (events d)"
    by (simp add: update_event_def update_where_def)
  then show ?thesis by (simp only: set_map image_iff)
qed

lemma update_event_frame [simp, record_frame]:
  "applications (update_event i f d) = applications d"
  "event_attempts (update_event i f d) = event_attempts d"
  "dead_letters (update_event i f d) = dead_letters d"
  "workers (update_event i f d) = workers d"
  "incident_summaries (update_event i f d) = incident_summaries d"
  by (simp_all add: update_event_def)

lemma update_event_ok: "schema_ok d \<Longrightarrow> keeps_event_keys f \<Longrightarrow> schema_ok (update_event i f d)"
  unfolding schema_ok_def keys_ok_defs
  by (simp add: update_event_maps update_event_sets)
    (auto simp: in_update_event keeps_event_keys_def)

lemma update_dead_letter_ok:
  assumes "schema_ok d" and "\<And>l. dl_id (f l) = dl_id l \<and> dl_event_id (f l) = dl_event_id l"
  shows "schema_ok (update_dead_letter i f d)"
proof -
  have "map dl_id (update_where (\<lambda>l. dl_id l = i) f (dead_letters d)) = map dl_id (dead_letters d)"
    using assms(2) by (auto intro!: map_update_where)
  with assms show ?thesis
    by (auto simp: update_dead_letter_def schema_ok_def keys_ok_defs set_update_where)
qed

lemma update_workers_ok:
  assumes "schema_ok d" and "\<And>w. wk_id (f w) = wk_id w \<and> wk_worker_name (f w) = wk_worker_name w"
  shows "schema_ok (update_workers P f d)"
proof -
  have m: "map wk_id (update_where P f (workers d)) = map wk_id (workers d)"
    "map wk_worker_name (update_where P f (workers d)) = map wk_worker_name (workers d)"
    using assms(2) by (auto intro!: map_update_where)
  then have "wk_id ` set (update_where P f (workers d)) = wk_id ` set (workers d)"
    by (metis list.set_map)
  then have "worker_ref (update_where P f (workers d)) = worker_ref (workers d)"
    by (simp add: worker_ref_def fun_eq_iff split: option.split)
  with m assms(1) show ?thesis
    by (simp add: update_workers_def schema_ok_def keys_ok_defs)
qed

lemma delete_workers_ok:
  assumes "schema_ok d"
  shows "schema_ok (delete_workers P d)"
proof -
  let ?dead = "\<lambda>a. case at_worker_id a of None \<Rightarrow> False | Some w \<Rightarrow> w \<in> wk_id ` set (filter P (workers d))"
  let ?as = "update_where ?dead (\<lambda>a. a\<lparr>at_worker_id := None\<rparr>) (event_attempts d)"
  have m: "map at_id ?as = map at_id (event_attempts d)"
    by (auto intro!: map_update_where)
  have "at_event_id a \<in> ev_id ` set (events d) \<and>
      worker_ref (filter (\<lambda>w. \<not> P w) (workers d)) (at_worker_id a)"
    if a: "a \<in> set ?as" for a
  proof -
    from a obtain a0 where a0: "a0 \<in> set (event_attempts d)"
      and eq: "a = (if ?dead a0 then a0\<lparr>at_worker_id := None\<rparr> else a0)"
      by (rule in_set_update_whereE)
    from a0 assms have "at_event_id a0 \<in> ev_id ` set (events d)" "worker_ref (workers d) (at_worker_id a0)"
      by (auto simp: schema_ok_def attempt_keys_ok_def)
    with eq show ?thesis by (auto simp: worker_ref_def split: option.splits)
  qed
  then have "\<forall>a \<in> set ?as. at_event_id a \<in> ev_id ` set (events d) \<and>
      worker_ref (filter (\<lambda>w. \<not> P w) (workers d)) (at_worker_id a)"
    by blast
  with m assms show ?thesis
    unfolding delete_workers_def Let_def schema_ok_def keys_ok_defs
    by (simp add: distinct_map_filter del: set_filter)
qed

section \<open>Lookup by primary key\<close>

lemma get_event_SomeD: "get_event i d = Some e \<Longrightarrow> e \<in> set (events d) \<and> ev_id e = i"
  by (auto simp: get_event_def find_Some_iff)

lemma get_event_None_iff: "get_event i d = None \<longleftrightarrow> i \<notin> ev_id ` set (events d)"
  by (auto simp: get_event_def find_None_iff)

lemma get_event_in: "schema_ok d \<Longrightarrow> e \<in> set (events d) \<Longrightarrow> get_event (ev_id e) d = Some e"
proof -
  assume d: "schema_ok d" and e: "e \<in> set (events d)"
  then obtain e' where e': "get_event (ev_id e) d = Some e'"
    by (metis get_event_None_iff image_eqI not_Some_eq)
  then have "e' \<in> set (events d)" "ev_id e' = ev_id e" by (auto dest: get_event_SomeD)
  with e schema_ok_eventsD [OF d] have "e' = e" by (metis distinct_map inj_onD)
  with e' show ?thesis by simp
qed

lemma find_update_where:
  assumes "\<And>x. k (f x) = k x"
  shows "find (\<lambda>x. k x = i) (update_where (\<lambda>x. k x = j) f xs) =
    (if i = j then map_option f (find (\<lambda>x. k x = i) xs) else find (\<lambda>x. k x = i) xs)"
  using assms by (induction xs) (auto simp: update_where_def)

lemma get_event_update:
  assumes "keeps_event_keys f"
  shows "get_event i (update_event j f d) =
    (if i = j then map_option f (get_event i d) else get_event i d)"
  using assms by (simp add: get_event_def update_event_def keeps_event_keys_def find_update_where)

lemma scalar_event_by_id:
  "schema_ok d \<Longrightarrow> scalar_one_or_none (\<lambda>e. ev_id e = i) (events d) = Inr (get_event i d)"
proof -
  assume d: "schema_ok d"
  show ?thesis
  proof (rule scalar_one_or_none_cases [OF schema_ok_eventsD [OF d], of i])
    assume "scalar_one_or_none (\<lambda>e. ev_id e = i) (events d) = Inr None" "i \<notin> ev_id ` set (events d)"
    then show ?thesis using get_event_None_iff [of i d] by simp
  next
    fix e
    assume "scalar_one_or_none (\<lambda>e. ev_id e = i) (events d) = Inr (Some e)" "e \<in> set (events d)" "ev_id e = i"
    then show ?thesis using get_event_in [OF d] by auto
  qed
qed

section \<open>What an insertion leaves alone\<close>

lemma insert_attempt_frame:
  assumes "insert_attempt a d = Inr d'"
  shows "events d' = events d" and "dead_letters d' = dead_letters d" and "workers d' = workers d"
    and "applications d' = applications d" and "event_attempts d' = event_attempts d @ [a]"
    and "get_event j d' = get_event j d"
  using assms by (auto simp: insert_attempt_def get_event_def split: if_splits)

lemma insert_dead_letter_frame:
  assumes "insert_dead_letter l d = Inr d'"
  shows "events d' = events d" and "event_attempts d' = event_attempts d" and "workers d' = workers d"
    and "applications d' = applications d" and "dead_letters d' = dead_letters d @ [l]"
    and "get_event j d' = get_event j d"
  using assms by (auto simp: insert_dead_letter_def get_event_def split: if_splits)

end
