(* ===== verification/Idempotency.thy ===== *)
theory Idempotency
  imports Models
begin

text \<open>
  \<^verbatim>\<open>api/app/core/idempotency.py\<close>: find or create the application and the event of a
  submission. The session runs in one transaction; other transactions may commit between its
  \<^verbatim>\<open>SELECT\<close> and its \<^verbatim>\<open>flush\<close>, which is why the code catches \<^verbatim>\<open>IntegrityError\<close>,
  rolls back and reads again. That interference is a parameter: two functions on the committed
  database, \<open>env_app\<close> before the application is flushed and \<open>env_ev\<close> before the event is.
  An application the transaction has flushed but not committed is carried beside the committed
  database, and a rollback drops it.

  \<open>benign\<close> is what other transactions of this program do to a database: they keep the
  constraints and never delete an application or an event or change its keys. Under benign
  interference \<open>get_or_create_event\<close> never raises and returns the one event with the
  submission's key.
\<close>

record submission_env =
  env_app :: "db \<Rightarrow> db"
  env_ev :: "db \<Rightarrow> db"
  new_app_id :: uuid
  new_event_id :: uuid
  app_now :: time
  created_now :: time
  updated_now :: time

definition visible :: "application option \<Rightarrow> db \<Rightarrow> db" where
  "visible pending d = (case pending of None \<Rightarrow> d
     | Some a \<Rightarrow> d\<lparr>applications := applications d @ [a]\<rparr>)"

definition get_or_create_application ::
  "submission_env \<Rightarrow> string \<Rightarrow> db \<Rightarrow> (exn + application \<times> application option) \<times> db" where
  "get_or_create_application E name d =
     (case scalar_one_or_none (\<lambda>a. app_name a = name) (applications d) of
        Inl x \<Rightarrow> (Inl x, d)
      | Inr (Some app) \<Rightarrow> (Inr (app, None), d)
      | Inr None \<Rightarrow>
          (let app = \<lparr>app_id = new_app_id E, app_name = name, app_created_at = app_now E\<rparr>;
               d1 = env_app E d
           in case insert_application app d1 of
                Inr _ \<Rightarrow> (Inr (app, Some app), d1)
              | Inl exc \<Rightarrow>
                  if exc = IntegrityError then
                    (case scalar_one (\<lambda>a. app_name a = name) (applications d1) of
                       Inl x \<Rightarrow> (Inl x, d1)
                     | Inr a \<Rightarrow> (Inr (a, None), d1))
                  else (Inl exc, d1)))"

definition new_event :: "submission_env \<Rightarrow> uuid \<Rightarrow> event_create \<Rightarrow> event" where
  "new_event E aid p = \<lparr>
     ev_id = new_event_id E, ev_application_id = aid,
     ev_workflow_id = ec_workflow_id p, ev_event_type = ec_event_type p,
     ev_service_name = ec_service_name p, ev_idempotency_key = ec_idempotency_key p,
     ev_status = ''received'', ev_payload_json = ec_payload p, ev_metadata_json = ec_metadata p,
     ev_attempt_count = 0, ev_max_attempts = ec_max_attempts p,
     ev_next_retry_at = None, ev_last_error = None,
     ev_created_at = created_now E, ev_updated_at = updated_now E\<rparr>"

definition get_or_create_event ::
  "submission_env \<Rightarrow> event_create \<Rightarrow> db \<Rightarrow> (exn + event \<times> bool) \<times> db" where
  "get_or_create_event E p d =
     (case get_or_create_application E (ec_application_name p) d of
        (Inl x, d1) \<Rightarrow> (Inl x, d1)
      | (Inr (app, pending), d1) \<Rightarrow>
          (let P = (\<lambda>e. ev_application_id e = app_id app \<and> ev_idempotency_key e = ec_idempotency_key p)
           in case scalar_one_or_none P (events d1) of
                Inl x \<Rightarrow> (Inl x, d1)
              | Inr (Some existing) \<Rightarrow> (Inr (existing, True), d1)
              | Inr None \<Rightarrow>
                  (let ev = new_event E (app_id app) p; d2 = env_ev E d1
                   in case insert_event ev (visible pending d2) of
                        Inr d3 \<Rightarrow> (Inr (ev, False), d3)
                      | Inl exc \<Rightarrow>
                          if exc = IntegrityError then
                            (case scalar_one P (events d2) of
                               Inl x \<Rightarrow> (Inl x, d2)
                             | Inr existing \<Rightarrow> (Inr (existing, True), d2))
                          else (Inl exc, d2))))"

section \<open>Interference\<close>

abbreviation ev_ident :: "event \<Rightarrow> uuid \<times> uuid \<times> string" where
  "ev_ident e \<equiv> (ev_id e, ev_key e)"

definition grows :: "db \<Rightarrow> db \<Rightarrow> bool" where
  "grows d d' \<longleftrightarrow> set (applications d) \<subseteq> set (applications d')
     \<and> ev_ident ` set (events d) \<subseteq> ev_ident ` set (events d')"

definition benign :: "(db \<Rightarrow> db) \<Rightarrow> bool" where
  "benign f \<longleftrightarrow> (\<forall>d. schema_ok d \<longrightarrow> schema_ok (f d) \<and> grows d (f d))"

text \<open>
  The identifiers are fresh at the moment they are used, and while the uncommitted application
  holds its entry in the unique index nobody else commits one with that name.
\<close>

definition fresh_ids :: "submission_env \<Rightarrow> event_create \<Rightarrow> db \<Rightarrow> bool" where
  "fresh_ids E p d \<longleftrightarrow>
     new_app_id E \<notin> app_id ` set (applications (env_app E d))
     \<and> new_app_id E \<notin> app_id ` set (applications (env_ev E (env_app E d)))
     \<and> new_event_id E \<notin> ev_id ` set (events (env_ev E (env_app E d)))
     \<and> new_event_id E \<notin> ev_id ` set (events (env_ev E d))
     \<and> (ec_application_name p \<notin> app_name ` set (applications (env_app E d)) \<longrightarrow>
          ec_application_name p \<notin> app_name ` set (applications (env_ev E (env_app E d))))"

text \<open>
  Submissions whose strings, number and JSON the columns hold. The request schema declares no
  limits, so this is a condition on the client.
\<close>

definition payload_fits :: "event_create \<Rightarrow> bool" where
  "payload_fits p \<longleftrightarrow> column_error [(255, ec_application_name p), (255, ec_workflow_id p), (255, ec_event_type p),
       (255, ec_service_name p), (512, ec_idempotency_key p)] = None
     \<and> nul_free (JObj (ec_payload p)) \<and> nul_free (JObj (ec_metadata p)) \<and> fits_int4 (ec_max_attempts p)"

lemma new_event_fits:
  assumes "payload_fits p"
  shows "event_error (new_event E aid p) = None"
proof -
  have "column_error (event_columns (new_event E aid p)) = None"
    using assms by (simp add: payload_fits_def column_error_None event_columns_def new_event_def)
  with assms show ?thesis by (simp add: payload_fits_def event_error_def new_event_def fits_int4_def)
qed

lemma payload_name_fits: "payload_fits p \<Longrightarrow> column_error [(255, ec_application_name p)] = None"
  by (simp add: payload_fits_def column_error_None)

lemma grows_refl [simp]: "grows d d"
  by (auto simp: grows_def)

lemma grows_trans: "grows d d1 \<Longrightarrow> grows d1 d2 \<Longrightarrow> grows d d2"
  unfolding grows_def by (meson subset_trans)

lemma benign_id [simp]: "benign (\<lambda>d. d)"
  by (simp add: benign_def)

lemma benignD: "benign f \<Longrightarrow> schema_ok d \<Longrightarrow> schema_ok (f d) \<and> grows d (f d)"
  by (simp add: benign_def)

lemma grows_insert_application: "insert_application a d = Inr d' \<Longrightarrow> grows d d'"
  by (auto simp: insert_application_def grows_def split: if_splits option.splits)

lemma grows_insert_event: "insert_event e d = Inr d' \<Longrightarrow> grows d d'"
  by (auto simp: insert_event_def grows_def split: if_splits option.splits)

lemma grows_update_event:
  assumes "keeps_event_keys f"
  shows "grows d (update_event i f d)"
proof -
  have "map ev_ident (events (update_event i f d)) = map ev_ident (events d)"
    using assms by (auto simp: update_event_def keeps_event_keys_def intro!: map_update_where)
  then have "set (map ev_ident (events (update_event i f d))) = set (map ev_ident (events d))"
    by (simp only:)
  then show ?thesis by (simp add: grows_def)
qed

section \<open>The application\<close>

text \<open>What the first step returns: an application row that will be in the table.\<close>

definition app_result :: "string \<Rightarrow> application \<Rightarrow> application option \<Rightarrow> db \<Rightarrow> bool" where
  "app_result name app pending d \<longleftrightarrow> app_name app = name \<and>
     (case pending of None \<Rightarrow> app \<in> set (applications d)
      | Some a \<Rightarrow> a = app \<and> app_id a \<notin> app_id ` set (applications d) \<and> name \<notin> app_name ` set (applications d))"

lemma application_result:
  assumes "get_or_create_application E name d = (res, d1)"
  shows "d1 \<in> {d, env_app E d}"
    and "res = Inr (app, pending) \<Longrightarrow> app_result name app pending d1 \<and>
      (pending = Some app \<longrightarrow> d1 = env_app E d \<and> app_id app = new_app_id E)"
  using assms
  by (auto simp: get_or_create_application_def app_result_def insert_application_def Let_def
      dest: scalar_one_or_none_SomeD scalar_one_InrD split: sum.splits option.splits if_splits)

lemma application_total:
  assumes ok: "schema_ok d" and env: "benign (env_app E)" and ids: "fresh_ids E p d"
    and fits: "column_error [(255, ec_application_name p)] = None"
  shows "\<exists>app pending d1. get_or_create_application E (ec_application_name p) d = (Inr (app, pending), d1)"
proof -
  let ?name = "ec_application_name p"
  have names: "distinct (map app_name (applications d'))" if "schema_ok d'" for d'
    using that by (simp add: schema_ok_def app_keys_ok_def)
  have env': "schema_ok (env_app E d)" using benignD [OF env ok] by blast
  show ?thesis
  proof (rule scalar_one_or_none_cases [OF names [OF ok], of ?name])
    fix app
    assume "scalar_one_or_none (\<lambda>a. app_name a = ?name) (applications d) = Inr (Some app)"
    then show ?thesis by (simp add: get_or_create_application_def)
  next
    assume none: "scalar_one_or_none (\<lambda>a. app_name a = ?name) (applications d) = Inr None"
    show ?thesis
    proof (cases "?name \<in> app_name ` set (applications (env_app E d))")
      case False
      with ids none show ?thesis
        by (simp add: get_or_create_application_def insert_application_def application_columns_def fits
            fresh_ids_def Let_def)
    next
      case True
      then obtain a where a: "a \<in> set (applications (env_app E d))" "app_name a = ?name" by auto
      with scalar_one_key [OF names [OF env'] a(1)] none True show ?thesis
        by (simp add: get_or_create_application_def insert_application_def application_columns_def fits Let_def)
    qed
  qed
qed

section \<open>The event\<close>

lemma visible_ok:
  "schema_ok d \<Longrightarrow> app_result name app pending d \<Longrightarrow> schema_ok (visible pending d)"
  unfolding visible_def app_result_def schema_ok_def keys_ok_defs
  by (cases pending) auto

lemma grows_visible: "grows d (visible pending d)"
  by (auto simp: visible_def grows_def split: option.split)

lemma events_visible [simp]: "events (visible pending d) = events d"
  by (simp add: visible_def split: option.split)

lemma app_in_visible: "app_result name app pending d \<Longrightarrow> app \<in> set (applications (visible pending d))"
  by (auto simp: app_result_def visible_def split: option.splits)

text \<open>Two rows that agree on the key are the same event.\<close>

lemma scalar_by_key:
  assumes "schema_ok d" and "e \<in> set (events d)"
  shows "scalar_one (\<lambda>x. ev_application_id x = ev_application_id e \<and>
      ev_idempotency_key x = ev_idempotency_key e) (events d) = Inr e"
    and "scalar_one_or_none (\<lambda>x. ev_application_id x = ev_application_id e \<and>
      ev_idempotency_key x = ev_idempotency_key e) (events d) = Inr (Some e)"
proof -
  have "distinct (map ev_key (events d))" using assms(1) by (simp add: schema_ok_def event_keys_ok_def)
  from scalar_one_key [OF this assms(2)] scalar_one_or_none_key [OF this assms(2)]
  show "scalar_one (\<lambda>x. ev_application_id x = ev_application_id e \<and>
      ev_idempotency_key x = ev_idempotency_key e) (events d) = Inr e"
    and "scalar_one_or_none (\<lambda>x. ev_application_id x = ev_application_id e \<and>
      ev_idempotency_key x = ev_idempotency_key e) (events d) = Inr (Some e)"
    by simp_all
qed

text \<open>The event a submission designates: its application's name and its key.\<close>

definition designates :: "event_create \<Rightarrow> event \<Rightarrow> db \<Rightarrow> bool" where
  "designates p e d \<longleftrightarrow> e \<in> set (events d) \<and> ev_idempotency_key e = ec_idempotency_key p
     \<and> (\<exists>a \<in> set (applications d). app_name a = ec_application_name p \<and> app_id a = ev_application_id e)"

lemma designates_unique:
  assumes ok: "schema_ok d" and "designates p e d" and "designates p e' d"
  shows "e = e'"
proof -
  have inj: "inj_on app_name (set (applications d))" "inj_on ev_key (set (events d))"
    using ok by (simp_all add: schema_ok_def keys_ok_defs distinct_map)
  have "ev_application_id e = ev_application_id e'"
    using assms(2,3) inj_onD [OF inj(1)] unfolding designates_def by metis
  then have "ev_key e = ev_key e'" using assms(2,3) by (simp add: designates_def)
  with assms(2,3) inj_onD [OF inj(2)] show ?thesis unfolding designates_def by blast
qed

text \<open>Interference does not take away what the first step returned.\<close>

lemma app_result_env:
  assumes "app_result name app pending d1" and "grows d1 d2"
    and "pending = Some app \<Longrightarrow> app_id app \<notin> app_id ` set (applications d2) \<and> name \<notin> app_name ` set (applications d2)"
  shows "app_result name app pending d2"
  using assms by (cases pending) (auto simp: app_result_def grows_def)

text \<open>
  A key violation after the second look means another transaction committed the same
  submission: the application is then committed as well.
\<close>

lemma key_conflict:
  assumes ok: "schema_ok d2" and app: "app_result name app pending d2"
    and fresh: "ev_id ev \<notin> ev_id ` set (events d2)" and ev: "ev_application_id ev = app_id app"
    and fits: "event_error ev = None"
    and ins: "insert_event ev (visible pending d2) = Inl x"
  obtains e where "x = IntegrityError" and "e \<in> set (events d2)" and "ev_key e = ev_key ev" and "pending = None"
    and "app \<in> set (applications d2)"
proof -
  from app_in_visible [OF app] ev have "ev_application_id ev \<in> app_id ` set (applications (visible pending d2))"
    by simp
  with ins fresh fits obtain e where x: "x = IntegrityError" and e: "e \<in> set (events d2)" "ev_key e = ev_key ev"
    by (auto simp: insert_event_def split: if_splits)
  from ok e(1) have "ev_application_id e \<in> app_id ` set (applications d2)"
    by (simp add: schema_ok_def event_keys_ok_def)
  with e(2) ev app have "pending = None" by (auto simp: app_result_def split: option.splits)
  with app x e that show thesis by (simp add: app_result_def)
qed

text \<open>
  What the first phase leaves for the second: an application that is still good after the
  interference before the flush of the event, and a fresh identifier for that event.
\<close>

lemma application_phase:
  assumes app: "get_or_create_application E (ec_application_name p) d = (Inr (app, pending), d1)"
    and ok: "schema_ok d" and env: "benign (env_app E)" "benign (env_ev E)" and ids: "fresh_ids E p d"
  shows "schema_ok d1" and "grows d d1"
    and "app_result (ec_application_name p) app pending d1"
    and "app_result (ec_application_name p) app pending (env_ev E d1)"
    and "new_event_id E \<notin> ev_id ` set (events (env_ev E d1))"
proof -
  let ?name = "ec_application_name p"
  note res = application_result [OF app]
  have d1: "d1 \<in> {d, env_app E d}" and r: "app_result ?name app pending d1"
    and pid: "pending = Some app \<longrightarrow> d1 = env_app E d \<and> app_id app = new_app_id E"
    using res by blast+
  show ok1: "schema_ok d1" and "grows d d1" using d1 ok benignD [OF env(1) ok] by auto
  show "app_result ?name app pending d1" by (fact r)
  show "app_result ?name app pending (env_ev E d1)"
  proof (rule app_result_env [OF r])
    show "grows d1 (env_ev E d1)" using benignD [OF env(2) ok1] by blast
    show "app_id app \<notin> app_id ` set (applications (env_ev E d1))
        \<and> ?name \<notin> app_name ` set (applications (env_ev E d1))" if pend: "pending = Some app"
    proof -
      from pend pid r have "?name \<notin> app_name ` set (applications (env_app E d))"
        by (simp add: app_result_def)
      with ids pid pend show ?thesis by (simp add: fresh_ids_def)
    qed
  qed
  show "new_event_id E \<notin> ev_id ` set (events (env_ev E d1))"
    using d1 ids by (auto simp: fresh_ids_def)
qed

text \<open>
  Every submission takes effect at one committed state of the database, its linearization point
  \<open>d0\<close>: either it finds its event there and leaves the state as it is, or it adds its row to it.
\<close>

definition takes_effect :: "submission_env \<Rightarrow> event_create \<Rightarrow> event \<Rightarrow> bool \<Rightarrow> db \<Rightarrow> db \<Rightarrow> bool" where
  "takes_effect E p e dup d0 d' \<longleftrightarrow>
     (if dup then d' = d0 \<and> designates p e d0
      else \<exists>app pending. app_result (ec_application_name p) app pending d0
        \<and> e = new_event E (app_id app) p \<and> insert_event e (visible pending d0) = Inr d')"

lemma takes_effect_designates:
  assumes "takes_effect E p e dup d0 d'"
  shows "designates p e d'"
proof (cases dup)
  case True
  with assms show ?thesis by (simp add: takes_effect_def)
next
  case False
  with assms obtain app pending where app: "app_result (ec_application_name p) app pending d0"
    and e: "e = new_event E (app_id app) p" and ins: "insert_event e (visible pending d0) = Inr d'"
    by (auto simp: takes_effect_def)
  from app have "app_name app = ec_application_name p" by (simp add: app_result_def)
  with app_in_visible [OF app] e ins show ?thesis
    by (auto simp: designates_def insert_event_def new_event_def split: if_splits option.splits)
qed

lemma takes_effect_keeps:
  assumes eff: "takes_effect E p e dup d0 d'" and ok: "schema_ok d0"
  shows "schema_ok d'" and "grows d0 d'"
proof -
  have "schema_ok d' \<and> grows d0 d'"
  proof (cases dup)
    case True
    with eff ok show ?thesis by (simp add: takes_effect_def)
  next
    case False
    with eff obtain app pending where app: "app_result (ec_application_name p) app pending d0"
      and ins: "insert_event e (visible pending d0) = Inr d'"
      by (auto simp: takes_effect_def)
    from insert_event_ok [OF visible_ok [OF ok app] ins]
      grows_trans [OF grows_visible grows_insert_event [OF ins]]
    show ?thesis by blast
  qed
  then show "schema_ok d'" and "grows d0 d'" by blast+
qed

abbreviation committed_states :: "submission_env \<Rightarrow> db \<Rightarrow> db set" where
  "committed_states E d \<equiv> {d, env_app E d, env_ev E d, env_ev E (env_app E d)}"

lemma found_designates:
  assumes "schema_ok d" and "app_result (ec_application_name p) app pending d"
    and "e \<in> set (events d)" and "ev_application_id e = app_id app" and "ev_idempotency_key e = ec_idempotency_key p"
  shows "designates p e d"
proof -
  from assms(1,3) have "ev_application_id e \<in> app_id ` set (applications d)"
    by (simp add: schema_ok_def event_keys_ok_def)
  with assms(2,4) have "app \<in> set (applications d)" "app_name app = ec_application_name p"
    by (auto simp: app_result_def split: option.splits)
  with assms(3-5) show ?thesis by (auto simp: designates_def)
qed

lemma get_or_create_event_effect:
  assumes ok: "schema_ok d" and env: "benign (env_app E)" "benign (env_ev E)" and ids: "fresh_ids E p d"
    and run: "get_or_create_event E p d = (Inr (e, dup), d')"
  obtains d0 where "d0 \<in> committed_states E d" and "schema_ok d0" and "grows d d0"
    and "takes_effect E p e dup d0 d'"
proof -
  from run obtain app pending d1
    where app: "get_or_create_application E (ec_application_name p) d = (Inr (app, pending), d1)"
    by (auto simp: get_or_create_event_def split: prod.splits sum.splits)
  note ph = application_phase [OF app ok env ids]
  have ok2: "schema_ok (env_ev E d1)" and g2: "grows d (env_ev E d1)"
    using benignD [OF env(2) ph(1)] grows_trans [OF ph(2)] by blast+
  let ?P = "\<lambda>e. ev_application_id e = app_id app \<and> ev_idempotency_key e = ec_idempotency_key p"
  from run [unfolded get_or_create_event_def app] consider
      (found) "scalar_one_or_none ?P (events d1) = Inr (Some e)" "dup" "d' = d1"
    | (new) "e = new_event E (app_id app) p" "\<not> dup" "insert_event e (visible pending (env_ev E d1)) = Inr d'"
    | (lost) "scalar_one ?P (events (env_ev E d1)) = Inr e" "dup" "d' = env_ev E d1"
    by (cases "scalar_one_or_none ?P (events d1)" rule: sum.exhaust;
        cases "insert_event (new_event E (app_id app) p) (visible pending (env_ev E d1))";
        cases "scalar_one ?P (events (env_ev E d1))")
      (simp_all add: Let_def split: option.splits if_splits)
  then show thesis
  proof cases
    case found
    with found_designates [OF ph(1,3)] have "takes_effect E p e dup d1 d'"
      by (auto simp: takes_effect_def dest: scalar_one_or_none_SomeD)
    with that ph(1,2) application_result(1) [OF app] show thesis by blast
  next
    case new
    with ph(4) have "takes_effect E p e dup (env_ev E d1) d'" by (auto simp: takes_effect_def)
    with that ok2 g2 application_result(1) [OF app] show thesis by blast
  next
    case lost
    with found_designates [OF ok2 ph(4)] have "takes_effect E p e dup (env_ev E d1) d'"
      by (auto simp: takes_effect_def dest: scalar_one_InrD)
    with that ok2 g2 application_result(1) [OF app] show thesis by blast
  qed
qed

text \<open>A submission that fits the columns is answered.\<close>

lemma get_or_create_event_total:
  assumes ok: "schema_ok d" and env: "benign (env_app E)" "benign (env_ev E)"
    and ids: "fresh_ids E p d" and fits: "payload_fits p"
  shows "\<exists>e dup d'. get_or_create_event E p d = (Inr (e, dup), d')"
proof -
  obtain app pending d1
    where app: "get_or_create_application E (ec_application_name p) d = (Inr (app, pending), d1)"
    using application_total [OF ok env(1) ids payload_name_fits [OF fits]] by blast
  note ph = application_phase [OF app ok env ids]
  have ok2: "schema_ok (env_ev E d1)" using benignD [OF env(2) ph(1)] by blast
  let ?P = "\<lambda>e. ev_application_id e = app_id app \<and> ev_idempotency_key e = ec_idempotency_key p"
  let ?ev = "new_event E (app_id app) p"
  show ?thesis
  proof (cases "\<exists>e \<in> set (events d1). ?P e")
    case True
    then obtain e where e: "e \<in> set (events d1)" and k: "ev_application_id e = app_id app"
      "ev_idempotency_key e = ec_idempotency_key p" by blast
    have "get_or_create_event E p d = (Inr (e, True), d1)"
      using app scalar_by_key(2) [OF ph(1) e, unfolded k] by (simp add: get_or_create_event_def Let_def)
    then show ?thesis by blast
  next
    case False
    then have look: "scalar_one_or_none ?P (events d1) = Inr None"
      by (intro scalar_one_or_none_absent) blast
    show ?thesis
    proof (cases "insert_event ?ev (visible pending (env_ev E d1))")
      case (Inr d3)
      then have "get_or_create_event E p d = (Inr (?ev, False), d3)"
        using app look by (simp add: get_or_create_event_def Let_def)
      then show ?thesis by blast
    next
      case (Inl x)
      have "ev_id ?ev \<notin> ev_id ` set (events (env_ev E d1))" and "ev_application_id ?ev = app_id app"
        using ph(5) by (simp_all add: new_event_def)
      from key_conflict [OF ok2 ph(4) this new_event_fits [OF fits] Inl] obtain e
        where x: "x = IntegrityError" and e: "e \<in> set (events (env_ev E d1))" "ev_key e = ev_key ?ev"
        by metis
      then have k: "ev_application_id e = app_id app" "ev_idempotency_key e = ec_idempotency_key p"
        by (auto simp: new_event_def)
      have "get_or_create_event E p d = (Inr (e, True), env_ev E d1)"
        using app look Inl x scalar_by_key(1) [OF ok2 e(1), unfolded k]
        by (simp add: get_or_create_event_def Let_def)
      then show ?thesis by blast
    qed
  qed
qed

lemma get_or_create_event_linearizes:
  assumes "schema_ok d" and "benign (env_app E)" and "benign (env_ev E)" and "fresh_ids E p d" and "payload_fits p"
  obtains e dup d0 d' where "get_or_create_event E p d = (Inr (e, dup), d')"
    and "d0 \<in> committed_states E d" and "schema_ok d0" and "grows d d0"
    and "takes_effect E p e dup d0 d'"
  using get_or_create_event_total [OF assms] get_or_create_event_effect [OF assms(1-4)] by metis

lemma get_or_create_event_ok:
  assumes "schema_ok d" and "benign (env_app E)" and "benign (env_ev E)" and "fresh_ids E p d" and "payload_fits p"
  obtains e dup d' where "get_or_create_event E p d = (Inr (e, dup), d')"
    and "schema_ok d'" and "grows d d'" and "designates p e d'"
    and "\<not> dup \<Longrightarrow> e = new_event E (ev_application_id e) p"
proof -
  obtain e dup d0 d' where "get_or_create_event E p d = (Inr (e, dup), d')"
    and g: "grows d d0" and ok: "schema_ok d0" and eff: "takes_effect E p e dup d0 d'"
    using get_or_create_event_linearizes [OF assms] by metis
  moreover have "e = new_event E (ev_application_id e) p" if "\<not> dup"
    using eff that by (auto simp: takes_effect_def new_event_def)
  ultimately show thesis
    using that takes_effect_keeps [OF eff ok] takes_effect_designates [OF eff] grows_trans [OF g]
    by blast
qed

text \<open>Whatever the payload, the database a submission leaves, answering or raising, is in order.\<close>

lemma get_or_create_event_state:
  assumes ok: "schema_ok d" and env: "benign (env_app E)" "benign (env_ev E)" and ids: "fresh_ids E p d"
    and run: "get_or_create_event E p d = (res, d')"
  shows "schema_ok d' \<and> grows d d'"
proof -
  obtain r1 d1 where a: "get_or_create_application E (ec_application_name p) d = (r1, d1)" by force
  have d1: "schema_ok d1 \<and> grows d d1" using application_result(1) [OF a] ok benignD [OF env(1) ok] by auto
  have d2: "schema_ok (env_ev E d1) \<and> grows d (env_ev E d1)"
    using benignD [OF env(2)] d1 grows_trans by blast
  have d3: "schema_ok d3 \<and> grows d d3"
    if "r1 = Inr (app, pending)" and ins: "insert_event e (visible pending (env_ev E d1)) = Inr d3" for app pending e d3
  proof -
    from a that(1) have "get_or_create_application E (ec_application_name p) d = (Inr (app, pending), d1)" by simp
    from visible_ok [OF _ application_phase(4) [OF this ok env ids]] d2
    have "schema_ok (visible pending (env_ev E d1))" by blast
    with insert_event_ok [OF _ ins] d2 grows_trans [OF _ grows_trans [OF grows_visible grows_insert_event [OF ins]]]
    show ?thesis by blast
  qed
  show ?thesis using run a d1 d2
    by (auto simp: get_or_create_event_def Let_def dest: d3 split: sum.splits option.splits prod.splits if_splits)
qed

text \<open>A rival transaction that commits one event, or fails on a constraint.\<close>

definition rival_insert :: "event \<Rightarrow> db \<Rightarrow> db" where
  "rival_insert e d = (case insert_event e d of Inl _ \<Rightarrow> d | Inr d' \<Rightarrow> d')"

lemma benign_rival: "benign (rival_insert e)"
  by (auto simp: benign_def rival_insert_def split: sum.split intro: insert_event_ok grows_insert_event)

section \<open>Properties\<close>

text \<open>C13. Under any interference by other transactions that keeps the schema and deletes nothing,
  a submission that fits the columns never fails: it returns an event row that is in the table with the submission's
  idempotency key and application name, no other row has that key, and all constraints still
  hold.\<close>

theorem submission_returns_the_event:
  assumes "schema_ok d" and "benign (env_app E)" and "benign (env_ev E)" and "fresh_ids E p d" and "payload_fits p"
  shows "\<exists>e dup d'. get_or_create_event E p d = (Inr (e, dup), d') \<and> schema_ok d' \<and> grows d d'
    \<and> designates p e d' \<and> (\<forall>e'. designates p e' d' \<longrightarrow> e' = e)"
proof -
  obtain e dup d' where r: "get_or_create_event E p d = (Inr (e, dup), d')"
    "schema_ok d'" "grows d d'" "designates p e d'"
    using get_or_create_event_ok [OF assms] by metis
  moreover have "\<forall>e'. designates p e' d' \<longrightarrow> e' = e"
    using designates_unique r by blast
  ultimately show ?thesis by blast
qed


section \<open>Witnesses\<close>

definition ex_app :: application where
  "ex_app = \<lparr>app_id = ''a1'', app_name = ''demo'', app_created_at = 0\<rparr>"

definition ex_payload :: event_create where
  "ex_payload = \<lparr>ec_application_name = ''demo'', ec_workflow_id = ''wf'', ec_event_type = ''checkout.started'',
     ec_service_name = ''web'', ec_idempotency_key = ''k1'', ec_payload = [], ec_metadata = [],
     ec_max_attempts = 4\<rparr>"

definition ex_env :: "(db \<Rightarrow> db) \<Rightarrow> uuid \<Rightarrow> submission_env" where
  "ex_env f i = \<lparr>env_app = (\<lambda>d. d), env_ev = f, new_app_id = ''a9'', new_event_id = i,
     app_now = 0, created_now = 1, updated_now = 2\<rparr>"

definition ex_db :: db where
  "ex_db = empty_db\<lparr>applications := [ex_app]\<rparr>"

definition ex_rival :: event where
  "ex_rival = new_event (ex_env (\<lambda>d. d) ''e1'') ''a1'' ex_payload"

lemmas ex_defs = ex_app_def ex_payload_def ex_env_def ex_db_def ex_rival_def empty_db_def

lemmas fits_eval = column_error_def event_error_def event_columns_def application_columns_def fits_int4_def

lemma ex_payload_fits: "payload_fits ex_payload"
  by (simp add: payload_fits_def fits_eval ex_payload_def)

lemma ex_db_ok: "schema_ok ex_db"
  by (simp add: ex_defs schema_ok_def keys_ok_defs)

text \<open>The witness is a race: a rival commits the same submission between the look and the flush.\<close>

theorem submission_returns_the_event_witness:
  "\<exists>e dup d'. get_or_create_event (ex_env (rival_insert ex_rival) ''e2'') ex_payload ex_db = (Inr (e, dup), d')
    \<and> schema_ok d' \<and> grows ex_db d' \<and> designates ex_payload e d'
    \<and> (\<forall>e'. designates ex_payload e' d' \<longrightarrow> e' = e)"
proof (rule submission_returns_the_event [OF ex_db_ok])
  show "benign (env_app (ex_env (rival_insert ex_rival) ''e2''))" by (simp add: ex_env_def)
  show "benign (env_ev (ex_env (rival_insert ex_rival) ''e2''))" by (simp add: ex_env_def benign_rival)
  show "fresh_ids (ex_env (rival_insert ex_rival) ''e2'') ex_payload ex_db"
    by (simp add: fresh_ids_def ex_defs rival_insert_def insert_event_def new_event_def fits_eval)
qed (fact ex_payload_fits)

lemma ex_race_value:
  "get_or_create_event (ex_env (rival_insert ex_rival) ''e2'') ex_payload ex_db
    = (Inr (ex_rival, True), rival_insert ex_rival ex_db)"
  by (simp add: get_or_create_event_def get_or_create_application_def ex_defs rival_insert_def
      insert_event_def new_event_def fits_eval scalar_one_or_none_def scalar_one_def visible_def Let_def)


end
