(* ===== verification/Binary64.thy ===== *)
theory Binary64
  imports Prelude
begin

text \<open>
  Python's \<^verbatim>\<open>float\<close>: every arithmetic operation is the exact rational result rounded to the
  nearest number with a 53-bit significand, ties to even. \<open>fl\<close> is that rounding, executable;
  exponents are unbounded, since no value of this program comes near the ends of the range of
  a binary64. A float literal is \<open>fl\<close> of its decimal value. The lemmas are the ones the
  components need: \<open>fl\<close> is monotone, odd, and exact on small integers and dyadic numbers.
  \<open>py_int\<close> is \<^verbatim>\<open>int(x)\<close> (truncation towards zero) and \<open>py_round\<close> is
  \<^verbatim>\<open>round(x, n)\<close> (correctly rounded decimal, ties to even on the exact value).
\<close>

definition pow2 :: "int \<Rightarrow> rat" where
  "pow2 k = (if 0 \<le> k then 2 ^ nat k else 1 / 2 ^ nat (- k))"

fun int_log2 :: "int \<Rightarrow> nat" where
  "int_log2 n = (if n \<le> 1 then 0 else Suc (int_log2 (n div 2)))"

declare int_log2.simps [simp del]

definition ilog2 :: "rat \<Rightarrow> int" where
  "ilog2 q = (let (n, d) = quotient_of q;
                  k = int (int_log2 n) - int (int_log2 d)
              in if pow2 k \<le> q then k else k - 1)"

text \<open>Nearest integer, ties to even.\<close>

definition rne :: "rat \<Rightarrow> int" where
  "rne q = (let f = \<lfloor>q\<rfloor>; r = q - of_int f in
     if r < 1 / 2 then f
     else if 1 / 2 < r then f + 1
     else if even f then f else f + 1)"

definition fl_pos :: "rat \<Rightarrow> rat" where
  "fl_pos q = (let u = pow2 (ilog2 q - 52) in of_int (rne (q / u)) * u)"

definition fl :: "rat \<Rightarrow> rat" where
  "fl q = (if q = 0 then 0 else if q < 0 then - fl_pos (- q) else fl_pos q)"

definition py_int :: "rat \<Rightarrow> int" where
  "py_int q = (if q < 0 then \<lceil>q\<rceil> else \<lfloor>q\<rfloor>)"

definition py_round :: "nat \<Rightarrow> rat \<Rightarrow> rat" where
  "py_round n q = fl (of_int (rne (q * 10 ^ n)) / 10 ^ n)"

section \<open>Powers of two and the exponent\<close>

lemma pow2_pos [simp]: "0 < pow2 k"
  by (simp add: pow2_def)

lemma pow2_nonzero [simp]: "pow2 k \<noteq> 0"
  using pow2_pos [of k] by linarith

lemma pow2_Suc: "pow2 (k + 1) = 2 * pow2 k"
proof (cases "0 \<le> k")
  case True
  then show ?thesis by (simp add: pow2_def nat_add_distrib)
next
  case False
  then have "nat (- k) = Suc (nat (- (k + 1)))" by linarith
  with False show ?thesis by (cases "k = -1") (auto simp: pow2_def)
qed

lemma pow2_add_nat: "pow2 (k + int n) = 2 ^ n * pow2 k"
proof (induction n)
  case 0
  show ?case by simp
next
  case (Suc n)
  have "pow2 (k + int (Suc n)) = pow2 ((k + int n) + 1)" by (simp add: algebra_simps)
  with Suc show ?case by (simp only: pow2_Suc) simp
qed

lemma pow2_mono: "j \<le> k \<Longrightarrow> pow2 j \<le> pow2 k"
proof -
  assume "j \<le> k"
  then obtain n where k: "k = j + int n" by (metis zle_iff_zadd)
  have "1 * pow2 j \<le> 2 ^ n * pow2 j"
    by (rule mult_right_mono) (simp_all add: less_imp_le)
  with k show ?thesis by (simp add: pow2_add_nat)
qed

lemma pow2_less_iff: "pow2 j < pow2 k \<longleftrightarrow> j < k"
proof
  show "j < k" if "pow2 j < pow2 k"
    using that pow2_mono [of k j] by linarith
  show "pow2 j < pow2 k" if "j < k"
  proof -
    from that have "pow2 (j + 1) \<le> pow2 k" by (intro pow2_mono) simp
    moreover have "pow2 j < pow2 (j + 1)" using pow2_pos [of j] by (simp add: pow2_Suc)
    ultimately show ?thesis by linarith
  qed
qed

lemma int_log2_bounds: "0 < n \<Longrightarrow> 2 ^ int_log2 n \<le> n \<and> n < 2 ^ Suc (int_log2 n)"
proof (induction n rule: int_log2.induct)
  case (1 n)
  show ?case
  proof (cases "n \<le> 1")
    case True
    with "1.prems" show ?thesis by (simp add: int_log2.simps [of n])
  next
    case False
    then have "0 < n div 2" by linarith
    with "1.IH" False have "2 ^ int_log2 (n div 2) \<le> n div 2 \<and> n div 2 < 2 ^ Suc (int_log2 (n div 2))"
      by blast
    with False show ?thesis by (simp add: int_log2.simps [of n]) linarith
  qed
qed

lemma int_log2_rat:
  assumes "0 < n"
  shows "(2::rat) ^ int_log2 n \<le> of_int n \<and> of_int n < (2::rat) ^ Suc (int_log2 n)"
proof -
  from int_log2_bounds [OF assms]
  have "of_int (2 ^ int_log2 n) \<le> (of_int n :: rat)"
      "of_int n < (of_int (2 ^ Suc (int_log2 n)) :: rat)"
    by (simp_all only: of_int_le_iff of_int_less_iff)
  then show ?thesis by simp
qed

lemma ilog2_bounds:
  assumes "0 < q"
  shows "pow2 (ilog2 q) \<le> q \<and> q < pow2 (ilog2 q + 1)"
proof -
  obtain n d where nd: "quotient_of q = (n, d)" by force
  then have d: "0 < d" and q: "q = of_int n / of_int d"
    using quotient_of_denom_pos quotient_of_div by auto
  with assms have n: "0 < n" by (simp add: zero_less_divide_iff)
  let ?a = "int_log2 n" and ?b = "int_log2 d"
  let ?k = "int ?a - int ?b"
  have a: "(2::rat) ^ ?a \<le> of_int n" "of_int n < (2::rat) ^ Suc ?a"
    and b: "(2::rat) ^ ?b \<le> of_int d" "of_int d < (2::rat) ^ Suc ?b"
    using int_log2_rat [OF n] int_log2_rat [OF d] by blast+
  have ka: "pow2 ?k * 2 ^ ?b = 2 ^ ?a"
    using pow2_add_nat [of ?k ?b] by (simp add: pow2_def mult.commute)
  have upper: "q < pow2 (?k + 1)"
  proof -
    have "of_int n < 2 * (pow2 ?k * 2 ^ ?b)" using a ka by simp
    also have "\<dots> \<le> 2 * (pow2 ?k * of_int d)" using b(1) by simp
    finally have "q < 2 * pow2 ?k" using d by (simp add: q field_simps)
    then show ?thesis by (simp only: pow2_Suc)
  qed
  have lower: "pow2 (?k - 1) \<le> q"
  proof -
    have "pow2 ?k * of_int d \<le> pow2 ?k * (2 * 2 ^ ?b)" using b(2) by simp
    also have "\<dots> = 2 * 2 ^ ?a" using ka by (simp add: mult.left_commute)
    also have "\<dots> \<le> 2 * of_int n" using a(1) by simp
    finally have "pow2 ?k / 2 \<le> q" using d by (simp add: q field_simps)
    then show ?thesis using pow2_Suc [of "?k - 1"] by simp
  qed
  show ?thesis
    using upper lower by (auto simp: ilog2_def nd Let_def)
qed

lemma ilog2_unique: "pow2 k \<le> q \<Longrightarrow> q < pow2 (k + 1) \<Longrightarrow> ilog2 q = k"
proof -
  assume k: "pow2 k \<le> q" "q < pow2 (k + 1)"
  then have "0 < q" using pow2_pos [of k] by linarith
  from ilog2_bounds [OF this] k have "pow2 k < pow2 (ilog2 q + 1)" "pow2 (ilog2 q) < pow2 (k + 1)"
    by linarith+
  then show ?thesis by (simp add: pow2_less_iff)
qed

lemma ilog2_mono: "0 < p \<Longrightarrow> p \<le> q \<Longrightarrow> ilog2 p \<le> ilog2 q"
proof -
  assume pq: "0 < p" "p \<le> q"
  then have "pow2 (ilog2 p) < pow2 (ilog2 q + 1)"
    using ilog2_bounds [of p] ilog2_bounds [of q] by linarith
  then show ?thesis by (simp add: pow2_less_iff)
qed

section \<open>Rounding\<close>

lemma rne_of_int [simp]: "rne (of_int i) = i"
  by (simp add: rne_def)

lemma rne_bounds: "\<lfloor>q\<rfloor> \<le> rne q \<and> rne q \<le> \<lfloor>q\<rfloor> + 1"
  by (simp add: rne_def Let_def)

lemma rne_mono: "p \<le> q \<Longrightarrow> rne p \<le> rne q"
proof -
  assume pq: "p \<le> q"
  show ?thesis
  proof (cases "\<lfloor>p\<rfloor> = \<lfloor>q\<rfloor>")
    case True
    with pq show ?thesis by (auto simp: rne_def Let_def)
  next
    case False
    with pq floor_mono [OF pq] have "\<lfloor>p\<rfloor> + 1 \<le> \<lfloor>q\<rfloor>" by linarith
    with rne_bounds [of p] rne_bounds [of q] show ?thesis by linarith
  qed
qed

text \<open>The significand of a rounded number has 53 bits.\<close>

lemma fl_pos_significand:
  assumes "0 < q"
  shows "2 ^ 52 \<le> rne (q / pow2 (ilog2 q - 52))" and "rne (q / pow2 (ilog2 q - 52)) \<le> 2 ^ 53"
proof -
  let ?e = "ilog2 q - 52"
  let ?u = "pow2 ?e"
  have lo: "2 ^ 52 * ?u = pow2 (ilog2 q)" and hi: "2 ^ 53 * ?u = pow2 (ilog2 q + 1)"
    using pow2_add_nat [of ?e 52] pow2_add_nat [of ?e 53] by (simp_all add: add.commute)
  from ilog2_bounds [OF assms] lo hi have "of_int (2 ^ 52) \<le> q / ?u" "q / ?u \<le> of_int (2 ^ 53)"
    by (simp_all add: field_simps)
  then show "2 ^ 52 \<le> rne (q / ?u)" "rne (q / ?u) \<le> 2 ^ 53"
    by (metis rne_mono rne_of_int)+
qed

lemma fl_pos_bounds:
  assumes "0 < q"
  shows "pow2 (ilog2 q) \<le> fl_pos q \<and> fl_pos q \<le> pow2 (ilog2 q + 1)"
proof -
  let ?e = "ilog2 q - 52"
  let ?u = "pow2 ?e"
  have lo: "2 ^ 52 * ?u = pow2 (ilog2 q)" and hi: "2 ^ 53 * ?u = pow2 (ilog2 q + 1)"
    using pow2_add_nat [of ?e 52] pow2_add_nat [of ?e 53] by (simp_all add: add.commute)
  from fl_pos_significand [OF assms] have "of_int (2 ^ 52) \<le> (of_int (rne (q / ?u)) :: rat)"
      "(of_int (rne (q / ?u)) :: rat) \<le> of_int (2 ^ 53)"
    by (simp_all only: of_int_le_iff)
  then have "of_int (2 ^ 52) * ?u \<le> of_int (rne (q / ?u)) * ?u"
      "of_int (rne (q / ?u)) * ?u \<le> of_int (2 ^ 53) * ?u"
    by (simp_all only: mult_right_mono less_imp_le [OF pow2_pos])
  with lo hi show ?thesis by (simp add: fl_pos_def Let_def)
qed

lemma fl_pos_mono:
  assumes "0 < p" and "p \<le> q"
  shows "fl_pos p \<le> fl_pos q"
proof (cases "ilog2 p = ilog2 q")
  case True
  have "rne (p / pow2 (ilog2 q - 52)) \<le> rne (q / pow2 (ilog2 q - 52))"
    using assms by (intro rne_mono divide_right_mono) (simp_all add: less_imp_le)
  then show ?thesis
    by (simp add: fl_pos_def Let_def True less_imp_le mult_right_mono)
next
  case False
  with ilog2_mono [OF assms] have "pow2 (ilog2 p + 1) \<le> pow2 (ilog2 q)"
    by (intro pow2_mono) linarith
  with fl_pos_bounds [of p] fl_pos_bounds [of q] assms show ?thesis by linarith
qed

lemma fl_pos_pos: "0 < q \<Longrightarrow> 0 < fl_pos q"
  using fl_pos_bounds [of q] pow2_pos [of "ilog2 q"] by linarith

lemma fl_0 [simp]: "fl 0 = 0"
  by (simp add: fl_def)

lemma fl_uminus: "fl (- q) = - fl q"
  by (simp add: fl_def)

lemma fl_nonneg: "0 \<le> q \<Longrightarrow> 0 \<le> fl q"
  using fl_pos_pos [of q] by (auto simp: fl_def)

lemma fl_mono: "p \<le> q \<Longrightarrow> fl p \<le> fl q"
  using fl_pos_mono [of p q] fl_pos_mono [of "- q" "- p"] fl_pos_pos [of q] fl_pos_pos [of "- p"]
  by (auto simp: fl_def)

lemma fl_exact_pos:
  assumes "0 < m" and "m \<le> 2 ^ 53"
  shows "fl (of_int m * pow2 e) = of_int m * pow2 e"
proof -
  let ?q = "of_int m * pow2 e"
  have q: "0 < ?q" using assms by simp
  have "of_int m \<le> (of_int (2 ^ 53) :: rat)" using assms(2) by (simp only: of_int_le_iff)
  then have "?q \<le> of_int (2 ^ 53) * pow2 e" by (intro mult_right_mono) (simp_all add: less_imp_le)
  then have qle: "?q \<le> pow2 (e + 53)" using pow2_add_nat [of e 53] by simp
  have "\<exists>z::int. ?q / pow2 (ilog2 ?q - 52) = of_int z"
  proof (cases "?q = pow2 (e + 53)")
    case True
    then have "ilog2 ?q = e + 53" by (intro ilog2_unique) (simp_all add: pow2_less_iff)
    with True pow2_add_nat [of "e + 1" 52]
    have "?q / pow2 (ilog2 ?q - 52) = of_int (2 ^ 52)" by (simp add: field_simps)
    then show ?thesis by blast
  next
    case False
    with qle ilog2_bounds [OF q] have "pow2 (ilog2 ?q) < pow2 (e + 53)" by linarith
    then have "ilog2 ?q - 52 \<le> e" by (simp add: pow2_less_iff)
    then obtain n where n: "e = (ilog2 ?q - 52) + int n" by (metis zle_iff_zadd)
    define c where "c = ilog2 ?q - 52"
    from n have "pow2 e = 2 ^ n * pow2 c" unfolding c_def by (metis pow2_add_nat)
    then have "?q / pow2 c = of_int (m * 2 ^ n)" by simp
    then have "?q / pow2 (ilog2 ?q - 52) = of_int (m * 2 ^ n)" unfolding c_def .
    then show ?thesis by blast
  qed
  then obtain z :: int where z: "?q / pow2 (ilog2 ?q - 52) = of_int z" by blast
  then have "fl_pos ?q = of_int z * pow2 (ilog2 ?q - 52)"
    by (simp add: fl_pos_def Let_def)
  also have "\<dots> = ?q" by (simp flip: z)
  finally show ?thesis using q by (auto simp: fl_def)
qed

text \<open>A float is its own rounding, and so is half of it: the exponent is unbounded here.\<close>

lemma fl_float:
  assumes "0 \<le> q"
  shows "fl (fl q) = fl q" and "fl (fl q / 2) = fl q / 2"
proof -
  have "fl (fl q) = fl q \<and> fl (fl q / 2) = fl q / 2"
  proof (cases "q = 0")
    case False
    with assms have q: "0 < q" by simp
    let ?m = "rne (q / pow2 (ilog2 q - 52))" and ?e = "ilog2 q - 52"
    have "(0 :: int) < 2 ^ 52" by simp
    from order_less_le_trans [OF this fl_pos_significand(1) [OF q]] fl_pos_significand(2) [OF q]
    have m: "0 < ?m" "?m \<le> 2 ^ 53" .
    have f: "fl q = of_int ?m * pow2 ?e" using q by (simp add: fl_def fl_pos_def Let_def)
    moreover have "pow2 ?e / 2 = pow2 (?e - 1)" using pow2_Suc [of "?e - 1"] by simp
    then have "fl q / 2 = of_int ?m * pow2 (?e - 1)" unfolding f by (metis times_divide_eq_right)
    ultimately show ?thesis using fl_exact_pos [OF m] by (metis (no_types))
  qed simp
  then show "fl (fl q) = fl q" "fl (fl q / 2) = fl q / 2" by simp_all
qed

lemma fl_of_int: "\<bar>i\<bar> \<le> 2 ^ 53 \<Longrightarrow> fl (of_int i) = of_int i"
  using fl_exact_pos [of i 0] fl_exact_pos [of "- i" 0]
  by (cases i "0 :: int" rule: linorder_cases) (auto simp: pow2_def fl_uminus)

lemma fl_half: "\<bar>i\<bar> \<le> 2 ^ 53 \<Longrightarrow> fl (of_int i / 2) = of_int i / 2"
  using fl_exact_pos [of i "-1"] fl_exact_pos [of "- i" "-1"] fl_uminus [of "of_int i / 2"]
  by (cases i "0 :: int" rule: linorder_cases) (auto simp: pow2_def)

lemma fl_of_nat: "n \<le> 2 ^ 53 \<Longrightarrow> fl (of_nat n) = of_nat n"
  using fl_of_int [of "int n"] by simp

lemma fl_1 [simp]: "fl 1 = 1"
  using fl_of_int [of 1] by simp

lemma fl_le_of_int: "q \<le> of_int i \<Longrightarrow> \<bar>i\<bar> \<le> 2 ^ 53 \<Longrightarrow> fl q \<le> of_int i"
  using fl_mono [of q "of_int i"] by (simp add: fl_of_int)

lemma fl_ge_of_int: "of_int i \<le> q \<Longrightarrow> \<bar>i\<bar> \<le> 2 ^ 53 \<Longrightarrow> of_int i \<le> fl q"
  using fl_mono [of "of_int i" q] by (simp add: fl_of_int)

lemma py_int_of_int [simp]: "py_int (of_int i) = i"
  by (simp add: py_int_def)

lemma py_int_nonneg: "0 \<le> q \<Longrightarrow> 0 \<le> py_int q"
  by (simp add: py_int_def)

lemma py_int_mono: "p \<le> q \<Longrightarrow> py_int p \<le> py_int q"
proof -
  assume pq: "p \<le> q"
  consider "q < 0" | "p < 0" "0 \<le> q" | "0 \<le> p" using pq by linarith
  then show ?thesis
  proof cases
    case 1
    with pq show ?thesis by (simp add: py_int_def ceiling_mono)
  next
    case 2
    then have "\<lceil>p\<rceil> \<le> 0" "0 \<le> \<lfloor>q\<rfloor>" by (simp_all add: ceiling_le_iff)
    then have "\<lceil>p\<rceil> \<le> \<lfloor>q\<rfloor>" by (rule order_trans)
    with 2 show ?thesis by (simp add: py_int_def)
  next
    case 3
    with pq show ?thesis by (simp add: py_int_def floor_mono)
  qed
qed

lemma py_round_mono: "p \<le> q \<Longrightarrow> py_round n p \<le> py_round n q"
  by (simp add: py_round_def fl_mono rne_mono mult_right_mono divide_right_mono)

lemma py_round_0 [simp]: "py_round n 0 = 0"
  using rne_of_int [of 0] by (simp add: py_round_def)

lemma py_round_1 [simp]: "py_round n 1 = 1"
  using rne_of_int [of "10 ^ n"] by (simp add: py_round_def)

end
