(* ===== verification/RedisStreams.thy ===== *)
theory RedisStreams
  imports Binary64
begin

text \<open>
  The Redis access layer, \<^verbatim>\<open>api/app/core/redis_streams.py\<close>.

  The Redis server is a service outside the repository, so it is a parameter: a record
  \<open>redis_api\<close> of the commands the program issues through redis-py, over an arbitrary server
  state \<^typ>\<open>'r\<close>. A command returns a reply or raises, and either way leaves a server state: a
  command that raised may or may not have been executed. The functions of the module take the
  record as their first argument.

  The locale \<open>redis_service\<close> states the documented behaviour the program relies on, through
  five views of a server state: whether the server answers, the scores of a sorted set, the
  entries of a stream not yet delivered to the consumer group, the group's pending entries, and
  the length of a stream. The in-memory server \<open>mem_api\<close> at the end interprets it.
\<close>

type_synonym ('a, 'r) rcall = "'r \<Rightarrow> (exn + 'a) \<times> 'r"
type_synonym msgid = nat
type_synonym fields = "(string \<times> string) list"
type_synonym message = "msgid \<times> fields"

record 'r redis_api =
  rd_xgroup_create :: "string \<Rightarrow> string \<Rightarrow> (unit, 'r) rcall"
  rd_xadd :: "string \<Rightarrow> fields \<Rightarrow> nat \<Rightarrow> (unit, 'r) rcall"
  rd_xreadgroup :: "string \<Rightarrow> string \<Rightarrow> string list \<Rightarrow> nat \<Rightarrow> ((string \<times> message list) list, 'r) rcall"
  rd_xautoclaim :: "string \<Rightarrow> string \<Rightarrow> string \<Rightarrow> int \<Rightarrow> nat \<Rightarrow> (message list, 'r) rcall"
  rd_xack :: "string \<Rightarrow> string \<Rightarrow> msgid \<Rightarrow> (unit, 'r) rcall"
  rd_xlen :: "string \<Rightarrow> (int, 'r) rcall"
  rd_xpending :: "string \<Rightarrow> string \<Rightarrow> (int, 'r) rcall"
  rd_zadd :: "string \<Rightarrow> string \<Rightarrow> rat \<Rightarrow> (unit, 'r) rcall"
  rd_zrem :: "string \<Rightarrow> string \<Rightarrow> (int, 'r) rcall"
  rd_zrangebyscore :: "string \<Rightarrow> rat \<Rightarrow> rat \<Rightarrow> (string list, 'r) rcall"
  rd_zremrangebyscore :: "string \<Rightarrow> rat \<Rightarrow> rat \<Rightarrow> (int, 'r) rcall"
  rd_zcard :: "string \<Rightarrow> (int, 'r) rcall"
  rd_expire :: "string \<Rightarrow> int \<Rightarrow> (unit, 'r) rcall"
  rd_ping :: "(unit, 'r) rcall"

definition STREAM_INCOMING :: string where "STREAM_INCOMING = ''events:incoming''"
definition STREAM_RETRY :: string where "STREAM_RETRY = ''events:retry''"
definition STREAM_DLQ :: string where "STREAM_DLQ = ''events:deadletter''"
definition RETRY_ZSET :: string where "RETRY_ZSET = ''events:retry:zset''"
definition GROUP :: string where "GROUP = ''replayforge-workers''"

lemmas stream_name_defs = STREAM_INCOMING_def STREAM_RETRY_def STREAM_DLQ_def

text \<open>The module-level client: created on the first call, then reused.\<close>

definition get_redis :: "(string \<Rightarrow> 'c) \<Rightarrow> string \<Rightarrow> 'c option \<Rightarrow> 'c \<times> 'c option" where
  "get_redis from_url redis_url client = (case client of
      None \<Rightarrow> (let c = from_url redis_url in (c, Some c))
    | Some c \<Rightarrow> (c, Some c))"

definition ensure_consumer_group :: "'r redis_api \<Rightarrow> string \<Rightarrow> (unit, 'r) rcall" where
  "ensure_consumer_group R stream r =
     (case rd_xgroup_create R stream GROUP r of
        (Inl (ResponseError m), r') \<Rightarrow>
          if str_contains ''BUSYGROUP'' m then (Inr (), r') else (Inl (ResponseError m), r')
      | (res, r') \<Rightarrow> (res, r'))"

definition publish_incoming :: "'r redis_api \<Rightarrow> uuid \<Rightarrow> (unit, 'r) rcall" where
  "publish_incoming R event_id r = rd_xadd R STREAM_INCOMING [(''event_id'', event_id)] 100000 r"

text \<open>
  A datetime argument: naive (local wall clock, with the offset of the local zone as a
  parameter) or aware (wall clock and UTC offset), in microseconds.
\<close>

datatype py_datetime = Naive int | Aware int int

definition timestamp_of_us :: "int \<Rightarrow> rat" where
  "timestamp_of_us us = fl (of_int us / 1000000)"

definition schedule_retry ::
  "'r redis_api \<Rightarrow> int \<Rightarrow> uuid \<Rightarrow> py_datetime \<Rightarrow> (unit, 'r) rcall" where
  "schedule_retry R local_offset event_id run_at r =
     (let score = (case run_at of
          Aware offset wall \<Rightarrow> timestamp_of_us wall
        | Naive wall \<Rightarrow> timestamp_of_us (wall - local_offset))
      in rd_zadd R RETRY_ZSET event_id score r)"

definition publish_deadletter :: "'r redis_api \<Rightarrow> uuid \<Rightarrow> string \<Rightarrow> (unit, 'r) rcall" where
  "publish_deadletter R event_id reason r =
     rd_xadd R STREAM_DLQ [(''event_id'', event_id), (''reason'', reason)] 100000 r"

definition due_retry_event_ids :: "'r redis_api \<Rightarrow> rat \<Rightarrow> (string list, 'r) rcall" where
  "due_retry_event_ids R now_ts r = rd_zrangebyscore R RETRY_ZSET 0 now_ts r"

definition remove_from_retry_zset :: "'r redis_api \<Rightarrow> uuid \<Rightarrow> (unit, 'r) rcall" where
  "remove_from_retry_zset R event_id r =
     (case rd_zrem R RETRY_ZSET event_id r of
        (Inl e, r') \<Rightarrow> (Inl e, r')
      | (Inr _, r') \<Rightarrow> (Inr (), r'))"

definition publish_retry_stream :: "'r redis_api \<Rightarrow> uuid \<Rightarrow> (unit, 'r) rcall" where
  "publish_retry_stream R event_id r = rd_xadd R STREAM_RETRY [(''event_id'', event_id)] 100000 r"

section \<open>What the program relies on\<close>

locale redis_service =
  fixes R :: "'r redis_api"
    and up :: "'r \<Rightarrow> bool"
    and zs :: "'r \<Rightarrow> string \<Rightarrow> string \<Rightarrow> rat option"
    and fresh :: "'r \<Rightarrow> string \<Rightarrow> message list"
    and pend :: "'r \<Rightarrow> string \<Rightarrow> message list"
    and slen :: "'r \<Rightarrow> string \<Rightarrow> nat"
  assumes xadd_up: "up r \<Longrightarrow> \<exists>r'. rd_xadd R s fs n r = (Inr (), r') \<and> up r'"
    and xadd_zs: "rd_xadd R s fs n r = (Inr (), r') \<Longrightarrow> zs r' = zs r"
    and xadd_pend: "rd_xadd R s fs n r = (Inr (), r') \<Longrightarrow> pend r' = pend r"
    and xadd_other: "rd_xadd R s fs n r = (Inr (), r') \<Longrightarrow> t \<noteq> s \<Longrightarrow> fresh r' t = fresh r t \<and> slen r' t = slen r t"
    and xadd_fresh: "rd_xadd R s fs n r = (Inr (), r') \<Longrightarrow> slen r s < n \<Longrightarrow>
      slen r' s = Suc (slen r s) \<and>
      (\<exists>i. i \<notin> fst ` set (fresh r s) \<union> fst ` set (pend r s) \<and> fresh r' s = fresh r s @ [(i, fs)])"
    and zadd_up: "up r \<Longrightarrow> \<exists>r'. rd_zadd R k m sc r = (Inr (), r') \<and> up r'"
    and zadd_zs: "rd_zadd R k m sc r = (Inr (), r') \<Longrightarrow> zs r' = (zs r)(k := (zs r k)(m := Some sc))"
    and zadd_frame: "rd_zadd R k m sc r = (Inr (), r') \<Longrightarrow> fresh r' = fresh r \<and> pend r' = pend r \<and> slen r' = slen r"
    and zrem_up: "up r \<Longrightarrow> \<exists>cnt r'. rd_zrem R k m r = (Inr cnt, r') \<and> up r'"
    and zrem_reply: "rd_zrem R k m r = (Inr cnt, r') \<Longrightarrow> cnt = (if zs r k m = None then 0 else 1)"
    and zrem_zs: "rd_zrem R k m r = (Inr cnt, r') \<Longrightarrow> zs r' = (zs r)(k := (zs r k)(m := None))"
    and zrem_frame: "rd_zrem R k m r = (Inr cnt, r') \<Longrightarrow> fresh r' = fresh r \<and> pend r' = pend r \<and> slen r' = slen r"
    and zrange_up: "up r \<Longrightarrow> \<exists>ids r'. rd_zrangebyscore R k lo hi r = (Inr ids, r') \<and> up r'"
    and zrange_reply: "rd_zrangebyscore R k lo hi r = (Inr ids, r') \<Longrightarrow>
      distinct ids \<and> set ids = {m. \<exists>sc. zs r k m = Some sc \<and> lo \<le> sc \<and> sc \<le> hi}"
    and zrange_frame: "rd_zrangebyscore R k lo hi r = (Inr ids, r') \<Longrightarrow>
      zs r' = zs r \<and> fresh r' = fresh r \<and> pend r' = pend r \<and> slen r' = slen r"
    and xack_up: "up r \<Longrightarrow> \<exists>r'. rd_xack R s GROUP i r = (Inr (), r') \<and> up r'"
    and xack_pend: "rd_xack R s GROUP i r = (Inr (), r') \<Longrightarrow>
      pend r' = (pend r)(s := filter (\<lambda>m. fst m \<noteq> i) (pend r s))"
    and xack_frame: "rd_xack R s GROUP i r = (Inr (), r') \<Longrightarrow> zs r' = zs r \<and> fresh r' = fresh r \<and> slen r' = slen r"
    and xread_new: "rd_xreadgroup R GROUP c ss n r = (Inr res, r') \<Longrightarrow> (s, ms) \<in> set res \<Longrightarrow>
      s \<in> set ss \<and> fresh r s = ms @ fresh r' s \<and> pend r' s = pend r s @ ms"
    and xread_frame: "rd_xreadgroup R GROUP c ss n r = (Inr res, r') \<Longrightarrow> zs r' = zs r \<and> slen r' = slen r"
    and xread_other: "rd_xreadgroup R GROUP c ss n r = (Inr res, r') \<Longrightarrow> s \<notin> fst ` set res \<Longrightarrow>
      fresh r' s = fresh r s \<and> pend r' s = pend r s"
    and xclaim_frame: "rd_xautoclaim R s GROUP c idle n r = (Inr ms, r') \<Longrightarrow>
      zs r' = zs r \<and> fresh r' = fresh r \<and> pend r' = pend r \<and> slen r' = slen r \<and> set ms \<subseteq> set (pend r s)"
    and xread_up: "up r \<Longrightarrow> \<exists>res r'. rd_xreadgroup R GROUP c ss n r = (Inr res, r') \<and> up r'"
    and xclaim_up: "up r \<Longrightarrow> \<exists>ms r'. rd_xautoclaim R s GROUP c idle n r = (Inr ms, r') \<and> up r'"
begin

text \<open>An entry published below the trimming threshold is the newest undelivered entry.\<close>

lemma published_fresh:
  assumes "rd_xadd R s fs n r = (Inr (), r')" and "slen r s < n"
  shows "\<exists>i. fresh r' s = fresh r s @ [(i, fs)]"
  using xadd_fresh [OF assms] by blast

text \<open>Taking an entry off a sorted set and back restores nothing else.\<close>

lemma zrem_zadd_zs:
  assumes "rd_zadd R k m sc r = (Inr (), r1)" and "rd_zrem R k m r1 = (Inr cnt, r2)"
  shows "cnt = 1" and "zs r2 = (zs r)(k := (zs r k)(m := None))"
  using zrem_reply [OF assms(2)] zrem_zs [OF assms(2)] zadd_zs [OF assms(1)] by simp_all

end

section \<open>An in-memory server\<close>

record mem_redis =
  mr_old :: "string \<Rightarrow> message list"
  mr_new :: "string \<Rightarrow> message list"
  mr_pel :: "string \<Rightarrow> (message \<times> string) list"
  mr_group :: "string \<Rightarrow> bool"
  mr_zset :: "string \<Rightarrow> (string \<times> rat) list"
  mr_up :: bool

definition mem_init :: mem_redis where
  "mem_init = \<lparr>mr_old = (\<lambda>_. []), mr_new = (\<lambda>_. []), mr_pel = (\<lambda>_. []), mr_group = (\<lambda>_. False),
     mr_zset = (\<lambda>_. []), mr_up = True\<rparr>"

definition mem_zs :: "mem_redis \<Rightarrow> string \<Rightarrow> string \<Rightarrow> rat option" where
  "mem_zs r k = map_of (mr_zset r k)"

definition mem_pend :: "mem_redis \<Rightarrow> string \<Rightarrow> message list" where
  "mem_pend r s = map fst (mr_pel r s)"

definition mem_slen :: "mem_redis \<Rightarrow> string \<Rightarrow> nat" where
  "mem_slen r s = length (mr_old r s) + length (mr_new r s)"

definition mem_guard :: "('a, mem_redis) rcall \<Rightarrow> ('a, mem_redis) rcall" where
  "mem_guard f r = (if mr_up r then f r else (Inl (RedisError ''connection refused''), r))"

definition next_id :: "mem_redis \<Rightarrow> string \<Rightarrow> msgid" where
  "next_id r s = Suc (sum_list (map fst (mr_old r s @ mr_new r s @ mem_pend r s)))"

definition mem_xgroup_create :: "string \<Rightarrow> string \<Rightarrow> (unit, mem_redis) rcall" where
  "mem_xgroup_create s g = mem_guard (\<lambda>r.
     if mr_group r s then (Inl (ResponseError ''BUSYGROUP Consumer Group name already exists''), r)
     else (Inr (), r\<lparr>mr_group := (mr_group r)(s := True)\<rparr>))"

definition mem_xadd :: "string \<Rightarrow> fields \<Rightarrow> nat \<Rightarrow> (unit, mem_redis) rcall" where
  "mem_xadd s fs maxlen = mem_guard (\<lambda>r.
     let old = mr_old r s; new = mr_new r s @ [(next_id r s, fs)];
         k = length old + length new - maxlen
     in (Inr (), r\<lparr>mr_old := (mr_old r)(s := drop k old),
                    mr_new := (mr_new r)(s := drop (k - length old) new)\<rparr>))"

fun mem_deliver :: "string \<Rightarrow> nat \<Rightarrow> string list \<Rightarrow> mem_redis \<Rightarrow> (string \<times> message list) list \<times> mem_redis" where
  "mem_deliver c n [] r = ([], r)"
| "mem_deliver c n (s # ss) r =
     (let (res, r1) = mem_deliver c n ss r; ms = take n (mr_new r1 s)
      in if ms = [] then (res, r1)
         else ((s, ms) # res,
               r1\<lparr>mr_old := (mr_old r1)(s := mr_old r1 s @ ms),
                  mr_new := (mr_new r1)(s := drop n (mr_new r1 s)),
                  mr_pel := (mr_pel r1)(s := mr_pel r1 s @ map (\<lambda>m. (m, c)) ms)\<rparr>))"

definition mem_xreadgroup ::
  "string \<Rightarrow> string \<Rightarrow> string list \<Rightarrow> nat \<Rightarrow> ((string \<times> message list) list, mem_redis) rcall" where
  "mem_xreadgroup g c ss n = mem_guard (\<lambda>r.
     let (res, r') = mem_deliver c n (remdups ss) r in (Inr res, r'))"

definition mem_xautoclaim :: "string \<Rightarrow> string \<Rightarrow> string \<Rightarrow> int \<Rightarrow> nat \<Rightarrow> (message list, mem_redis) rcall" where
  "mem_xautoclaim s g c idle n = mem_guard (\<lambda>r.
     (Inr (take n (mem_pend r s)),
      r\<lparr>mr_pel := (mr_pel r)(s := map (\<lambda>p. (fst p, c)) (take n (mr_pel r s)) @ drop n (mr_pel r s))\<rparr>))"

definition mem_xack :: "string \<Rightarrow> string \<Rightarrow> msgid \<Rightarrow> (unit, mem_redis) rcall" where
  "mem_xack s g i = mem_guard (\<lambda>r.
     (Inr (), r\<lparr>mr_pel := (mr_pel r)(s := filter (\<lambda>p. fst (fst p) \<noteq> i) (mr_pel r s))\<rparr>))"

definition mem_zadd :: "string \<Rightarrow> string \<Rightarrow> rat \<Rightarrow> (unit, mem_redis) rcall" where
  "mem_zadd k m sc = mem_guard (\<lambda>r.
     (Inr (), r\<lparr>mr_zset := (mr_zset r)(k := (m, sc) # filter (\<lambda>p. fst p \<noteq> m) (mr_zset r k))\<rparr>))"

definition mem_zrem :: "string \<Rightarrow> string \<Rightarrow> (int, mem_redis) rcall" where
  "mem_zrem k m = mem_guard (\<lambda>r.
     (Inr (if mem_zs r k m = None then 0 else 1),
      r\<lparr>mr_zset := (mr_zset r)(k := filter (\<lambda>p. fst p \<noteq> m) (mr_zset r k))\<rparr>))"

definition mem_members :: "(string \<times> rat) list \<Rightarrow> rat \<Rightarrow> rat \<Rightarrow> string list" where
  "mem_members z lo hi = sort_key (\<lambda>m. the (map_of z m))
     (filter (\<lambda>m. lo \<le> the (map_of z m) \<and> the (map_of z m) \<le> hi) (remdups (map fst z)))"

definition mem_zrangebyscore :: "string \<Rightarrow> rat \<Rightarrow> rat \<Rightarrow> (string list, mem_redis) rcall" where
  "mem_zrangebyscore k lo hi = mem_guard (\<lambda>r. (Inr (mem_members (mr_zset r k) lo hi), r))"

definition mem_zremrangebyscore :: "string \<Rightarrow> rat \<Rightarrow> rat \<Rightarrow> (int, mem_redis) rcall" where
  "mem_zremrangebyscore k lo hi = mem_guard (\<lambda>r.
     let ms = mem_members (mr_zset r k) lo hi in
     (Inr (int (length ms)),
      r\<lparr>mr_zset := (mr_zset r)(k := filter (\<lambda>p. fst p \<notin> set ms) (mr_zset r k))\<rparr>))"

definition mem_api :: "mem_redis redis_api" where
  "mem_api = \<lparr>rd_xgroup_create = mem_xgroup_create, rd_xadd = mem_xadd,
     rd_xreadgroup = mem_xreadgroup, rd_xautoclaim = mem_xautoclaim, rd_xack = mem_xack,
     rd_xlen = (\<lambda>s. mem_guard (\<lambda>r. (Inr (int (mem_slen r s)), r))),
     rd_xpending = (\<lambda>s g. mem_guard (\<lambda>r. (Inr (int (length (mr_pel r s))), r))),
     rd_zadd = mem_zadd, rd_zrem = mem_zrem, rd_zrangebyscore = mem_zrangebyscore,
     rd_zremrangebyscore = mem_zremrangebyscore,
     rd_zcard = (\<lambda>k. mem_guard (\<lambda>r. (Inr (int (length (remdups (map fst (mr_zset r k))))), r))),
     rd_expire = (\<lambda>k n. mem_guard (\<lambda>r. (Inr (), r))),
     rd_ping = mem_guard (\<lambda>r. (Inr (), r))\<rparr>"

lemmas mem_defs = mem_api_def mem_guard_def mem_xgroup_create_def mem_xadd_def mem_xreadgroup_def
  mem_xautoclaim_def mem_xack_def mem_zadd_def mem_zrem_def mem_zrangebyscore_def
  mem_zremrangebyscore_def mem_zs_def mem_pend_def mem_slen_def

lemma next_id_fresh:
  "next_id r s \<notin> fst ` set (mr_new r s) \<union> fst ` set (mem_pend r s)"
proof -
  have "i \<le> sum_list (map fst (mr_old r s @ mr_new r s @ mem_pend r s))"
    if "i \<in> fst ` set (mr_new r s) \<union> fst ` set (mem_pend r s)" for i
    using that by (intro member_le_sum_list) auto
  then show ?thesis unfolding next_id_def by fastforce
qed

lemma map_of_filter_neq: "map_of (filter (\<lambda>p. fst p \<noteq> m) z) = (map_of z)(m := None)"
  by (induction z) (auto simp: fun_eq_iff)

lemma mem_members_props:
  "distinct (mem_members z lo hi)"
  "set (mem_members z lo hi) = {m. \<exists>sc. map_of z m = Some sc \<and> lo \<le> sc \<and> sc \<le> hi}"
proof -
  show "distinct (mem_members z lo hi)" by (simp add: mem_members_def)
  have "m \<in> fst ` set z \<longleftrightarrow> (\<exists>sc. map_of z m = Some sc)" for m
    using map_of_eq_None_iff [of z m] by (auto simp del: map_of_eq_None_iff)
  then show "set (mem_members z lo hi) = {m. \<exists>sc. map_of z m = Some sc \<and> lo \<le> sc \<and> sc \<le> hi}"
    by (auto simp: mem_members_def)
qed

lemma mem_deliver_slen: "mem_deliver c n ss r = (res, r') \<Longrightarrow> mem_slen r' s = mem_slen r s"
  by (induction ss arbitrary: res r')
    (auto simp: Let_def mem_slen_def min_def split: prod.splits if_splits)

lemma mem_deliver_frame:
  "mem_deliver c n ss r = (res, r') \<Longrightarrow> mr_zset r' = mr_zset r \<and> mr_up r' = mr_up r"
  by (induction ss arbitrary: res r') (auto simp: Let_def split: prod.splits if_splits)

lemma mem_deliver_other:
  "mem_deliver c n ss r = (res, r') \<Longrightarrow> s \<notin> fst ` set res \<Longrightarrow>
    mr_new r' s = mr_new r s \<and> mr_pel r' s = mr_pel r s"
  by (induction ss arbitrary: res r') (auto simp: Let_def split: prod.splits if_splits)

lemma mem_deliver_streams: "mem_deliver c n ss r = (res, r') \<Longrightarrow> fst ` set res \<subseteq> set ss"
  by (induction ss arbitrary: res r') (fastforce simp: Let_def split: prod.splits if_splits)+

lemma mem_deliver_new:
  assumes "mem_deliver c n ss r = (res, r')" and "distinct ss" and "(s, ms) \<in> set res"
  shows "mr_new r s = ms @ mr_new r' s \<and> mem_pend r' s = mem_pend r s @ ms"
  using assms
proof (induction ss arbitrary: res r')
  case Nil
  then show ?case by simp
next
  case (Cons t ts)
  obtain res1 r1 where d: "mem_deliver c n ts r = (res1, r1)" by force
  from mem_deliver_streams [OF d] Cons.prems(2) have t: "t \<notin> fst ` set res1" by auto
  have unchanged: "mr_new r1 t = mr_new r t" "mr_pel r1 t = mr_pel r t"
    using mem_deliver_other [OF d t] by auto
  show ?case
  proof (cases "s = t")
    case True
    then have "(s, ms) \<notin> set res1" using t by force
    with Cons.prems d True unchanged show ?thesis
      by (auto simp: Let_def mem_pend_def comp_def split: if_splits)
  next
    case False
    then have "(s, ms) \<in> set res1" "mr_new r' s = mr_new r1 s" "mem_pend r' s = mem_pend r1 s"
      using Cons.prems d by (auto simp: Let_def mem_pend_def split: if_splits)
    with Cons.IH [OF d] Cons.prems(2) show ?thesis by simp
  qed
qed

text \<open>The in-memory server behaves as documented.\<close>

interpretation mem: redis_service mem_api mr_up mem_zs mr_new mem_pend mem_slen
proof (unfold_locales, goal_cases)
  case (5 s fs n r r')
  then show ?case using next_id_fresh [of r s]
    by (auto simp: mem_defs Let_def split: if_splits)
next
  case (14 k lo hi r ms r')
  then show ?case using mem_members_props [of "mr_zset r k" lo hi]
    by (auto simp: mem_defs split: if_splits)
next
  case (19 c ss n r res r' s ms)
  then obtain r1 where "mem_deliver c n (remdups ss) r = (res, r')"
    by (auto simp: mem_api_def mem_xreadgroup_def mem_guard_def split: if_splits prod.splits)
  with 19 mem_deliver_new [of c n "remdups ss" r res r' s ms] mem_deliver_streams show ?case
    by fastforce
next
  case (20 c ss n r res r')
  then show ?case 
      using mem_deliver_frame [of c n "remdups ss" r res r'] mem_deliver_slen [of c n "remdups ss" r res r']
    by (auto simp: fun_eq_iff mem_api_def mem_guard_def mem_xreadgroup_def mem_zs_def split: if_splits prod.splits)
next
  case (21 c ss n r res r' s)
  then show ?case using mem_deliver_other [of c n "remdups ss" r res r' s]
    by (auto simp: mem_defs split: if_splits prod.splits)
next
  case (23 r c ss n)
  then show ?case using mem_deliver_frame [of c n "remdups ss" r]
    by (auto simp: mem_defs split: prod.splits)
next
  case (22 s c idle n r ms r')
  have "map fst (take n ps) @ map fst (drop n ps) = map fst ps" for ps :: "(message \<times> string) list"
    by (simp flip: map_append)
  with 22 show ?case
    by (auto simp: mem_defs fun_eq_iff comp_def dest: in_set_takeD split: if_splits)
qed (auto simp: mem_defs map_of_filter_neq fun_eq_iff Let_def filter_map comp_def
    dest: in_set_takeD split: if_splits prod.splits)

end
