(* ===== verification/EventBackends.thy ===== *)
theory EventBackends
  imports RedisStreams Models Config
begin

text \<open>
  \<^verbatim>\<open>api/app/core/event_backends.py\<close>: routing of an accepted event to Redis Streams or to
  the ForgeLog service. ForgeLog is reached over HTTP with httpx; the client is a parameter, the
  record \<open>http_api\<close> over a state of the remote side, returning a status code and the body
  (\<^term>\<open>None\<close> when it is not JSON) or raising. Timestamps are rendered as Python's
  \<^verbatim>\<open>isoformat\<close> does.
\<close>

type_synonym http_reply = "int \<times> json option"

record 'h http_api =
  h_post :: "string \<Rightarrow> json \<Rightarrow> 'h \<Rightarrow> (exn + http_reply) \<times> 'h"
  h_get :: "string \<Rightarrow> 'h \<Rightarrow> (exn + http_reply) \<times> 'h"

record ('r, 'h) services =
  sv_redis :: 'r
  sv_http :: 'h

section \<open>Timestamps\<close>

definition civil_from_days :: "int \<Rightarrow> int \<times> int \<times> int" where
  "civil_from_days days =
     (let z = days + 719468;
          era = z div 146097;
          doe = z - era * 146097;
          yoe = (doe - doe div 1460 + doe div 36524 - doe div 146096) div 365;
          doy = doe - (365 * yoe + yoe div 4 - yoe div 100);
          mp = (5 * doy + 2) div 153;
          d = doy - (153 * mp + 2) div 5 + 1;
          m = (if mp < 10 then mp + 3 else mp - 9);
          y = yoe + era * 400 + (if m \<le> 2 then 1 else 0)
      in (y, m, d))"

definition pad :: "nat \<Rightarrow> int \<Rightarrow> string" where
  "pad w n = (let s = show_int n in replicate (w - length s) (CHR ''0'') @ s)"

definition iso_offset :: "int \<Rightarrow> string" where
  "iso_offset off =
     (let mins = \<bar>off\<bar> div 60000000
      in (if off < 0 then ''-'' else ''+'') @ pad 2 (mins div 60) @ '':'' @ pad 2 (mins mod 60))"

definition isoformat :: "int \<Rightarrow> int \<Rightarrow> string" where
  "isoformat off wall =
     (let us = wall mod 1000000; secs = wall div 1000000; days = secs div 86400; sod = secs mod 86400;
          (y, m, d) = civil_from_days days
      in pad 4 y @ ''-'' @ pad 2 m @ ''-'' @ pad 2 d @ ''T'' @ pad 2 (sod div 3600) @ '':''
         @ pad 2 (sod div 60 mod 60) @ '':'' @ pad 2 (sod mod 60)
         @ (if us = 0 then '''' else ''.'' @ pad 6 us) @ iso_offset off)"

definition timestamp :: "py_datetime option \<Rightarrow> string option" where
  "timestamp iso_value = (case iso_value of
      None \<Rightarrow> None
    | Some (Naive wall) \<Rightarrow> Some (isoformat 0 wall)
    | Some (Aware off wall) \<Rightarrow> Some (isoformat off wall))"

definition opt_str :: "string option \<Rightarrow> json" where
  "opt_str s = (case s of None \<Rightarrow> JNull | Some v \<Rightarrow> JStr v)"

section \<open>Routing\<close>

definition forgelog_payload :: "event \<Rightarrow> event_create \<Rightarrow> json" where
  "forgelog_payload event payload = JObj [
     (''event_id'', JStr (ev_id event)),
     (''application_name'', JStr (ec_application_name payload)),
     (''workflow_id'', JStr (ev_workflow_id event)),
     (''event_type'', JStr (ev_event_type event)),
     (''service_name'', JStr (ev_service_name event)),
     (''idempotency_key'', JStr (ev_idempotency_key event)),
     (''status'', JStr (ev_status event)),
     (''payload'', JObj (ev_payload_json event)),
     (''metadata'', JObj (ev_metadata_json event)),
     (''attempt_count'', JInt (ev_attempt_count event)),
     (''max_attempts'', JInt (ev_max_attempts event)),
     (''created_at'', opt_str (timestamp (Some (Aware 0 (ev_created_at event))))),
     (''updated_at'', opt_str (timestamp (Some (Aware 0 (ev_updated_at event))))),
     (''source'', JStr ''converge-api''),
     (''backend'', JStr ''forgelog'')]"

text \<open>\<^verbatim>\<open>raise_for_status()\<close> then \<^verbatim>\<open>json()\<close>\<close>

definition checked_json :: "http_reply \<Rightarrow> exn + json" where
  "checked_json reply = (case reply of (code, body) \<Rightarrow>
     if code < 200 \<or> 299 < code then Inl (HttpError (''HTTP status '' @ show_int code))
     else (case body of None \<Rightarrow> Inl (ValueError ''response is not JSON'') | Some j \<Rightarrow> Inr j))"

definition append_event_to_backend ::
  "'r redis_api \<Rightarrow> 'h http_api \<Rightarrow> settings \<Rightarrow> event \<Rightarrow> event_create \<Rightarrow> ('r, 'h) services
    \<Rightarrow> (exn + json) \<times> ('r, 'h) services" where
  "append_event_to_backend R H S event payload sv =
     (if normalized_event_backend S = ''forgelog'' then
        (let url = rstrip_char (CHR ''/'') (forgelog_url S)
         in case h_post H (url @ ''/append'') (forgelog_payload event payload) (sv_http sv) of
              (Inl x, h) \<Rightarrow> (Inl x, sv\<lparr>sv_http := h\<rparr>)
            | (Inr reply, h) \<Rightarrow> (checked_json reply, sv\<lparr>sv_http := h\<rparr>))
      else
        (case publish_incoming R (ev_id event) (sv_redis sv) of
           (Inl x, r) \<Rightarrow> (Inl x, sv\<lparr>sv_redis := r\<rparr>)
         | (Inr _, r) \<Rightarrow>
             (Inr (JObj [(''backend'', JStr ''redis''), (''stream'', JStr STREAM_INCOMING),
                (''event_id'', JStr (ev_id event))]), sv\<lparr>sv_redis := r\<rparr>)))"

definition forgelog_get :: "'h http_api \<Rightarrow> settings \<Rightarrow> string \<Rightarrow> 'h \<Rightarrow> json \<times> 'h" where
  "forgelog_get H S path h =
     (let url = rstrip_char (CHR ''/'') (forgelog_url S);
          (reply, h') = h_get H (url @ path) h;
          down = (\<lambda>exc. JObj [(''status'', JStr ''down''), (''backend'', JStr ''forgelog''),
                    (''error'', JStr (exn_str exc))])
      in (case reply of
            Inl x \<Rightarrow> down x
          | Inr rep \<Rightarrow> (case checked_json rep of Inl x \<Rightarrow> down x | Inr j \<Rightarrow> j), h'))"

definition backend_health :: "'h http_api \<Rightarrow> settings \<Rightarrow> 'h \<Rightarrow> json \<times> 'h" where
  "backend_health H S h =
     (if normalized_event_backend S = ''forgelog'' then forgelog_get H S ''/health'' h
      else (JObj [(''status'', JStr ''ok''), (''backend'', JStr ''redis'')], h))"

definition backend_stats :: "'h http_api \<Rightarrow> settings \<Rightarrow> 'h \<Rightarrow> json \<times> 'h" where
  "backend_stats H S h =
     (if normalized_event_backend S = ''forgelog'' then forgelog_get H S ''/stats'' h
      else (JObj [(''status'', JStr ''ok''), (''backend'', JStr ''redis''), (''stream'', JStr STREAM_INCOMING)], h))"

lemma append_redis:
  "normalized_event_backend S \<noteq> ''forgelog'' \<Longrightarrow>
    sv_redis (snd (append_event_to_backend R H S ev p sv)) = snd (publish_incoming R (ev_id ev) (sv_redis sv))
    \<and> sv_http (snd (append_event_to_backend R H S ev p sv)) = sv_http sv"
  by (auto simp: append_event_to_backend_def split: prod.splits sum.splits)

lemma append_forgelog:
  "normalized_event_backend S = ''forgelog'' \<Longrightarrow>
    sv_redis (snd (append_event_to_backend R H S ev p sv)) = sv_redis sv"
  by (auto simp: append_event_to_backend_def Let_def split: prod.splits sum.splits)

text \<open>Calendar rendering agrees with known dates, leap day and year end included.\<close>

lemma isoformat_epoch: "isoformat 0 0 = ''1970-01-01T00:00:00+00:00''"
  by code_simp

lemma civil_leap_day: "civil_from_days 19782 = (2024, 2, 29)"
  by code_simp

lemma civil_year_end: "civil_from_days 10956 = (1999, 12, 31) \<and> civil_from_days 10957 = (2000, 1, 1)"
  by code_simp

end
