(* ===== verification/Events.thy ===== *)
theory Events
  imports Idempotency EventBackends
begin

text \<open>
  \<^verbatim>\<open>api/app/api/events.py\<close>: the ingestion endpoint and the event queries. The state of a
  request is the database and the two services; \<open>t\<close> is the time the ORM writes into
  \<^verbatim>\<open>updated_at\<close> when the row is flushed (\<^verbatim>\<open>onupdate=_now\<close>), which happens only when a
  column really changed.
\<close>

record event_out =
  eo_event :: event
  eo_duplicate :: bool
  eo_attempts :: "event_attempt list"

definition event_model_validate :: "db \<Rightarrow> event \<Rightarrow> event_out" where
  "event_model_validate d e =
     \<lparr>eo_event = e, eo_duplicate = False,
      eo_attempts = filter (\<lambda>a. at_event_id a = ev_id e) (event_attempts d)\<rparr>"

definition write_status :: "string \<Rightarrow> time \<Rightarrow> event \<Rightarrow> event" where
  "write_status s t e = (if ev_status e = s then e else e\<lparr>ev_status := s, ev_updated_at := t\<rparr>)"

definition ingest_event ::
  "'r redis_api \<Rightarrow> 'h http_api \<Rightarrow> settings \<Rightarrow> submission_env \<Rightarrow> time \<Rightarrow> event_create
    \<Rightarrow> db \<Rightarrow> ('r, 'h) services \<Rightarrow> (exn + event_out) \<times> db \<times> ('r, 'h) services" where
  "ingest_event R H S E t payload d sv =
     (case get_or_create_event E payload d of
        (Inl x, d1) \<Rightarrow> (Inl x, d1, sv)
      | (Inr (event, duplicate), d1) \<Rightarrow>
          (let should_publish = (if duplicate \<and> ev_status event \<in> {''received'', ''queued'', ''retrying''}
                                 then True else \<not> duplicate);
               queued = write_status ''queued'' t event;
               d2 = update_event (ev_id event) (write_status ''queued'' t) d1
           in if should_publish then
                (let sv' = snd (append_event_to_backend R H S queued payload sv)
                 in (Inr ((event_model_validate d2 queued)\<lparr>eo_duplicate := duplicate\<rparr>), d2, sv'))
              else if ev_status event = ''received'' then
                (Inr ((event_model_validate d2 queued)\<lparr>eo_duplicate := duplicate\<rparr>), d2, sv)
              else
                (Inr ((event_model_validate d1 event)\<lparr>eo_duplicate := duplicate\<rparr>), d1, sv)))"

definition recent_events :: "int \<Rightarrow> db \<Rightarrow> exn + dict list" where
  "recent_events limit d =
     (if 100 < limit then Inl (HTTPException 422 ''validation_error'')
      else and_then (sql_page limit 0 (sort_key (\<lambda>e. - ev_updated_at e) (events d))) (\<lambda>rows. Inr (map (\<lambda>r. [
      (''id'', JStr (ev_id r)), (''workflow_id'', JStr (ev_workflow_id r)),
      (''event_type'', JStr (ev_event_type r)), (''service_name'', JStr (ev_service_name r)),
      (''status'', JStr (ev_status r)), (''attempt_count'', JInt (ev_attempt_count r)),
      (''last_error'', opt_str (ev_last_error r)),
      (''updated_at'', JStr (isoformat 0 (ev_updated_at r)))]) rows)))"

definition get_event_endpoint :: "uuid \<Rightarrow> db \<Rightarrow> exn + event_out" where
  "get_event_endpoint event_id d =
     (case scalar_one_or_none (\<lambda>e. ev_id e = event_id) (events d) of
        Inl x \<Rightarrow> Inl x
      | Inr None \<Rightarrow> Inl (HTTPException 404 ''event not found'')
      | Inr (Some e) \<Rightarrow> Inr (event_model_validate d e))"

section \<open>Lemmas\<close>

lemma keeps_write_status [simp]: "keeps_event_keys (write_status s t)"
  by (simp add: keeps_event_keys_def write_status_def)

lemma write_status_fields [simp]:
  "ev_status (write_status s t e) = s" "ev_id (write_status s t e) = ev_id e"
  "ev_attempt_count (write_status s t e) = ev_attempt_count e"
  by (simp_all add: write_status_def)

text \<open>Whether the handler publishes: for a new event, and for a duplicate that is still waiting.\<close>

definition publishes :: "event \<Rightarrow> bool \<Rightarrow> bool" where
  "publishes e dup \<longleftrightarrow> \<not> dup \<or> ev_status e \<in> {''received'', ''queued'', ''retrying''}"

lemma ingest_event_cases:
  assumes "get_or_create_event E p d = (Inr (e, dup), d1)"
  shows "ingest_event R H S E t p d sv =
    (if publishes e dup then
       (Inr ((event_model_validate (update_event (ev_id e) (write_status ''queued'' t) d1)
               (write_status ''queued'' t e))\<lparr>eo_duplicate := dup\<rparr>),
        update_event (ev_id e) (write_status ''queued'' t) d1,
        snd (append_event_to_backend R H S (write_status ''queued'' t e) p sv))
     else (Inr ((event_model_validate d1 e)\<lparr>eo_duplicate := dup\<rparr>), d1, sv))"
  using assms by (auto simp: ingest_event_def publishes_def Let_def)

lemma in_update_status:
  assumes "schema_ok d" and "e \<in> set (events d)"
  shows "write_status s t e \<in> set (events (update_event (ev_id e) (write_status s t) d))"
  using assms(2) by (auto simp: in_update_event)

lemma designates_update:
  "designates p e d \<Longrightarrow> designates p (write_status s t e) (update_event (ev_id e) (write_status s t) d)"
  unfolding designates_def
  by (auto simp: in_update_event write_status_def)

lemma append_publishes:
  assumes "redis_service R up zs fresh pend slen" and "up (sv_redis sv)"
    and "slen (sv_redis sv) STREAM_INCOMING < 100000" and "normalized_event_backend S = ''redis''"
  shows "\<exists>i. fresh (sv_redis (snd (append_event_to_backend R H S e p sv))) STREAM_INCOMING
    = fresh (sv_redis sv) STREAM_INCOMING @ [(i, [(''event_id'', ev_id e)])]"
proof -
  from redis_service.xadd_up [OF assms(1,2)]
  obtain r' where r': "publish_incoming R (ev_id e) (sv_redis sv) = (Inr (), r')"
    unfolding publish_incoming_def by blast
  then have "\<exists>i. fresh r' STREAM_INCOMING = fresh (sv_redis sv) STREAM_INCOMING @ [(i, [(''event_id'', ev_id e)])]"
    using redis_service.published_fresh [OF assms(1) _ assms(3)] unfolding publish_incoming_def by blast
  with append_redis [of S R H e p sv] assms(4) r' show ?thesis by simp
qed

section \<open>Properties\<close>

text \<open>C15. The ingestion endpoint never fails on a payload that fits the columns, whatever the stream
  backend does: the submitted event is in the committed table when it answers, the answer
  carries that row, a row that was published is \<^verbatim>\<open>queued\<close>, and the schema holds.\<close>

theorem ingest_persists_event:
  assumes "schema_ok d" and "benign (env_app E)" and "benign (env_ev E)" and "fresh_ids E p d" and "payload_fits p"
  shows "\<exists>out d' sv'. ingest_event R H S E t p d sv = (Inr out, d', sv') \<and> schema_ok d' \<and> grows d d'
    \<and> designates p (eo_event out) d'
    \<and> (\<not> eo_duplicate out \<longrightarrow> ev_status (eo_event out) = ''queued'')"
proof -
  obtain e dup d1 where g: "get_or_create_event E p d = (Inr (e, dup), d1)"
    and ok: "schema_ok d1" and gr: "grows d d1" and des: "designates p e d1"
    using get_or_create_event_ok [OF assms] by metis
  let ?d2 = "update_event (ev_id e) (write_status ''queued'' t) d1"
  have "schema_ok ?d2" "grows d ?d2"
    using update_event_ok [OF ok] grows_trans [OF gr grows_update_event] by simp_all
  with ok gr des designates_update [OF des, of "''queued''" t] show ?thesis
    by (simp add: ingest_event_cases [OF g] event_model_validate_def publishes_def)
qed

text \<open>C16. With the Redis backend, an accepted submission puts exactly one entry for its event on
  the incoming stream if the event is new or still waiting (received, queued or retrying), and
  leaves the stream alone if it is a duplicate that is processing or finished.\<close>

theorem ingest_publishes_once:
  assumes "redis_service R up zs fresh pend slen" and "up (sv_redis sv)"
    and "slen (sv_redis sv) STREAM_INCOMING < 100000" and "normalized_event_backend S = ''redis''"
    and "get_or_create_event E p d = (Inr (e, dup), d1)"
    and "ingest_event R H S E t p d sv = (res, d', sv')"
  shows "if \<not> dup \<or> ev_status e \<in> {''received'', ''queued'', ''retrying''}
    then \<exists>i. fresh (sv_redis sv') STREAM_INCOMING
      = fresh (sv_redis sv) STREAM_INCOMING @ [(i, [(''event_id'', ev_id e)])]
    else sv' = sv \<and> d' = d1"
  using assms(6) ingest_event_cases [OF assms(5), of R H S t sv] append_publishes [OF assms(1-4), of H "write_status ''queued'' t e" p]
  by (auto simp: publishes_def split: if_splits)

section \<open>Witnesses\<close>

definition ex_settings :: settings where
  "ex_settings = default_settings None ''host''"

definition no_http :: "unit http_api" where
  "no_http = \<lparr>h_post = (\<lambda>_ _ h. (Inl (HttpError ''unreachable''), h)),
     h_get = (\<lambda>_ h. (Inl (HttpError ''unreachable''), h))\<rparr>"

definition ex_sv :: "(mem_redis, unit) services" where
  "ex_sv = \<lparr>sv_redis = mem_init, sv_http = ()\<rparr>"

theorem ingest_persists_event_witness:
  "\<exists>out d' sv'. ingest_event mem_api no_http ex_settings (ex_env (\<lambda>d. d) ''e1'') 5 ex_payload ex_db
      (ex_sv\<lparr>sv_redis := mem_init\<lparr>mr_up := False\<rparr>\<rparr>) = (Inr out, d', sv') \<and> schema_ok d' \<and> grows ex_db d'
    \<and> designates ex_payload (eo_event out) d'
    \<and> (\<not> eo_duplicate out \<longrightarrow> ev_status (eo_event out) = ''queued'')"
  by (rule ingest_persists_event [OF ex_db_ok])
    (simp_all add: ex_payload_fits, simp_all add: ex_env_def fresh_ids_def ex_db_def ex_app_def empty_db_def)

lemma ex_first_submission:
  "get_or_create_event (ex_env (\<lambda>d. d) ''e1'') ex_payload ex_db
    = (Inr (ex_rival, False), rival_insert ex_rival ex_db)"
  by (simp add: get_or_create_event_def get_or_create_application_def ex_defs rival_insert_def
      insert_event_def new_event_def fits_eval scalar_one_or_none_def visible_def Let_def)

lemma ex_redis_backend: "normalized_event_backend ex_settings = ''redis''"
  by code_simp

theorem ingest_publishes_once_witness:
  "\<exists>i. mr_new (sv_redis (snd (snd (ingest_event mem_api no_http ex_settings (ex_env (\<lambda>d. d) ''e1'') 5
      ex_payload ex_db ex_sv)))) STREAM_INCOMING = [(i, [(''event_id'', ''e1'')])]"
proof -
  obtain res d' sv' where i: "ingest_event mem_api no_http ex_settings (ex_env (\<lambda>d. d) ''e1'') 5
      ex_payload ex_db ex_sv = (res, d', sv')"
    by (metis surj_pair)
  have "mr_up (sv_redis ex_sv)" "mem_slen (sv_redis ex_sv) STREAM_INCOMING < 100000"
    by (simp_all add: ex_sv_def mem_init_def mem_slen_def)
  from ingest_publishes_once [OF mem.redis_service_axioms this ex_redis_backend ex_first_submission i] i
  show ?thesis by (simp add: ex_sv_def mem_init_def ex_rival_def new_event_def ex_env_def)
qed

end
