(* ===== verification/Replay.thy ===== *)
theory Replay
  imports Events
begin

text \<open>
  \<^verbatim>\<open>api/app/core/replay.py\<close> and \<^verbatim>\<open>api/app/api/deadletters.py\<close>: putting a dead-lettered
  event back on the incoming stream, and the dead-letter listing. The two commits of the replay
  are visible in the model: the requeue, and, when publishing raises, the
  \<^verbatim>\<open>publish_failed\<close> mark. The three clock readings and the fresh attempt id are arguments.
\<close>

definition replay_attempt :: "uuid \<Rightarrow> time \<Rightarrow> dead_letter \<Rightarrow> event \<Rightarrow> event_attempt" where
  "replay_attempt aid t dl event = \<lparr>
     at_id = aid, at_event_id = ev_id event, at_attempt_number = ev_attempt_count event + 1,
     at_worker_id = None, at_worker_name = None, at_status = ''pending'', at_error_message = None,
     at_metadata_json = [(''replay_of_dead_letter_id'', JStr (dl_id dl))],
     at_started_at = t, at_finished_at = None, at_duration_ms = None\<rparr>"

definition requeue :: "time \<Rightarrow> event \<Rightarrow> event" where
  "requeue t e = e\<lparr>ev_status := ''queued'', ev_next_retry_at := None, ev_updated_at := t\<rparr>"

definition replay_dead_letter ::
  "'r redis_api \<Rightarrow> uuid \<Rightarrow> time \<times> time \<times> time \<Rightarrow> uuid \<Rightarrow> db \<Rightarrow> 'r \<Rightarrow> (exn + event) \<times> db \<times> 'r" where
  "replay_dead_letter R aid ts dead_letter_id d r =
     (case ts of (t_attempt, t_event, t_replayed) \<Rightarrow>
      case get_dead_letter dead_letter_id d of
        None \<Rightarrow> (Inl (HTTPException 404 ''dead letter not found''), d, r)
      | Some dl \<Rightarrow>
          if dl_replayed_at dl \<noteq> None then (Inl (HTTPException 409 ''already replayed''), d, r)
          else (case get_event (dl_event_id dl) d of
             None \<Rightarrow> (Inl (HTTPException 404 ''original event not found''), d, r)
           | Some event \<Rightarrow>
               (case insert_attempt (replay_attempt aid t_attempt dl event) d of
                  Inl x \<Rightarrow> (Inl x, d, r)
                | Inr d1 \<Rightarrow>
                    (let d2 = update_event (ev_id event) (requeue t_event) d1;
                         d3 = update_dead_letter (dl_id dl)
                                (\<lambda>l. l\<lparr>dl_replayed_at := Some t_replayed, dl_replay_status := Some ''requeued''\<rparr>) d2
                     in case publish_incoming R (ev_id event) r of
                          (Inr _, r') \<Rightarrow> (Inr (requeue t_event event), d3, r')
                        | (Inl x, r') \<Rightarrow>
                            (Inl x, update_dead_letter (dl_id dl)
                               (\<lambda>l. l\<lparr>dl_replay_status := Some ''publish_failed''\<rparr>) d3, r')))))"

record dead_letter_out =
  do_dead_letter :: dead_letter
  do_workflow_id :: string
  do_event_type :: string
  do_service_name :: string

definition list_deadletters :: "int \<Rightarrow> int \<Rightarrow> db \<Rightarrow> exn + dead_letter_out list" where
  "list_deadletters limit offset d =
     and_then (sql_page limit offset (sort_key (\<lambda>l. - dl_created_at l) (dead_letters d))) (\<lambda>rows. Inr (map (\<lambda>dl. case get_event (dl_event_id dl) d of
            Some e \<Rightarrow> \<lparr>do_dead_letter = dl, do_workflow_id = ev_workflow_id e,
                        do_event_type = ev_event_type e, do_service_name = ev_service_name e\<rparr>
          | None \<Rightarrow> \<lparr>do_dead_letter = dl, do_workflow_id = [], do_event_type = [], do_service_name = []\<rparr>) rows))"

definition replay_deadletter_endpoint ::
  "'r redis_api \<Rightarrow> uuid \<Rightarrow> time \<times> time \<times> time \<Rightarrow> uuid \<Rightarrow> db \<Rightarrow> 'r \<Rightarrow> (exn + event_out) \<times> db \<times> 'r" where
  "replay_deadletter_endpoint R aid ts deadletter_id d r =
     (case replay_dead_letter R aid ts deadletter_id d r of
        (Inl x, d', r') \<Rightarrow> (Inl x, d', r')
      | (Inr event, d', r') \<Rightarrow>
          (case scalar_one (\<lambda>e. ev_id e = ev_id event) (events d') of
             Inl x \<Rightarrow> (Inl x, d', r')
           | Inr e \<Rightarrow> (Inr (event_model_validate d' e), d', r')))"

section \<open>Lemmas\<close>

lemma keeps_requeue [simp]: "keeps_event_keys (requeue t)"
  by (simp add: keeps_event_keys_def requeue_def)

lemma get_dead_letter_update:
  assumes "\<And>l. dl_id (f l) = dl_id l"
  shows "get_dead_letter i (update_dead_letter j f d) =
    (if i = j then map_option f (get_dead_letter i d) else get_dead_letter i d)"
  using assms by (simp add: get_dead_letter_def update_dead_letter_def find_update_where)

lemma get_dead_letter_SomeD: "get_dead_letter i d = Some l \<Longrightarrow> l \<in> set (dead_letters d) \<and> dl_id l = i"
  by (auto simp: get_dead_letter_def find_Some_iff)

lemma get_dead_letter_frame [simp]:
  "get_dead_letter i (update_event j f d) = get_dead_letter i d"
  "insert_attempt a d = Inr d' \<Longrightarrow> get_dead_letter i d' = get_dead_letter i d"
  by (auto simp: get_dead_letter_def insert_attempt_def split: if_splits)

lemma update_dead_letter_frame [simp, record_frame]:
  "applications (update_dead_letter i f d) = applications d"
  "events (update_dead_letter i f d) = events d"
  "event_attempts (update_dead_letter i f d) = event_attempts d"
  "workers (update_dead_letter i f d) = workers d"
  "get_event j (update_dead_letter i f d) = get_event j d"
  by (simp_all add: update_dead_letter_def get_event_def)

text \<open>The states in which a replay goes ahead.\<close>

definition replayable :: "uuid \<Rightarrow> uuid \<Rightarrow> db \<Rightarrow> dead_letter \<Rightarrow> event \<Rightarrow> bool" where
  "replayable aid i d dl e \<longleftrightarrow> get_dead_letter i d = Some dl \<and> dl_replayed_at dl = None
     \<and> get_event (dl_event_id dl) d = Some e \<and> aid \<notin> at_id ` set (event_attempts d)"

text \<open>The database after the first commit of a replay.\<close>

definition requeued_db :: "uuid \<Rightarrow> time \<times> time \<times> time \<Rightarrow> dead_letter \<Rightarrow> event \<Rightarrow> db \<Rightarrow> db" where
  "requeued_db aid ts dl e d = (case ts of (t1, t2, t3) \<Rightarrow>
     update_dead_letter (dl_id dl) (\<lambda>l. l\<lparr>dl_replayed_at := Some t3, dl_replay_status := Some ''requeued''\<rparr>)
       (update_event (ev_id e) (requeue t2)
         (d\<lparr>event_attempts := event_attempts d @ [replay_attempt aid t1 dl e]\<rparr>)))"

lemma replay_attempt_inserts:
  assumes "replayable aid i d dl e"
  shows "insert_attempt (replay_attempt aid t dl e) d =
    Inr (d\<lparr>event_attempts := event_attempts d @ [replay_attempt aid t dl e]\<rparr>)"
proof -
  from assms have "e \<in> set (events d)" by (auto simp: replayable_def dest: get_event_SomeD)
  with assms show ?thesis
    by (simp add: insert_attempt_def replay_attempt_def replayable_def worker_ref_def)
qed

lemma replay_dead_letter_goes:
  assumes "replayable aid i d dl e"
  shows "replay_dead_letter R aid ts i d r =
    (case publish_incoming R (ev_id e) r of
       (Inr _, r') \<Rightarrow> (Inr (requeue (fst (snd ts)) e), requeued_db aid ts dl e d, r')
     | (Inl x, r') \<Rightarrow> (Inl x, update_dead_letter (dl_id dl)
           (\<lambda>l. l\<lparr>dl_replay_status := Some ''publish_failed''\<rparr>) (requeued_db aid ts dl e d), r'))"
  using assms replay_attempt_inserts [OF assms]
  by (cases ts) (simp add: replay_dead_letter_def replayable_def requeued_db_def Let_def
      split: prod.split sum.split)

lemma requeued_db_ok:
  assumes "schema_ok d" and "replayable aid i d dl e"
  shows "schema_ok (requeued_db aid ts dl e d)"
proof (cases ts)
  case (fields t1 t2 t3)
  have "schema_ok (d\<lparr>event_attempts := event_attempts d @ [replay_attempt aid t1 dl e]\<rparr>)"
    using insert_attempt_ok [OF assms(1) replay_attempt_inserts [OF assms(2)]] .
  with fields show ?thesis
    by (auto simp: requeued_db_def intro!: update_dead_letter_ok update_event_ok)
qed

lemma requeued_db_values:
  assumes "replayable aid i d dl e"
  shows "get_event (ev_id e) (requeued_db aid (t1, t2, t3) dl e d) = Some (requeue t2 e)"
    and "get_dead_letter i (requeued_db aid (t1, t2, t3) dl e d)
      = Some (dl\<lparr>dl_replayed_at := Some t3, dl_replay_status := Some ''requeued''\<rparr>)"
    and "event_attempts (requeued_db aid (t1, t2, t3) dl e d)
      = event_attempts d @ [replay_attempt aid t1 dl e]"
proof -
  let ?d = "d\<lparr>event_attempts := event_attempts d @ [replay_attempt aid t1 dl e]\<rparr>"
  have same: "get_event j ?d = get_event j d" "get_dead_letter j ?d = get_dead_letter j d" for j
    by (simp_all add: get_event_def get_dead_letter_def)
  have ids: "ev_id e = dl_event_id dl" "dl_id dl = i"
    using assms by (auto simp: replayable_def dest: get_event_SomeD get_dead_letter_SomeD)
  with assms same show "get_event (ev_id e) (requeued_db aid (t1, t2, t3) dl e d) = Some (requeue t2 e)"
    by (simp add: requeued_db_def get_event_update replayable_def)
  from ids assms same show "get_dead_letter i (requeued_db aid (t1, t2, t3) dl e d)
      = Some (dl\<lparr>dl_replayed_at := Some t3, dl_replay_status := Some ''requeued''\<rparr>)"
    by (simp add: requeued_db_def get_dead_letter_update replayable_def)
  show "event_attempts (requeued_db aid (t1, t2, t3) dl e d)
      = event_attempts d @ [replay_attempt aid t1 dl e]"
    by (simp add: requeued_db_def)
qed

lemma replay_dead_letter_stays:
  assumes "\<nexists>dl e. replayable aid i d dl e"
  shows "\<exists>x. replay_dead_letter R aid ts i d r = (Inl x, d, r)"
proof (cases "get_dead_letter i d")
  case None
  then show ?thesis by (cases ts) (simp add: replay_dead_letter_def)
next
  case (Some dl)
  show ?thesis
  proof (cases "dl_replayed_at dl = None \<and> get_event (dl_event_id dl) d \<noteq> None")
    case False
    with Some show ?thesis by (cases ts) (auto simp: replay_dead_letter_def)
  next
    case True
    then obtain e where e: "get_event (dl_event_id dl) d = Some e" by auto
    with True Some assms have "aid \<in> at_id ` set (event_attempts d)" by (auto simp: replayable_def)
    then have "insert_attempt (replay_attempt aid t dl e) d = Inl IntegrityError" for t
      by (simp add: insert_attempt_def replay_attempt_def)
    with True Some e show ?thesis by (cases ts) (simp add: replay_dead_letter_def)
  qed
qed

section \<open>Properties\<close>

text \<open>C19. Replaying a dead letter that was not replayed yet, with Redis answering, requeues its
  event without touching the attempt count or the idempotency key, records exactly one pending
  attempt that names the dead letter, marks the dead letter, puts exactly one entry on the
  incoming stream, and keeps the schema.\<close>

theorem replay_requeues:
  assumes "redis_service R up zs fresh pend slen" and "up r" and "slen r STREAM_INCOMING < 100000"
    and "schema_ok d" and "replayable aid i d dl e"
  shows "\<exists>d' r'. replay_dead_letter R aid (t1, t2, t3) i d r = (Inr (requeue t2 e), d', r')
    \<and> schema_ok d'
    \<and> get_event (ev_id e) d' = Some (e\<lparr>ev_status := ''queued'', ev_next_retry_at := None, ev_updated_at := t2\<rparr>)
    \<and> get_dead_letter i d' = Some (dl\<lparr>dl_replayed_at := Some t3, dl_replay_status := Some ''requeued''\<rparr>)
    \<and> event_attempts d' = event_attempts d @ [replay_attempt aid t1 dl e]
    \<and> (\<exists>k. fresh r' STREAM_INCOMING = fresh r STREAM_INCOMING @ [(k, [(''event_id'', ev_id e)])])"
proof -
  from redis_service.xadd_up [OF assms(1,2)]
  obtain r' where r': "publish_incoming R (ev_id e) r = (Inr (), r')"
    unfolding publish_incoming_def by blast
  then have "\<exists>k. fresh r' STREAM_INCOMING = fresh r STREAM_INCOMING @ [(k, [(''event_id'', ev_id e)])]"
    using redis_service.published_fresh [OF assms(1) _ assms(3)] unfolding publish_incoming_def by blast
  with r' replay_dead_letter_goes [OF assms(5), of R "(t1, t2, t3)" r]
    requeued_db_ok [OF assms(4,5), of "(t1, t2, t3)"] requeued_db_values [OF assms(5), of t1 t2 t3]
  show ?thesis by (simp add: requeue_def)
qed

text \<open>C20. A dead letter is replayed at most once: after a call that changed the database, every
  later call for it is refused with 409 and changes nothing. This includes the call whose publish
  raised: that dead letter is marked and stays refused although its event is on no stream.\<close>

theorem replay_at_most_once:
  assumes "replay_dead_letter R aid ts i d r = (res, d', r')" and "d' \<noteq> d"
  shows "replay_dead_letter R2 aid2 ts2 i d' r2 = (Inl (HTTPException 409 ''already replayed''), d', r2)"
proof -
  obtain dl e where go: "replayable aid i d dl e"
    using replay_dead_letter_stays [of aid i d R ts r] assms by fastforce
  obtain t1 t2 t3 where ts: "ts = (t1, t2, t3)" by (cases ts)
  have i: "dl_id dl = i" using go by (auto simp: replayable_def dest: get_dead_letter_SomeD)
  obtain dl' where "get_dead_letter i d' = Some dl'" "dl_replayed_at dl' = Some t3"
  proof (cases "publish_incoming R (ev_id e) r")
    case (Pair out r1)
    show thesis
    proof (cases out)
      case (Inr u)
      with Pair assms(1) replay_dead_letter_goes [OF go, of R ts r] requeued_db_values(2) [OF go, of t1 t2 t3] ts that
      show thesis by simp
    next
      case (Inl x)
      with Pair assms(1) replay_dead_letter_goes [OF go, of R ts r]
      have "d' = update_dead_letter (dl_id dl) (\<lambda>l. l\<lparr>dl_replay_status := Some ''publish_failed''\<rparr>)
          (requeued_db aid ts dl e d)"
        by simp
      with requeued_db_values(2) [OF go, of t1 t2 t3] ts i that show thesis
        by (simp add: get_dead_letter_update)
    qed
  qed
  then show ?thesis by (cases ts2) (simp add: replay_dead_letter_def)
qed

text \<open>When publishing raises, the error reaches the caller, and the committed database says so:
  the event is \<^verbatim>\<open>queued\<close> and the dead letter carries \<^verbatim>\<open>publish_failed\<close>.\<close>

theorem replay_publish_failure:
  assumes "replayable aid i d dl e" and "publish_incoming R (ev_id e) r = (Inl x, r')"
  shows "\<exists>d'. replay_dead_letter R aid (t1, t2, t3) i d r = (Inl x, d', r')
    \<and> map_option ev_status (get_event (ev_id e) d') = Some ''queued''
    \<and> get_dead_letter i d' = Some (dl\<lparr>dl_replayed_at := Some t3, dl_replay_status := Some ''publish_failed''\<rparr>)"
  using replay_dead_letter_goes [OF assms(1), of R "(t1, t2, t3)" r] assms(2)
    requeued_db_values(1,2) [OF assms(1), of t1 t2 t3] assms(1)
  by (auto simp: get_dead_letter_update requeue_def replayable_def dest: get_dead_letter_SomeD)

section \<open>Witnesses\<close>

definition ex_dead_event :: event where
  "ex_dead_event = ex_rival\<lparr>ev_status := ''dead_lettered'', ev_attempt_count := 4\<rparr>"

definition ex_dead_letter :: dead_letter where
  "ex_dead_letter = \<lparr>dl_id = ''d1'', dl_event_id = ''e1'', dl_reason = ''max_attempts_exceeded'',
     dl_last_error = Some ''boom'', dl_created_at = 9, dl_replayed_at = None, dl_replay_status = None\<rparr>"

definition ex_dead_db :: db where
  "ex_dead_db = ex_db\<lparr>events := [ex_dead_event], dead_letters := [ex_dead_letter]\<rparr>"

lemmas ex_dead_defs = ex_dead_event_def ex_dead_letter_def ex_dead_db_def ex_defs new_event_def

lemma ex_dead_db_ok: "schema_ok ex_dead_db"
  by (simp add: ex_dead_defs schema_ok_def keys_ok_defs)

lemma ex_replayable: "replayable ''t1'' ''d1'' ex_dead_db ex_dead_letter ex_dead_event"
  by (simp add: replayable_def get_dead_letter_def get_event_def ex_dead_defs)

theorem replay_requeues_witness:
  "\<exists>d' r'. replay_dead_letter mem_api ''t1'' (10, 11, 12) ''d1'' ex_dead_db mem_init
      = (Inr (requeue 11 ex_dead_event), d', r') \<and> schema_ok d'
    \<and> map_option ev_attempt_count (get_event ''e1'' d') = Some 4
    \<and> (\<exists>k. mr_new r' STREAM_INCOMING = [(k, [(''event_id'', ''e1'')])])"
proof -
  have "mr_up mem_init" "mem_slen mem_init STREAM_INCOMING < 100000"
    by (simp_all add: mem_init_def mem_slen_def)
  from replay_requeues [OF mem.redis_service_axioms this ex_dead_db_ok ex_replayable, of 10 11 12]
  show ?thesis by (auto simp: mem_init_def ex_dead_defs)
qed

theorem replay_at_most_once_witness:
  "replay_dead_letter mem_api ''t2'' (20, 21, 22) ''d1'' (requeued_db ''t1'' (10, 11, 12) ex_dead_letter ex_dead_event ex_dead_db) mem_init
    = (Inl (HTTPException 409 ''already replayed''),
       requeued_db ''t1'' (10, 11, 12) ex_dead_letter ex_dead_event ex_dead_db, mem_init)"
proof -
  have "replay_dead_letter mem_api ''t1'' (10, 11, 12) ''d1'' ex_dead_db mem_init
      = (Inr (requeue 11 ex_dead_event), requeued_db ''t1'' (10, 11, 12) ex_dead_letter ex_dead_event ex_dead_db,
         snd (publish_incoming mem_api ''e1'' mem_init))"
    using replay_dead_letter_goes [OF ex_replayable, of mem_api "(10, 11, 12)" mem_init]
    by (auto simp: publish_incoming_def mem_defs mem_init_def ex_dead_event_def ex_rival_def
        new_event_def ex_env_def Let_def)
  moreover have "requeued_db ''t1'' (10, 11, 12) ex_dead_letter ex_dead_event ex_dead_db \<noteq> ex_dead_db"
    using requeued_db_values(3) [OF ex_replayable, of 10 11 12] by (metis append_self_conv not_Cons_self2)
  ultimately show ?thesis by (rule replay_at_most_once)
qed

theorem replay_publish_failure_witness:
  "\<exists>d'. replay_dead_letter mem_api ''t1'' (10, 11, 12) ''d1'' ex_dead_db (mem_init\<lparr>mr_up := False\<rparr>)
      = (Inl (RedisError ''connection refused''), d', mem_init\<lparr>mr_up := False\<rparr>)
    \<and> map_option ev_status (get_event (ev_id ex_dead_event) d') = Some ''queued''
    \<and> get_dead_letter ''d1'' d' = Some (ex_dead_letter\<lparr>dl_replayed_at := Some 12, dl_replay_status := Some ''publish_failed''\<rparr>)"
  by (rule replay_publish_failure [OF ex_replayable])
    (simp add: publish_incoming_def mem_defs mem_init_def)

end
