(* ===== verification/RetryScheduler.thy ===== *)
theory RetryScheduler
  imports RedisStreams
begin

text \<open>
  \<^verbatim>\<open>api/app/workers/retry_scheduler.py\<close>: moving due retries from the sorted set to the
  retry stream. The loop of \<^verbatim>\<open>_flush_due_retries\<close> is \<open>flush_loop\<close>; the scheduler thread is
  one \<open>scheduler_tick\<close> per wake-up, which logs and swallows every exception. Several schedulers
  may run: an id another scheduler removed first is skipped, because \<^verbatim>\<open>zrem\<close> replies 0.
\<close>

fun flush_loop :: "'r redis_api \<Rightarrow> string list \<Rightarrow> nat \<Rightarrow> (nat, 'r) rcall" where
  "flush_loop R [] flushed r = (Inr flushed, r)"
| "flush_loop R (eid # eids) flushed r =
     (case rd_zrem R RETRY_ZSET eid r of
        (Inl x, r1) \<Rightarrow> (Inl x, r1)
      | (Inr removed, r1) \<Rightarrow>
          if removed \<noteq> 0 then
            (case publish_retry_stream R eid r1 of
               (Inl x, r2) \<Rightarrow> (Inl x, r2)
             | (Inr _, r2) \<Rightarrow> flush_loop R eids (flushed + 1) r2)
          else flush_loop R eids flushed r1)"

definition flush_due_retries :: "'r redis_api \<Rightarrow> rat \<Rightarrow> (nat, 'r) rcall" where
  "flush_due_retries R now_ts r =
     (case due_retry_event_ids R now_ts r of
        (Inl x, r1) \<Rightarrow> (Inl x, r1)
      | (Inr event_ids, r1) \<Rightarrow> if event_ids = [] then (Inr 0, r1) else flush_loop R event_ids 0 r1)"

text \<open>One wake-up of the thread, and its run over the wake-ups before \<^verbatim>\<open>stop()\<close>.\<close>

definition scheduler_tick :: "'r redis_api \<Rightarrow> rat \<Rightarrow> 'r \<Rightarrow> 'r" where
  "scheduler_tick R now_ts r = snd (flush_due_retries R now_ts r)"

fun scheduler_run :: "'r redis_api \<Rightarrow> rat list \<Rightarrow> 'r \<Rightarrow> 'r" where
  "scheduler_run R [] r = r"
| "scheduler_run R (t # ts) r = scheduler_run R ts (scheduler_tick R t r)"

abbreviation id_fields :: "uuid \<Rightarrow> fields" where
  "id_fields i \<equiv> [(''event_id'', i)]"

lemma flush_due_eq:
  "flush_due_retries R t r = (case due_retry_event_ids R t r of
     (Inl x, r1) \<Rightarrow> (Inl x, r1) | (Inr ids, r1) \<Rightarrow> flush_loop R ids 0 r1)"
  by (simp add: flush_due_retries_def split: prod.split sum.split)

section \<open>The loop over a Redis that answers\<close>

context redis_service
begin

lemma zrem_present:
  assumes "up r" and "zs r k m \<noteq> None"
  obtains r' where "rd_zrem R k m r = (Inr 1, r')" and "up r'"
    and "zs r' = (zs r)(k := (zs r k)(m := None))" and "fresh r' = fresh r" and "pend r' = pend r"
    and "slen r' = slen r"
  using zrem_up [OF assms(1), of k m] zrem_reply zrem_zs zrem_frame assms(2) that
  by (metis (no_types, lifting))

lemma xadd_appends:
  assumes "up r" and "slen r s < n"
  obtains r' i where "rd_xadd R s fs n r = (Inr (), r')" and "up r'" and "zs r' = zs r"
    and "pend r' = pend r" and "fresh r' = (fresh r)(s := fresh r s @ [(i, fs)])"
    and "slen r' s = Suc (slen r s)"
proof -
  obtain r' where r': "rd_xadd R s fs n r = (Inr (), r')" "up r'" using xadd_up [OF assms(1)] by blast
  from xadd_fresh [OF r'(1) assms(2)] obtain i where i: "fresh r' s = fresh r s @ [(i, fs)]" by blast
  have "fresh r' = (fresh r)(s := fresh r s @ [(i, fs)])"
    using xadd_other [OF r'(1)] i by (auto simp: fun_eq_iff)
  with r' xadd_zs [OF r'(1)] xadd_pend [OF r'(1)] xadd_fresh [OF r'(1) assms(2)] that
  show thesis by blast
qed

lemma flush_loop_moves:
  assumes "up r" and "distinct ids" and "\<forall>m \<in> set ids. zs r RETRY_ZSET m \<noteq> None"
    and "slen r STREAM_RETRY + length ids \<le> 100000"
  shows "\<exists>r'. flush_loop R ids n r = (Inr (n + length ids), r') \<and> up r'
    \<and> map snd (fresh r' STREAM_RETRY) = map snd (fresh r STREAM_RETRY) @ map id_fields ids
    \<and> zs r' = (zs r)(RETRY_ZSET := (\<lambda>m. if m \<in> set ids then None else zs r RETRY_ZSET m))
    \<and> (\<forall>s. s \<noteq> STREAM_RETRY \<longrightarrow> fresh r' s = fresh r s) \<and> pend r' = pend r"
  using assms
proof (induction ids arbitrary: n r)
  case Nil
  then show ?case by simp
next
  case (Cons m ids)
  obtain r1 where r1: "rd_zrem R RETRY_ZSET m r = (Inr 1, r1)" "up r1"
    "zs r1 = (zs r)(RETRY_ZSET := (zs r RETRY_ZSET)(m := None))" "fresh r1 = fresh r"
    "pend r1 = pend r" "slen r1 = slen r"
    by (rule zrem_present [OF Cons.prems(1), of RETRY_ZSET m]) (use Cons.prems(3) in simp)
  have "slen r1 STREAM_RETRY < 100000" using Cons.prems(4) r1 by simp
  with r1(2) obtain r2 i where r2: "rd_xadd R STREAM_RETRY (id_fields m) 100000 r1 = (Inr (), r2)" "up r2"
    "zs r2 = zs r1" "pend r2 = pend r1"
    "fresh r2 = (fresh r1)(STREAM_RETRY := fresh r1 STREAM_RETRY @ [(i, id_fields m)])"
    "slen r2 STREAM_RETRY = Suc (slen r1 STREAM_RETRY)"
    by (rule xadd_appends)
  have d: "distinct ids" using Cons.prems(2) by simp
  have p: "\<forall>k \<in> set ids. zs r2 RETRY_ZSET k \<noteq> None" using Cons.prems(2,3) r1 r2 by auto
  have l: "slen r2 STREAM_RETRY + length ids \<le> 100000" using Cons.prems(4) r1 r2 by simp
  from Cons.IH [OF r2(2) d p l, of "n + 1"] obtain r' where r': "flush_loop R ids (n + 1) r2 = (Inr (n + 1 + length ids), r')" "up r'"
    "map snd (fresh r' STREAM_RETRY) = map snd (fresh r2 STREAM_RETRY) @ map id_fields ids"
    "zs r' = (zs r2)(RETRY_ZSET := (\<lambda>k. if k \<in> set ids then None else zs r2 RETRY_ZSET k))"
    "\<forall>s. s \<noteq> STREAM_RETRY \<longrightarrow> fresh r' s = fresh r2 s" "pend r' = pend r2"
    by blast
  have "flush_loop R (m # ids) n r = (Inr (n + length (m # ids)), r')"
    using r1(1) r2(1) r'(1) by (simp add: publish_retry_stream_def)
  with r' r1 r2 show ?case by (auto simp: fun_eq_iff)
qed

text \<open>An id that is not in the set is never published: another scheduler had it first.\<close>

lemma flush_loop_skips:
  assumes "up r" and "\<forall>m \<in> set ids. zs r RETRY_ZSET m = None"
  shows "\<exists>r'. flush_loop R ids n r = (Inr n, r') \<and> fresh r' = fresh r"
  using assms
proof (induction ids arbitrary: r)
  case Nil
  then show ?case by simp
next
  case (Cons m ids)
  obtain cnt r1 where r1: "rd_zrem R RETRY_ZSET m r = (Inr cnt, r1)" "up r1"
    using zrem_up [OF Cons.prems(1)] by blast
  from zrem_reply [OF r1(1)] Cons.prems(2) have "cnt = 0" by simp
  moreover have "\<forall>k \<in> set ids. zs r1 RETRY_ZSET k = None" "fresh r1 = fresh r"
    using zrem_zs [OF r1(1)] zrem_frame [OF r1(1)] Cons.prems(2) by auto
  ultimately show ?case using Cons.IH [OF r1(2)] r1(1) by simp
qed

text \<open>The whole flush: the reply of the range query is what the loop then moves.\<close>

lemma flush_due_moves:
  assumes "up r" and "finite {m. zs r RETRY_ZSET m \<noteq> None}"
    and "slen r STREAM_RETRY + card {m. zs r RETRY_ZSET m \<noteq> None} \<le> 100000"
  shows "\<exists>ids r'. flush_due_retries R now_ts r = (Inr (length ids), r') \<and> up r' \<and> distinct ids
    \<and> set ids = {m. \<exists>sc. zs r RETRY_ZSET m = Some sc \<and> 0 \<le> sc \<and> sc \<le> now_ts}
    \<and> map snd (fresh r' STREAM_RETRY) = map snd (fresh r STREAM_RETRY) @ map id_fields ids
    \<and> zs r' RETRY_ZSET = (\<lambda>m. if m \<in> set ids then None else zs r RETRY_ZSET m)
    \<and> (\<forall>s. s \<noteq> STREAM_RETRY \<longrightarrow> fresh r' s = fresh r s) \<and> pend r' = pend r"
proof -
  obtain ids r1 where r1: "rd_zrangebyscore R RETRY_ZSET 0 now_ts r = (Inr ids, r1)" "up r1"
    using zrange_up [OF assms(1)] by blast
  have reply: "distinct ids"
      "set ids = {m. \<exists>sc. zs r RETRY_ZSET m = Some sc \<and> 0 \<le> sc \<and> sc \<le> now_ts}"
    and frame: "zs r1 = zs r" "fresh r1 = fresh r" "pend r1 = pend r" "slen r1 = slen r"
    using zrange_reply [OF r1(1)] zrange_frame [OF r1(1)] by blast+
  have sub: "set ids \<subseteq> {m. zs r RETRY_ZSET m \<noteq> None}" using reply by auto
  have "length ids = card (set ids)" using reply(1) by (simp add: distinct_card)
  also have "\<dots> \<le> card {m. zs r RETRY_ZSET m \<noteq> None}" using card_mono [OF assms(2) sub] .
  finally have room: "slen r1 STREAM_RETRY + length ids \<le> 100000" using assms(3) frame by simp
  have present: "\<forall>m \<in> set ids. zs r1 RETRY_ZSET m \<noteq> None" using sub frame by auto
  from flush_loop_moves [OF r1(2) reply(1) present room, of 0] obtain r' where
    r': "flush_loop R ids 0 r1 = (Inr (length ids), r')" "up r'"
      "map snd (fresh r' STREAM_RETRY) = map snd (fresh r STREAM_RETRY) @ map id_fields ids"
      "zs r' = (zs r)(RETRY_ZSET := (\<lambda>m. if m \<in> set ids then None else zs r RETRY_ZSET m))"
      "\<forall>s. s \<noteq> STREAM_RETRY \<longrightarrow> fresh r' s = fresh r s" "pend r' = pend r"
    unfolding frame by auto
  have "flush_due_retries R now_ts r = (Inr (length ids), r')"
    by (simp add: flush_due_eq due_retry_event_ids_def r1(1) r'(1))
  with r' reply show ?thesis by (intro exI [of _ ids] exI [of _ r']) simp
qed

text \<open>A second scheduler that read the same due list finds every id gone.\<close>

lemma flush_loop_race:
  assumes "up r" and "distinct ids" and "\<forall>m \<in> set ids. zs r RETRY_ZSET m \<noteq> None"
    and "slen r STREAM_RETRY + length ids \<le> 100000"
  shows "\<exists>r1 r2. flush_loop R ids 0 r = (Inr (length ids), r1) \<and> flush_loop R ids 0 r1 = (Inr 0, r2)
    \<and> map snd (fresh r2 STREAM_RETRY) = map snd (fresh r STREAM_RETRY) @ map id_fields ids"
proof -
  from flush_loop_moves [OF assms, of 0] obtain r1 where r1:
    "flush_loop R ids 0 r = (Inr (length ids), r1)" "up r1"
    "map snd (fresh r1 STREAM_RETRY) = map snd (fresh r STREAM_RETRY) @ map id_fields ids"
    "zs r1 = (zs r)(RETRY_ZSET := (\<lambda>m. if m \<in> set ids then None else zs r RETRY_ZSET m))"
    by auto
  then have "\<forall>m \<in> set ids. zs r1 RETRY_ZSET m = None" by simp
  from flush_loop_skips [OF r1(2) this, of 0] r1 show ?thesis by auto
qed

text \<open>A flush whose first publication fails has already removed that id from the sorted set.\<close>

lemma flush_due_loses:
  assumes "up r" and "zs r RETRY_ZSET m = Some sc" and "0 \<le> sc" and "sc \<le> now_ts"
  shows "\<exists>k sk r'. flush_due_retries (R\<lparr>rd_xadd := \<lambda>_ _ _ s. (Inl x, s)\<rparr>) now_ts r = (Inl x, r')
    \<and> zs r RETRY_ZSET k = Some sk \<and> sk \<le> now_ts
    \<and> zs r' RETRY_ZSET = (zs r RETRY_ZSET)(k := None) \<and> fresh r' = fresh r \<and> pend r' = pend r"
proof -
  let ?R = "R\<lparr>rd_xadd := \<lambda>_ _ _ s. (Inl x, s)\<rparr>"
  obtain ids r1 where r1: "rd_zrangebyscore R RETRY_ZSET 0 now_ts r = (Inr ids, r1)" "up r1"
    using zrange_up [OF assms(1)] by blast
  have ids: "set ids = {m. \<exists>sc. zs r RETRY_ZSET m = Some sc \<and> 0 \<le> sc \<and> sc \<le> now_ts}"
    and frame: "zs r1 = zs r" "fresh r1 = fresh r" "pend r1 = pend r"
    using zrange_reply [OF r1(1)] zrange_frame [OF r1(1)] by blast+
  have "m \<in> set ids" unfolding ids using assms by blast
  then obtain k ks where k: "ids = k # ks" by (cases ids) auto
  then have "k \<in> set ids" by simp
  then obtain sk where sk: "zs r RETRY_ZSET k = Some sk" "sk \<le> now_ts" unfolding ids by blast
  obtain r2 where r2: "rd_zrem R RETRY_ZSET k r1 = (Inr 1, r2)"
    "zs r2 = (zs r1)(RETRY_ZSET := (zs r1 RETRY_ZSET)(k := None))" "fresh r2 = fresh r1" "pend r2 = pend r1"
    by (rule zrem_present [OF r1(2), of RETRY_ZSET k]) (use sk frame in simp_all)
  have "flush_due_retries ?R now_ts r = (Inl x, r2)"
    by (simp add: flush_due_eq due_retry_event_ids_def r1(1) k r2(1) publish_retry_stream_def)
  with r2 sk frame show ?thesis by auto
qed

end

section \<open>Properties\<close>

text \<open>C17. With Redis answering and room on the retry stream, one flush moves exactly the due
  retries: it returns how many there were, each due event id is appended to the retry stream once
  and leaves the sorted set, and everything not yet due, and every other stream, stays.\<close>

theorem flush_moves_exactly_the_due:
  assumes "redis_service R up zs fresh pend slen" and "up r"
    and "finite {m. zs r RETRY_ZSET m \<noteq> None}"
    and "slen r STREAM_RETRY + card {m. zs r RETRY_ZSET m \<noteq> None} \<le> 100000"
  shows "\<exists>ids r'. flush_due_retries R now_ts r = (Inr (length ids), r') \<and> up r' \<and> distinct ids
    \<and> set ids = {m. \<exists>sc. zs r RETRY_ZSET m = Some sc \<and> 0 \<le> sc \<and> sc \<le> now_ts}
    \<and> map snd (fresh r' STREAM_RETRY) = map snd (fresh r STREAM_RETRY) @ map id_fields ids
    \<and> zs r' RETRY_ZSET = (\<lambda>m. if m \<in> set ids then None else zs r RETRY_ZSET m)
    \<and> (\<forall>s. s \<noteq> STREAM_RETRY \<longrightarrow> fresh r' s = fresh r s) \<and> pend r' = pend r"
  by (rule redis_service.flush_due_moves [OF assms])

definition ex_zset :: mem_redis where
  "ex_zset = mem_init\<lparr>mr_zset := (mr_zset mem_init)(RETRY_ZSET := [(''a'', 3), (''b'', 5), (''c'', 90)])\<rparr>"

lemma ex_zset_zs: "mem_zs ex_zset RETRY_ZSET = [''a'' \<mapsto> 3, ''b'' \<mapsto> 5, ''c'' \<mapsto> 90]"
  by (simp add: ex_zset_def mem_zs_def mem_init_def fun_eq_iff)

lemma ex_zset_views [simp]: "mr_up ex_zset" "mr_new ex_zset s = []" "mem_slen ex_zset s = 0"
  by (simp_all add: ex_zset_def mem_init_def mem_slen_def)

lemma ex_zset_dom: "{m. mem_zs ex_zset RETRY_ZSET m \<noteq> None} = {''a'', ''b'', ''c''}"
  by (auto simp: ex_zset_zs split: if_splits)

theorem flush_moves_exactly_the_due_witness:
  "\<exists>ids r'. flush_due_retries mem_api 10 ex_zset = (Inr (length ids), r') \<and> set ids = {''a'', ''b''}
    \<and> map snd (mr_new r' STREAM_RETRY) = map id_fields ids \<and> mem_zs r' RETRY_ZSET ''c'' = Some 90"
proof -
  have due: "{m. \<exists>sc. mem_zs ex_zset RETRY_ZSET m = Some sc \<and> 0 \<le> sc \<and> sc \<le> 10} = {''a'', ''b''}"
    by (auto simp: ex_zset_zs split: if_splits)
  have "finite {m. mem_zs ex_zset RETRY_ZSET m \<noteq> None}"
    "mem_slen ex_zset STREAM_RETRY + card {m. mem_zs ex_zset RETRY_ZSET m \<noteq> None} \<le> 100000"
    unfolding ex_zset_dom by simp_all
  from flush_moves_exactly_the_due [OF mem.redis_service_axioms ex_zset_views(1) this, of 10] show ?thesis
    unfolding due by (auto simp: ex_zset_zs)
qed



text \<open>C35. The flush is not safe against a Redis that fails between its two commands: when a retry is
  due and the publication raises, the flush raises with one due id already taken off the sorted
  set and on no stream, so neither a later flush nor a worker will see that event again.\<close>

theorem failed_publication_loses_retry:
  assumes "redis_service R up zs fresh pend slen" and "up r"
    and "zs r RETRY_ZSET m = Some sc" and "0 \<le> sc" and "sc \<le> now_ts"
  shows "\<exists>k sk r'. flush_due_retries (R\<lparr>rd_xadd := \<lambda>_ _ _ s. (Inl x, s)\<rparr>) now_ts r = (Inl x, r')
    \<and> zs r RETRY_ZSET k = Some sk \<and> sk \<le> now_ts
    \<and> zs r' RETRY_ZSET = (zs r RETRY_ZSET)(k := None) \<and> fresh r' = fresh r \<and> pend r' = pend r"
  by (rule redis_service.flush_due_loses [OF assms])

theorem failed_publication_loses_retry_witness:
  "\<exists>k sk r'. flush_due_retries (mem_api\<lparr>rd_xadd := \<lambda>_ _ _ s. (Inl (RedisError []), s)\<rparr>) 10 ex_zset
      = (Inl (RedisError []), r')
    \<and> mem_zs ex_zset RETRY_ZSET k = Some sk \<and> mem_zs r' RETRY_ZSET k = None
    \<and> mr_new r' = mr_new ex_zset"
proof -
  have "mem_zs ex_zset RETRY_ZSET ''a'' = Some 3" by (simp add: ex_zset_zs)
  from failed_publication_loses_retry [OF mem.redis_service_axioms ex_zset_views(1) this, of 10 "RedisError []"]
  show ?thesis by (fastforce simp del: fun_upd_apply intro: fun_upd_same)
qed

end
