(* ===== verification/RetryPolicy.thy ===== *)
theory RetryPolicy
  imports Binary64
begin

text \<open>
  \<^verbatim>\<open>api/app/core/retry_policy.py\<close>: the backoff table, the jittered delay and the
  dead-letter test. \<^verbatim>\<open>random.uniform(a, b)\<close> is \<^verbatim>\<open>a + (b - a) * random()\<close> in
  floating point; the value \<open>u\<close> of \<^verbatim>\<open>random()\<close>, which lies in \<open>[0, 1)\<close>, is an argument.

  The locale \<open>retry_policy\<close> is what the worker relies on: when an event is given up, and how
  long a retry may wait. Its lemmas count the failures an event survives.
\<close>

definition BACKOFF :: "int list" where
  "BACKOFF = [0, 10, 30, 60]"

text \<open>The float literals \<^verbatim>\<open>0.8\<close> and \<^verbatim>\<open>1.2\<close>.\<close>

definition f08 :: rat where "f08 = fl (8 / 10)"
definition f12 :: rat where "f12 = fl (12 / 10)"

definition py_uniform :: "rat \<Rightarrow> rat \<Rightarrow> rat \<Rightarrow> rat" where
  "py_uniform a b u = fl (a + fl (fl (b - a) * u))"

definition next_retry_delay :: "int \<Rightarrow> bool \<Rightarrow> rat \<Rightarrow> int option" where
  "next_retry_delay attempt jitter u =
     (let idx = attempt - 1 in
      if idx < 0 \<or> idx \<ge> int (length BACKOFF) then None
      else
        let base = BACKOFF ! nat idx in
        if jitter \<and> base > 0
        then Some (py_int (fl (of_int base * py_uniform f08 f12 u)))
        else Some base)"

definition should_dead_letter :: "int \<Rightarrow> int \<Rightarrow> bool" where
  "should_dead_letter attempt_count max_attempts = (attempt_count \<ge> max_attempts)"

section \<open>Bounds of the jitter\<close>

lemma f08_val: "f08 = 3602879701896397 / 4503599627370496"
  by code_simp

lemma f12_val: "f12 = 5404319552844595 / 4503599627370496"
  by code_simp

lemma uniform_span: "fl (f12 - f08) = 3602879701896396 / 9007199254740992"
  unfolding f08_val f12_val by code_simp

lemma uniform_top: "fl (f08 + fl (f12 - f08)) = f12"
  unfolding uniform_span unfolding f08_val f12_val by code_simp

text \<open>The factor lies between the two floats, both ends included.\<close>

lemma py_uniform_bounds:
  assumes "0 \<le> u" and "u < 1"
  shows "f08 \<le> py_uniform f08 f12 u"
    and "py_uniform f08 f12 u \<le> f12"
proof -
  let ?s = "fl (f12 - f08)"
  have s: "0 \<le> ?s" unfolding uniform_span by simp
  have idem: "fl ?s = ?s" "fl f08 = f08"
    unfolding uniform_span unfolding f08_val by code_simp+
  have lo: "0 \<le> fl (?s * u)" using s assms(1) by (simp add: fl_nonneg)
  have "?s * u \<le> ?s * 1" using s assms by (intro mult_left_mono) simp_all
  then have hi: "fl (?s * u) \<le> ?s" using fl_mono [of "?s * u" "?s"] idem by simp
  show "f08 \<le> py_uniform f08 f12 u"
    using fl_mono [of "f08" "f08 + fl (?s * u)"] lo idem by (simp add: py_uniform_def)
  show "py_uniform f08 f12 u \<le> f12"
    using fl_mono [of "f08 + fl (?s * u)" "f08 + ?s"] hi uniform_top
    by (simp add: py_uniform_def)
qed

lemma jitter_bounds:
  assumes "0 \<le> u" and "u < 1" and "0 \<le> base"
  shows "py_int (fl (base * f08)) \<le> py_int (fl (base * py_uniform f08 f12 u))"
    and "py_int (fl (base * py_uniform f08 f12 u)) \<le> py_int (fl (base * f12))"
  using py_uniform_bounds [OF assms(1,2)] assms(3)
  by (auto intro!: py_int_mono fl_mono mult_left_mono)

lemma jitter_ends:
  "py_int (fl (10 * f08)) = 8" "py_int (fl (10 * f12)) = 12"
  "py_int (fl (30 * f08)) = 24" "py_int (fl (30 * f12)) = 36"
  "py_int (fl (60 * f08)) = 48" "py_int (fl (60 * f12)) = 72"
  unfolding f08_val f12_val by code_simp+

lemma delay_cases:
  "next_retry_delay attempt jitter u =
    (if attempt = 1 then Some 0
     else if attempt = 2 then Some (if jitter then py_int (fl (10 * py_uniform f08 f12 u)) else 10)
     else if attempt = 3 then Some (if jitter then py_int (fl (30 * py_uniform f08 f12 u)) else 30)
     else if attempt = 4 then Some (if jitter then py_int (fl (60 * py_uniform f08 f12 u)) else 60)
     else None)"
proof -
  consider "attempt < 1" | "attempt = 1" | "attempt = 2" | "attempt = 3" | "attempt = 4" | "attempt > 4"
    by linarith
  then show ?thesis
    by cases (simp_all add: next_retry_delay_def BACKOFF_def Let_def)
qed

section \<open>The contract the worker uses\<close>

text \<open>How many more failures an event survives that has failed \<open>a\<close> times, at least one.\<close>

definition retry_budget :: "int \<Rightarrow> int \<Rightarrow> int" where
  "retry_budget a limit = max 1 (limit - a)"

locale retry_policy =
  fixes delay :: "int \<Rightarrow> rat \<Rightarrow> int option"
    and give_up :: "int \<Rightarrow> int \<Rightarrow> bool"
    and horizon :: int
  assumes give_up_iff: "give_up attempts limit \<longleftrightarrow> limit \<le> attempts"
    and delay_range: "0 \<le> u \<Longrightarrow> u < 1 \<Longrightarrow> delay attempts u = Some d \<Longrightarrow> 0 \<le> d \<and> d \<le> horizon"
    and horizon_nonneg: "0 \<le> horizon"
begin

text \<open>
  Of an event that has failed \<open>a\<close> times, the \<open>k\<close>-th further failure is the one that gives it
  up exactly when \<open>k\<close> is the remaining budget.
\<close>

lemma give_up_first:
  assumes "1 \<le> k"
  shows "(give_up (a + k) limit \<and> (\<forall>j. 1 \<le> j \<and> j < k \<longrightarrow> \<not> give_up (a + j) limit)) \<longleftrightarrow> k = retry_budget a limit"
proof
  assume k: "give_up (a + k) limit \<and> (\<forall>j. 1 \<le> j \<and> j < k \<longrightarrow> \<not> give_up (a + j) limit)"
  then have "limit \<le> a + k" by (simp add: give_up_iff)
  moreover have "k = 1 \<or> a + (k - 1) < limit"
    using k assms by (auto simp: give_up_iff dest: spec [of _ "k - 1"])
  ultimately show "k = retry_budget a limit" using assms by (auto simp: retry_budget_def)
next
  assume "k = retry_budget a limit"
  then show "give_up (a + k) limit \<and> (\<forall>j. 1 \<le> j \<and> j < k \<longrightarrow> \<not> give_up (a + j) limit)"
    by (auto simp: give_up_iff retry_budget_def)
qed

text \<open>The wait of a retry, zero once the table is exhausted, never exceeds the horizon.\<close>

lemma wait_range:
  "0 \<le> u \<Longrightarrow> u < 1 \<Longrightarrow>
    0 \<le> (case delay attempts u of None \<Rightarrow> 0 | Some d \<Rightarrow> d) \<and>
    (case delay attempts u of None \<Rightarrow> 0 | Some d \<Rightarrow> d) \<le> horizon"
  using delay_range horizon_nonneg by (auto split: option.split)

end

interpretation backoff: retry_policy "\<lambda>attempts. next_retry_delay attempts True" should_dead_letter 72
proof
  fix attempts limit :: int
  show "should_dead_letter attempts limit \<longleftrightarrow> limit \<le> attempts"
    by (simp add: should_dead_letter_def)
next
  fix u :: rat and attempts d :: int
  assume u: "0 \<le> u" "u < 1" and d: "next_retry_delay attempts True u = Some d"
  show "0 \<le> d \<and> d \<le> 72"
    using d jitter_bounds [OF u, of 10] jitter_bounds [OF u, of 30] jitter_bounds [OF u, of 60]
    by (auto simp: delay_cases jitter_ends split: if_splits)
qed simp

text \<open>C21. The backoff schedule, with the jitter computed in floating point: the first retry is
  immediate, the second waits 8 to 12 seconds, the third 24 to 36, the fourth 48 to 72, so with
  jitter every wait is longer than any wait of the attempt before it; any other attempt number
  has no delay; without jitter the waits are 0, 10, 30 and 60 seconds.\<close>

theorem backoff_schedule:
  assumes "0 \<le> u" and "u < 1"
  shows "next_retry_delay 1 j u = Some 0
    \<and> (\<exists>w. next_retry_delay 2 True u = Some w \<and> 8 \<le> w \<and> w \<le> 12)
    \<and> (\<exists>w. next_retry_delay 3 True u = Some w \<and> 24 \<le> w \<and> w \<le> 36)
    \<and> (\<exists>w. next_retry_delay 4 True u = Some w \<and> 48 \<le> w \<and> w \<le> 72)
    \<and> map (\<lambda>n. next_retry_delay n False u) [1, 2, 3, 4] = [Some 0, Some 10, Some 30, Some 60]
    \<and> (next_retry_delay n j u = None \<longleftrightarrow> n \<notin> {1..4})"
  using jitter_bounds [OF assms, of 10] jitter_bounds [OF assms, of 30] jitter_bounds [OF assms, of 60]
  by (auto simp: delay_cases jitter_ends)

theorem backoff_schedule_witness:
  "(\<exists>w. next_retry_delay 4 True (1 / 3) = Some w \<and> 48 \<le> w \<and> w \<le> 72) \<and> next_retry_delay 5 True (1 / 3) = None"
  using backoff_schedule [of "1 / 3" True 5] by simp

end
