(* ===== verification/Heartbeat.thy ===== *)
theory Heartbeat
  imports Models
begin

text \<open>
  \<^verbatim>\<open>api/app/workers/heartbeat.py\<close> and \<^verbatim>\<open>api/app/api/workers.py\<close>: the liveness of workers.
  Every \<^verbatim>\<open>UPDATE workers\<close> also writes \<^verbatim>\<open>updated_at\<close> (\<^verbatim>\<open>onupdate=_now\<close>), with a clock
  reading of its own: the argument \<open>u\<close>. The heartbeat thread is one \<open>heartbeat_tick\<close> per wake-up.
\<close>

definition mark_worker_active :: "time \<Rightarrow> time \<Rightarrow> uuid \<Rightarrow> uuid option \<Rightarrow> db \<Rightarrow> db" where
  "mark_worker_active now u worker_id current_event_id d =
     update_workers (\<lambda>w. wk_id w = worker_id)
       (\<lambda>w. w\<lparr>wk_last_heartbeat_at := now,
               wk_status := (if current_event_id \<noteq> None then ''busy'' else ''active''),
               wk_current_event_id := current_event_id, wk_updated_at := u\<rparr>) d"

definition mark_worker_stopped :: "time \<Rightarrow> uuid \<Rightarrow> db \<Rightarrow> db" where
  "mark_worker_stopped u worker_id d =
     update_workers (\<lambda>w. wk_id w = worker_id)
       (\<lambda>w. w\<lparr>wk_status := ''stopped'', wk_current_event_id := None, wk_updated_at := u\<rparr>) d"

definition goes_stale :: "time \<Rightarrow> int \<Rightarrow> worker \<Rightarrow> bool" where
  "goes_stale now threshold_seconds w \<longleftrightarrow>
     wk_last_heartbeat_at w < now - seconds threshold_seconds \<and> wk_status w \<in> {''active'', ''busy''}"

definition mark_stale_workers :: "time \<Rightarrow> time \<Rightarrow> int \<Rightarrow> db \<Rightarrow> nat \<times> db" where
  "mark_stale_workers now u threshold_seconds d =
     (count_where (goes_stale now threshold_seconds) (workers d),
      update_workers (goes_stale now threshold_seconds)
        (\<lambda>w. w\<lparr>wk_status := ''stale'', wk_updated_at := u\<rparr>) d)"

record heartbeat_thread =
  ht_worker_id :: uuid
  ht_current_event_id :: "uuid option"
  ht_stop :: bool

text \<open>
  One wake-up: a thread that was stopped does nothing; a database that cannot be reached
  (\<open>reachable\<close> is false) raises, which is logged and swallowed.
\<close>

definition heartbeat_tick :: "bool \<Rightarrow> time \<Rightarrow> time \<Rightarrow> heartbeat_thread \<Rightarrow> db \<Rightarrow> db" where
  "heartbeat_tick reachable now u h d =
     (if ht_stop h \<or> \<not> reachable then d
      else mark_worker_active now u (ht_worker_id h) (ht_current_event_id h) d)"

fun heartbeat_run :: "(bool \<times> time \<times> time \<times> heartbeat_thread) list \<Rightarrow> db \<Rightarrow> db" where
  "heartbeat_run [] d = d"
| "heartbeat_run ((reachable, now, u, h) # ticks) d =
     (if ht_stop h then d else heartbeat_run ticks (heartbeat_tick reachable now u h d))"

definition STALE_THRESHOLD :: int where "STALE_THRESHOLD = 30"

record worker_out =
  wo_id :: uuid
  wo_worker_name :: string
  wo_status :: string
  wo_last_heartbeat_at :: time
  wo_current_event_id :: "uuid option"
  wo_is_stale :: bool

definition worker_model_validate :: "worker \<Rightarrow> worker_out" where
  "worker_model_validate w = \<lparr>wo_id = wk_id w, wo_worker_name = wk_worker_name w,
     wo_status = wk_status w, wo_last_heartbeat_at = wk_last_heartbeat_at w,
     wo_current_event_id = wk_current_event_id w, wo_is_stale = False\<rparr>"

definition list_workers :: "time \<Rightarrow> time \<Rightarrow> time \<Rightarrow> db \<Rightarrow> worker_out list \<times> db" where
  "list_workers t u now d =
     (let d' = snd (mark_stale_workers t u STALE_THRESHOLD d)
      in (map (\<lambda>w. (worker_model_validate w)
                 \<lparr>wo_is_stale := (now - wk_last_heartbeat_at w > seconds STALE_THRESHOLD)\<rparr>)
            (sort_key (\<lambda>w. - wk_last_heartbeat_at w) (workers d')), d'))"

section \<open>Lemmas\<close>

lemma update_workers_frame [simp, record_frame]:
  "applications (update_workers P f d) = applications d"
  "events (update_workers P f d) = events d"
  "event_attempts (update_workers P f d) = event_attempts d"
  "dead_letters (update_workers P f d) = dead_letters d"
  "incident_summaries (update_workers P f d) = incident_summaries d"
  by (simp_all add: update_workers_def)

lemma workers_update:
  "w \<in> set (workers (update_workers P f d)) \<longleftrightarrow>
    (\<exists>w0 \<in> set (workers d). w = (if P w0 then f w0 else w0))"
proof -
  have "workers (update_workers P f d) = map (\<lambda>x. if P x then f x else x) (workers d)"
    by (simp add: update_workers_def update_where_def)
  then show ?thesis by (simp only: set_map image_iff)
qed

lemma mark_worker_active_ok: "schema_ok d \<Longrightarrow> schema_ok (mark_worker_active now u i c d)"
  by (simp add: mark_worker_active_def update_workers_ok)

lemma mark_worker_stopped_ok: "schema_ok d \<Longrightarrow> schema_ok (mark_worker_stopped u i d)"
  by (simp add: mark_worker_stopped_def update_workers_ok)

lemma mark_stale_workers_ok: "schema_ok d \<Longrightarrow> schema_ok (snd (mark_stale_workers now u s d))"
  by (simp add: mark_stale_workers_def update_workers_ok)

lemmas heartbeat_ok = mark_worker_active_ok mark_worker_stopped_ok mark_stale_workers_ok

lemma heartbeat_run_ok: "schema_ok d \<Longrightarrow> schema_ok (heartbeat_run ticks d)"
  by (induction ticks d rule: heartbeat_run.induct) (simp_all add: heartbeat_tick_def heartbeat_ok)

text \<open>Between two heartbeats of a live worker at most the interval passes: it is never marked.\<close>

lemma beating_not_stale:
  "now \<le> wk_last_heartbeat_at w + seconds threshold \<Longrightarrow> \<not> goes_stale now threshold w"
  by (simp add: goes_stale_def)

section \<open>Properties\<close>

text \<open>Staleness detection is exact: a worker's status changes to \<^verbatim>\<open>stale\<close> exactly when it
  was active or busy and its last heartbeat is older than the threshold; the returned count is the
  number of such workers, no other column but \<^verbatim>\<open>updated_at\<close> changes, stopped workers stay
  stopped, and a second pass at the same instant finds nothing more.\<close>

theorem stale_detection_exact:
  "fst (mark_stale_workers now u s d) = length (filter (goes_stale now s) (workers d))
   \<and> workers (snd (mark_stale_workers now u s d)) =
       map (\<lambda>w. if goes_stale now s w then w\<lparr>wk_status := ''stale'', wk_updated_at := u\<rparr> else w) (workers d)
   \<and> fst (mark_stale_workers now u2 s (snd (mark_stale_workers now u s d))) = 0"
  by (simp add: mark_stale_workers_def count_where_def update_workers_def update_where_def
      filter_map comp_def goes_stale_def if_distrib)

text \<open>In a listing the stored status and the staleness flag agree: a worker listed as active or
  busy sent a heartbeat within the threshold before the sweep, and every worker the sweep marks is
  listed as stale with the flag set. The listing shows every worker, the latest heartbeat first.\<close>

theorem listing_agrees_with_sweep:
  assumes "t \<le> now" and "list_workers t u now d = (outs, d')"
  shows "length outs = length (workers d)
    \<and> sorted (map (\<lambda>w. - wo_last_heartbeat_at w) outs)
    \<and> (\<forall>w \<in> set outs. wo_status w \<in> {''active'', ''busy''} \<longrightarrow> t \<le> wo_last_heartbeat_at w + seconds 30)
    \<and> (\<forall>w \<in> set (workers d). goes_stale t 30 w \<longrightarrow>
         (\<exists>v \<in> set outs. wo_id v = wk_id w \<and> wo_status v = ''stale'' \<and> wo_is_stale v))"
proof -
  let ?out = "\<lambda>w. (worker_model_validate w)
    \<lparr>wo_is_stale := (now - wk_last_heartbeat_at w > seconds STALE_THRESHOLD)\<rparr>"
  have d': "d' = snd (mark_stale_workers t u STALE_THRESHOLD d)"
    and outs: "outs = map ?out (sort_key (\<lambda>w. - wk_last_heartbeat_at w) (workers d'))"
    using assms(2) by (auto simp: list_workers_def Let_def)
  let ?g = "\<lambda>w. if goes_stale t 30 w then w\<lparr>wk_status := ''stale'', wk_updated_at := u\<rparr> else w"
  have ws: "workers d' = map ?g (workers d)"
    by (simp add: d' mark_stale_workers_def update_workers_def update_where_def STALE_THRESHOLD_def)
  have set: "v \<in> set outs \<longleftrightarrow> (\<exists>w \<in> set (workers d). v = ?out (?g w))" for v
    unfolding outs set_map set_sort ws image_image by (simp only: image_iff)
  have "sorted (map (\<lambda>w. - wo_last_heartbeat_at w) outs)"
    by (simp add: outs comp_def worker_model_validate_def)
  moreover have "length outs = length (workers d)"
    by (simp add: outs ws)
  moreover have "t \<le> wo_last_heartbeat_at v + seconds 30"
    if "v \<in> set outs" "wo_status v \<in> {''active'', ''busy''}" for v
    using that unfolding set by (auto simp: goes_stale_def worker_model_validate_def split: if_splits)
  moreover have "\<exists>v \<in> set outs. wo_id v = wk_id w \<and> wo_status v = ''stale'' \<and> wo_is_stale v"
    if "w \<in> set (workers d)" "goes_stale t 30 w" for w
    using that assms(1) unfolding Bex_def set
    by (intro exI [of _ "?out (w\<lparr>wk_status := ''stale'', wk_updated_at := u\<rparr>)"])
      (auto simp: goes_stale_def worker_model_validate_def STALE_THRESHOLD_def)
  ultimately show ?thesis by blast
qed

definition ex_worker :: "string \<Rightarrow> time \<Rightarrow> worker" where
  "ex_worker n t = \<lparr>wk_id = n, wk_worker_name = n, wk_status = ''active'', wk_last_heartbeat_at = t,
     wk_current_event_id = None, wk_created_at = 0, wk_updated_at = 0\<rparr>"

theorem listing_agrees_with_sweep_witness:
  "list_workers (seconds 100) 7 (seconds 101)
     (empty_db\<lparr>workers := [ex_worker ''a'' (seconds 60), ex_worker ''b'' (seconds 90)]\<rparr>) =
   ([\<lparr>wo_id = ''b'', wo_worker_name = ''b'', wo_status = ''active'', wo_last_heartbeat_at = seconds 90,
       wo_current_event_id = None, wo_is_stale = False\<rparr>,
     \<lparr>wo_id = ''a'', wo_worker_name = ''a'', wo_status = ''stale'', wo_last_heartbeat_at = seconds 60,
       wo_current_event_id = None, wo_is_stale = True\<rparr>],
    empty_db\<lparr>workers := [(ex_worker ''a'' (seconds 60))\<lparr>wk_status := ''stale'', wk_updated_at := 7\<rparr>,
      ex_worker ''b'' (seconds 90)]\<rparr>)
   \<and> sorted (map (\<lambda>w. - wo_last_heartbeat_at w) (fst (list_workers (seconds 100) 7 (seconds 101)
     (empty_db\<lparr>workers := [ex_worker ''a'' (seconds 60), ex_worker ''b'' (seconds 90)]\<rparr>))))"
proof
  show "sorted (map (\<lambda>w. - wo_last_heartbeat_at w) (fst (list_workers (seconds 100) 7 (seconds 101)
     (empty_db\<lparr>workers := [ex_worker ''a'' (seconds 60), ex_worker ''b'' (seconds 90)]\<rparr>))))"
    using listing_agrees_with_sweep [OF _ surjective_pairing, of "seconds 100" "seconds 101"] by simp
qed (simp add: list_workers_def mark_stale_workers_def update_workers_def update_where_def goes_stale_def
    ex_worker_def STALE_THRESHOLD_def worker_model_validate_def empty_db_def)

end
