(* ===== verification/CheckoutSimulator.thy ===== *)
theory CheckoutSimulator
  imports Models Binary64
begin

text \<open>
  \<^verbatim>\<open>api/app/demo/checkout_simulator.py\<close> and \<^verbatim>\<open>api/app/demo/workload_generator.py\<close>: the demo
  workload and the fault injection the worker's handler consults. The generator
  \<^verbatim>\<open>random.Random(seed).random()\<close> is a parameter \<open>rnd\<close>, a function of the seed, because a
  decision is a function of the event and the attempt only; \<^verbatim>\<open>uuid4().hex\<close> and the HTTP client
  are parameters too.
\<close>

definition CHECKOUT_STEPS :: "(string \<times> string) list" where
  "CHECKOUT_STEPS = [
     (''checkout.started'', ''checkout-service''),
     (''payment.authorized'', ''payment-service''),
     (''inventory.reserved'', ''inventory-service''),
     (''email.receipt_sent'', ''notification-service''),
     (''shipment.created'', ''fulfillment-service'')]"

definition FAIL_RATES :: "(string \<times> rat) list" where
  "FAIL_RATES = [(''payment.authorized'', fl (15 / 100)), (''inventory.reserved'', fl (10 / 100)),
     (''email.receipt_sent'', fl (25 / 100))]"

definition CRASH_RATE :: rat where "CRASH_RATE = fl (1 / 100)"

definition checkout_workflow_id :: "string \<Rightarrow> string" where
  "checkout_workflow_id hex = ''checkout_'' @ take 8 hex"

definition simulate_checkout_events :: "string \<Rightarrow> string option \<Rightarrow> event_create list" where
  "simulate_checkout_events hex workflow_id =
     (let wid = (case workflow_id of None \<Rightarrow> checkout_workflow_id hex | Some w \<Rightarrow> w)
      in map (\<lambda>(event_type, service_name).
          \<lparr>ec_application_name = ''demo-checkout'', ec_workflow_id = wid, ec_event_type = event_type,
           ec_service_name = service_name, ec_idempotency_key = wid @ ''_'' @ event_type,
           ec_payload = [(''workflow_id'', JStr wid), (''step'', JStr event_type)],
           ec_metadata = [(''source'', JStr ''checkout-simulator'')], ec_max_attempts = 4\<rparr>)
        CHECKOUT_STEPS)"

definition should_fail_event :: "(string \<Rightarrow> rat) \<Rightarrow> string \<Rightarrow> string \<Rightarrow> int \<Rightarrow> bool" where
  "should_fail_event rnd event_id event_type attempt_count =
     (let rate = (case map_of FAIL_RATES event_type of None \<Rightarrow> 0 | Some q \<Rightarrow> q)
      in rnd (event_id @ '':'' @ show_int attempt_count) < rate)"

definition should_crash :: "(string \<Rightarrow> rat) \<Rightarrow> string \<Rightarrow> int \<Rightarrow> bool" where
  "should_crash rnd event_id attempt_count =
     (rnd (''crash:'' @ event_id @ '':'' @ show_int attempt_count) < CRASH_RATE)"

section \<open>The workload generator\<close>

record workload_results =
  wr_workflows :: nat
  wr_events_sent :: nat
  wr_errors :: nat

text \<open>One POST: the reply's status code, or an exception, both counted.\<close>

definition send_event ::
  "(event_create \<Rightarrow> 'h \<Rightarrow> (exn + int) \<times> 'h) \<Rightarrow> event_create \<Rightarrow> workload_results \<times> 'h \<Rightarrow> workload_results \<times> 'h" where
  "send_event post ev st = (case st of (res, h) \<Rightarrow>
     (case post ev h of
        (Inr code, h') \<Rightarrow>
          if code = 200 \<or> code = 201 then (res\<lparr>wr_events_sent := wr_events_sent res + 1\<rparr>, h')
          else (res\<lparr>wr_errors := wr_errors res + 1\<rparr>, h')
      | (Inl _, h') \<Rightarrow> (res\<lparr>wr_errors := wr_errors res + 1\<rparr>, h')))"

fun send_workflows ::
  "(event_create \<Rightarrow> 'h \<Rightarrow> (exn + int) \<times> 'h) \<Rightarrow> string list \<Rightarrow> workload_results \<times> 'h \<Rightarrow> workload_results \<times> 'h" where
  "send_workflows post [] st = st"
| "send_workflows post (hex # hexes) st =
     send_workflows post hexes
       (fold (send_event post) (simulate_checkout_events hex (Some (checkout_workflow_id hex))) st)"

definition generate_workload ::
  "(event_create \<Rightarrow> 'h \<Rightarrow> (exn + int) \<times> 'h) \<Rightarrow> string list \<Rightarrow> 'h \<Rightarrow> workload_results \<times> 'h" where
  "generate_workload post hexes h =
     send_workflows post hexes
       (\<lparr>wr_workflows = length hexes, wr_events_sent = 0, wr_errors = 0\<rparr>, h)"

section \<open>Lemmas\<close>

lemma simulate_length: "length (simulate_checkout_events hex w) = 5"
  by (simp add: simulate_checkout_events_def CHECKOUT_STEPS_def Let_def)

lemma rates_nonneg: "0 \<le> CRASH_RATE" "\<forall>q \<in> set (map snd FAIL_RATES). 0 \<le> q \<and> q < 1"
  unfolding CRASH_RATE_def FAIL_RATES_def by code_simp+

text \<open>A step outside the table never fails by itself, whatever the generator says.\<close>

lemma no_rate_no_failure:
  assumes "\<And>s. 0 \<le> rnd s" and "event_type \<notin> {''payment.authorized'', ''inventory.reserved'', ''email.receipt_sent''}"
  shows "\<not> should_fail_event rnd i event_type a"
  using assms by (auto simp: should_fail_event_def FAIL_RATES_def not_less)

lemma send_event_counts:
  "wr_events_sent (fst (send_event post ev st)) + wr_errors (fst (send_event post ev st))
     = wr_events_sent (fst st) + wr_errors (fst st) + 1"
  "wr_workflows (fst (send_event post ev st)) = wr_workflows (fst st)"
  by (auto simp: send_event_def split: prod.split sum.split)

lemma fold_send_counts:
  "wr_events_sent (fst (fold (send_event post) evs st)) + wr_errors (fst (fold (send_event post) evs st))
     = wr_events_sent (fst st) + wr_errors (fst st) + length evs"
  "wr_workflows (fst (fold (send_event post) evs st)) = wr_workflows (fst st)"
  by (induction evs arbitrary: st) (simp_all add: send_event_counts)

lemma send_workflows_counts:
  "wr_events_sent (fst (send_workflows post hexes st)) + wr_errors (fst (send_workflows post hexes st))
     = wr_events_sent (fst st) + wr_errors (fst st) + 5 * length hexes"
  "wr_workflows (fst (send_workflows post hexes st)) = wr_workflows (fst st)"
  by (induction post hexes st rule: send_workflows.induct)
    (simp_all add: fold_send_counts simulate_length)

section \<open>Properties\<close>

text \<open>The workload generator accounts for every event it built: sent and failed posts add up
  to five per workflow, whatever the server answers.\<close>

theorem workload_accounts_for_every_event:
  "wr_workflows (fst (generate_workload post hexes h)) = length hexes
   \<and> wr_events_sent (fst (generate_workload post hexes h)) + wr_errors (fst (generate_workload post hexes h))
     = 5 * length hexes"
  by (simp add: generate_workload_def send_workflows_counts)

text \<open>The simulated checkouts never collide: the idempotency keys of one run are pairwise
  distinct, and two runs whose workflow ids differ share no key when the ids have the same length.\<close>

theorem checkout_keys_distinct:
  "distinct (map ec_idempotency_key (simulate_checkout_events hex (Some w)))
   \<and> (length w = length v \<and> w \<noteq> v \<longrightarrow>
      ec_idempotency_key ` set (simulate_checkout_events hex (Some w))
        \<inter> ec_idempotency_key ` set (simulate_checkout_events hex2 (Some v)) = {})"
  by (auto simp: simulate_checkout_events_def CHECKOUT_STEPS_def Let_def)

theorem checkout_keys_distinct_witness:
  "ec_idempotency_key ` set (simulate_checkout_events [] (Some ''checkout_0a''))
     \<inter> ec_idempotency_key ` set (simulate_checkout_events [] (Some ''checkout_0b'')) = {}"
  using checkout_keys_distinct [of "[]" "''checkout_0a''" "''checkout_0b''" "[]"] by simp

end
