(* ===== verification/Worker.thy ===== *)
theory Worker
  imports RedisStreams RetryPolicy Heartbeat CheckoutSimulator Config
begin

text \<open>
  \<^verbatim>\<open>api/app/workers/worker.py\<close>: the worker process.

  A \<open>world\<close> is what a worker acts on: the committed database, the Redis server, and, for the
  crash-safety theorems only, the list of every pair of them that was visible after a commit or a
  Redis command. A worker that dies does so in one of these states.

  A \<open>session\<close> is what the process keeps between messages. \<^verbatim>\<open>SessionLocal\<close> is created with
  \<^verbatim>\<open>expire_on_commit=False\<close> and is never closed before shutdown, so the \<^verbatim>\<open>Event\<close> object bound to
  the loop variable \<^verbatim>\<open>event\<close> stays in its identity map: a later \<^verbatim>\<open>select\<close> of the same id returns
  that object with the attributes it had, not the row (\<open>select_event\<close>). A flush writes the
  attributes that differ from the ones the object had at the last commit (\<open>save_event\<close>). After a
  flush that raised, the session refuses to work (\<^verbatim>\<open>PendingRollbackError\<close>).
\<close>

section \<open>The worker's surroundings\<close>

record 'r world =
  w_db :: db
  w_redis :: 'r
  w_seen :: "(db \<times> 'r) list"

definition commit :: "db \<Rightarrow> 'r world \<Rightarrow> 'r world" where
  "commit d w = w\<lparr>w_db := d, w_seen := w_seen w @ [(d, w_redis w)]\<rparr>"

definition redis :: "('a, 'r) rcall \<Rightarrow> 'r world \<Rightarrow> (exn + 'a) \<times> 'r world" where
  "redis call w = (case call (w_redis w) of
     (res, r') \<Rightarrow> (res, w\<lparr>w_redis := r', w_seen := w_seen w @ [(w_db w, r')]\<rparr>))"

record session =
  ss_worker_id :: uuid
  ss_worker_name :: string
  ss_event :: "event option"
  ss_current_event_id :: "uuid option"
  ss_failed :: bool

definition select_event :: "uuid \<Rightarrow> session \<Rightarrow> db \<Rightarrow> exn + event option" where
  "select_event event_id s d =
     (case scalar_one_or_none (\<lambda>e. ev_id e = event_id) (events d) of
        Inl x \<Rightarrow> Inl x
      | Inr None \<Rightarrow> Inr None
      | Inr (Some row) \<Rightarrow>
          (case ss_event s of
             Some e \<Rightarrow> if ev_id e = event_id then Inr (Some e) else Inr (Some row)
           | None \<Rightarrow> Inr (Some row)))"

text \<open>The columns of \<open>row\<close> after the object \<open>old\<close> became \<open>new\<close> and was flushed.\<close>

definition flush_event :: "event \<Rightarrow> event \<Rightarrow> event \<Rightarrow> event" where
  "flush_event old new row = row\<lparr>
     ev_status := (if ev_status new = ev_status old then ev_status row else ev_status new),
     ev_attempt_count := (if ev_attempt_count new = ev_attempt_count old then ev_attempt_count row else ev_attempt_count new),
     ev_last_error := (if ev_last_error new = ev_last_error old then ev_last_error row else ev_last_error new),
     ev_next_retry_at := (if ev_next_retry_at new = ev_next_retry_at old then ev_next_retry_at row else ev_next_retry_at new),
     ev_updated_at := (if ev_updated_at new = ev_updated_at old then ev_updated_at row else ev_updated_at new)\<rparr>"

definition save_event :: "event \<Rightarrow> event \<Rightarrow> db \<Rightarrow> exn + db" where
  "save_event old new d =
     (if get_event (ev_id old) d = None then Inl StaleDataError
      else Inr (update_event (ev_id old) (flush_event old new) d))"

section \<open>Registration\<close>

text \<open>The attributes written on a known worker; \<^verbatim>\<open>updated_at\<close> moves when one of them changed.\<close>

definition reactivate :: "time \<Rightarrow> time \<Rightarrow> worker \<Rightarrow> worker" where
  "reactivate t_beat t_updated v =
     (let w = v\<lparr>wk_status := ''active'', wk_last_heartbeat_at := t_beat, wk_current_event_id := None\<rparr>
      in if w = v then v else w\<lparr>wk_updated_at := t_updated\<rparr>)"

definition register_worker ::
  "uuid \<Rightarrow> time \<times> time \<times> time \<Rightarrow> string \<Rightarrow> db \<Rightarrow> exn + worker \<times> db" where
  "register_worker wid ts name d = (case ts of (t_beat, t_created, t_updated) \<Rightarrow>
     (case scalar_one_or_none (\<lambda>w. wk_worker_name w = name) (workers d) of
        Inl x \<Rightarrow> Inl x
      | Inr (Some existing) \<Rightarrow>
          Inr (reactivate t_beat t_updated existing,
               update_workers (\<lambda>v. wk_id v = wk_id existing) (reactivate t_beat t_updated) d)
      | Inr None \<Rightarrow>
          (let w = \<lparr>wk_id = wid, wk_worker_name = name, wk_status = ''active'', wk_last_heartbeat_at = t_beat,
                    wk_current_event_id = None, wk_created_at = t_created, wk_updated_at = t_updated\<rparr>
           in case insert_worker w d of Inl x \<Rightarrow> Inl x | Inr d' \<Rightarrow> Inr (w, d'))))"

definition gc_stale_workers :: "time \<Rightarrow> db \<Rightarrow> nat \<times> db" where
  "gc_stale_workers now d =
     (let gone = (\<lambda>w. wk_last_heartbeat_at w < now - minutes 5)
      in (count_where gone (workers d), delete_workers gone d))"

section \<open>Handling one event\<close>

definition process_event_stub :: "(string \<Rightarrow> rat) \<Rightarrow> event \<Rightarrow> exn + unit" where
  "process_event_stub rnd event =
     (if truthy (dict_get (ev_payload_json event) ''_force_fail'')
      then Inl (SimulatedFailure ''forced failure via _force_fail flag'')
      else if should_crash rnd (ev_id event) (ev_attempt_count event)
      then Inl (WorkerCrashError ''simulated worker crash'')
      else if should_fail_event rnd (ev_id event) (ev_event_type event) (ev_attempt_count event)
      then Inl (SimulatedFailure (ev_event_type event @ '' failed (simulated)''))
      else Inr ())"

text \<open>
  The clock readings, fresh ids and jitter one run of a handler uses, and those of one message:
  the handlers may both run, so each has its own. What other processes commit while the event is
  being worked on is \<open>me_others\<close>.
\<close>

record stamps =
  st_finished :: time
  st_updated :: time
  st_retry_from :: time
  st_dead_at :: time
  st_attempt_id :: uuid
  st_dead_letter_id :: uuid
  st_jitter :: rat

record 'r message_env =
  me_started_at :: time
  me_claimed_at :: time
  me_success :: stamps
  me_failure :: stamps
  me_random :: "string \<Rightarrow> rat"
  me_others :: "db \<Rightarrow> db"
  me_others_redis :: "'r \<Rightarrow> 'r"

definition duration_ms :: "time \<Rightarrow> time \<Rightarrow> int" where
  "duration_ms started_at finished = py_int (fl (fl (of_int (finished - started_at) / 1000000) * 1000))"

definition succeeded_attempt :: "stamps \<Rightarrow> session \<Rightarrow> event \<Rightarrow> int \<Rightarrow> time \<Rightarrow> event_attempt" where
  "succeeded_attempt st s event attempt_num started_at = \<lparr>
     at_id = st_attempt_id st, at_event_id = ev_id event, at_attempt_number = attempt_num,
     at_worker_id = Some (ss_worker_id s), at_worker_name = Some (ss_worker_name s),
     at_status = ''succeeded'', at_error_message = None, at_metadata_json = [],
     at_started_at = started_at, at_finished_at = Some (st_finished st),
     at_duration_ms = Some (duration_ms started_at (st_finished st))\<rparr>"

definition failed_attempt :: "stamps \<Rightarrow> session \<Rightarrow> event \<Rightarrow> int \<Rightarrow> time \<Rightarrow> string \<Rightarrow> event_attempt" where
  "failed_attempt st s event attempt_num started_at error_msg = \<lparr>
     at_id = st_attempt_id st, at_event_id = ev_id event, at_attempt_number = attempt_num,
     at_worker_id = Some (ss_worker_id s), at_worker_name = Some (ss_worker_name s),
     at_status = ''failed'', at_error_message = Some error_msg, at_metadata_json = [],
     at_started_at = started_at, at_finished_at = Some (st_finished st),
     at_duration_ms = Some (duration_ms started_at (st_finished st))\<rparr>"

definition dead_letter_row :: "stamps \<Rightarrow> event \<Rightarrow> string \<Rightarrow> dead_letter" where
  "dead_letter_row st event error_msg = \<lparr>
     dl_id = st_dead_letter_id st, dl_event_id = ev_id event, dl_reason = ''max_attempts_exceeded'',
     dl_last_error = Some error_msg, dl_created_at = st_dead_at st, dl_replayed_at = None,
     dl_replay_status = None\<rparr>"

definition handle_success ::
  "stamps \<Rightarrow> session \<Rightarrow> event \<Rightarrow> int \<Rightarrow> time \<Rightarrow> 'r world \<Rightarrow> (exn + unit) \<times> session \<times> 'r world" where
  "handle_success st s event attempt_num started_at w =
     (let event' = event\<lparr>ev_status := ''succeeded'', ev_updated_at := st_updated st\<rparr>
      in case save_event event event' (w_db w) of
           Inl x \<Rightarrow> (Inl x, s\<lparr>ss_failed := True\<rparr>, w)
         | Inr d1 \<Rightarrow>
             (case insert_attempt (succeeded_attempt st s event attempt_num started_at) d1 of
                Inl x \<Rightarrow> (Inl x, s\<lparr>ss_failed := True\<rparr>, w)
              | Inr d2 \<Rightarrow> (Inr (), s\<lparr>ss_event := Some event'\<rparr>, commit d2 w)))"

definition retry_wait :: "stamps \<Rightarrow> int \<Rightarrow> int" where
  "retry_wait st attempt_count =
     (case next_retry_delay attempt_count True (st_jitter st) of None \<Rightarrow> 0 | Some delay \<Rightarrow> delay)"

definition handle_failure ::
  "'r redis_api \<Rightarrow> stamps \<Rightarrow> session \<Rightarrow> event \<Rightarrow> int \<Rightarrow> time \<Rightarrow> exn \<Rightarrow> 'r world
    \<Rightarrow> (exn + unit) \<times> session \<times> 'r world" where
  "handle_failure R st s event attempt_num started_at error w =
     (if ss_failed s then (Inl PendingRollbackError, s, w)
      else
      (let error_msg = exn_str error;
           event1 = event\<lparr>ev_attempt_count := ev_attempt_count event + 1, ev_last_error := Some error_msg,
                          ev_updated_at := st_updated st\<rparr>;
           attempt = failed_attempt st s event attempt_num started_at error_msg
       in if should_dead_letter (ev_attempt_count event1) (ev_max_attempts event1) then
            (let event2 = event1\<lparr>ev_status := ''dead_lettered''\<rparr>
             in case save_event event event2 (w_db w) of
                  Inl x \<Rightarrow> (Inl x, s\<lparr>ss_failed := True\<rparr>, w)
                | Inr d1 \<Rightarrow> (case insert_attempt attempt d1 of
                    Inl x \<Rightarrow> (Inl x, s\<lparr>ss_failed := True\<rparr>, w)
                  | Inr d2 \<Rightarrow> (case insert_dead_letter (dead_letter_row st event error_msg) d2 of
                      Inl x \<Rightarrow> (Inl x, s\<lparr>ss_failed := True\<rparr>, w)
                    | Inr d3 \<Rightarrow>
                        (case redis (publish_deadletter R (ev_id event) ''max_attempts_exceeded'') (commit d3 w) of
                           (res, w') \<Rightarrow> (res, s\<lparr>ss_event := Some event2\<rparr>, w')))))
          else
            (let retry_at = st_retry_from st + seconds (retry_wait st (ev_attempt_count event1));
                 event2 = event1\<lparr>ev_status := ''retrying'', ev_next_retry_at := Some retry_at\<rparr>
             in case save_event event event2 (w_db w) of
                  Inl x \<Rightarrow> (Inl x, s\<lparr>ss_failed := True\<rparr>, w)
                | Inr d1 \<Rightarrow> (case insert_attempt attempt d1 of
                    Inl x \<Rightarrow> (Inl x, s\<lparr>ss_failed := True\<rparr>, w)
                  | Inr d2 \<Rightarrow>
                      (case redis (schedule_retry R 0 (ev_id event) (Aware 0 retry_at)) (commit d2 w) of
                         (res, w') \<Rightarrow> (res, s\<lparr>ss_event := Some event2\<rparr>, w'))))))"

section \<open>Handling one message\<close>

definition ack ::
  "'r redis_api \<Rightarrow> string \<Rightarrow> msgid \<Rightarrow> session \<Rightarrow> 'r world \<Rightarrow> (exn + unit) \<times> session \<times> 'r world" where
  "ack R stream_name msg_id s w = (case redis (rd_xack R stream_name GROUP msg_id) w of (res, w') \<Rightarrow> (res, s, w'))"

text \<open>The body of the \<^verbatim>\<open>try\<close>, and the whole statement: both \<^verbatim>\<open>except\<close> clauses do the same.\<close>

definition try_event ::
  "'r redis_api \<Rightarrow> 'r message_env \<Rightarrow> string \<Rightarrow> msgid \<Rightarrow> int \<Rightarrow> event \<Rightarrow> session \<Rightarrow> 'r world
    \<Rightarrow> (exn + unit) \<times> session \<times> 'r world" where
  "try_event R E stream_name msg_id attempt_num event s w =
     (case process_event_stub (me_random E) event of
        Inl x \<Rightarrow> (Inl x, s, w)
      | Inr _ \<Rightarrow>
          (case handle_success (me_success E) s event attempt_num (me_started_at E) w of
             (Inl x, s1, w1) \<Rightarrow> (Inl x, s1, w1)
           | (Inr _, s1, w1) \<Rightarrow> ack R stream_name msg_id s1 w1))"

definition bound_event :: "session \<Rightarrow> event \<Rightarrow> event" where
  "bound_event s event = (case ss_event s of None \<Rightarrow> event | Some e \<Rightarrow> e)"

definition work_on ::
  "'r redis_api \<Rightarrow> 'r message_env \<Rightarrow> string \<Rightarrow> msgid \<Rightarrow> int \<Rightarrow> event \<Rightarrow> session \<Rightarrow> 'r world
    \<Rightarrow> (exn + unit) \<times> session \<times> 'r world" where
  "work_on R E stream_name msg_id attempt_num event s w =
     (case try_event R E stream_name msg_id attempt_num event s w of
        (Inr _, s1, w1) \<Rightarrow> (Inr (), s1, w1)
      | (Inl exc, s1, w1) \<Rightarrow>
          (case handle_failure R (me_failure E) s1 (bound_event s1 event) attempt_num (me_started_at E) exc w1 of
             (Inl x, s2, w2) \<Rightarrow> (Inl x, s2, w2)
           | (Inr _, s2, w2) \<Rightarrow> ack R stream_name msg_id s2 w2))"

definition terminal_statuses :: "string list" where
  "terminal_statuses = [''succeeded'', ''dead_lettered'', ''cancelled'']"

definition others :: "'r message_env \<Rightarrow> 'r world \<Rightarrow> 'r world" where
  "others E w = w\<lparr>w_db := me_others E (w_db w), w_redis := me_others_redis E (w_redis w)\<rparr>"

definition process_event ::
  "'r redis_api \<Rightarrow> 'r message_env \<Rightarrow> string \<Rightarrow> msgid \<Rightarrow> event \<Rightarrow> session \<Rightarrow> 'r world
    \<Rightarrow> (exn + unit) \<times> session \<times> 'r world" where
  "process_event R E stream_name msg_id event s w =
     (let attempt_num = ev_attempt_count event + 1;
          claimed = event\<lparr>ev_status := ''processing'', ev_updated_at := me_claimed_at E\<rparr>
      in case save_event event claimed (w_db w) of
           Inl x \<Rightarrow> (Inl x, s\<lparr>ss_failed := True\<rparr>, w)
         | Inr d1 \<Rightarrow>
             (case work_on R E stream_name msg_id attempt_num claimed
                     (s\<lparr>ss_event := Some claimed, ss_current_event_id := Some (ev_id event)\<rparr>)
                     (others E (commit d1 w)) of
                (res, s', w') \<Rightarrow> (res, s'\<lparr>ss_current_event_id := None\<rparr>, w')))"

definition process_message ::
  "'r redis_api \<Rightarrow> 'r message_env \<Rightarrow> string \<Rightarrow> message \<Rightarrow> session \<Rightarrow> 'r world
    \<Rightarrow> (exn + unit) \<times> session \<times> 'r world" where
  "process_message R E stream_name m s w = (case m of (msg_id, fs) \<Rightarrow>
     (case map_of fs ''event_id'' of
        None \<Rightarrow> ack R stream_name msg_id s w
      | Some event_id \<Rightarrow>
          if event_id = [] then ack R stream_name msg_id s w
          else (case select_event event_id s (w_db w) of
             Inl x \<Rightarrow> (Inl x, s, w)
           | Inr None \<Rightarrow> ack R stream_name msg_id (s\<lparr>ss_event := None\<rparr>) w
           | Inr (Some event) \<Rightarrow>
               if ev_status event \<in> set terminal_statuses
               then ack R stream_name msg_id (s\<lparr>ss_event := Some event\<rparr>) w
               else process_event R E stream_name msg_id event (s\<lparr>ss_event := Some event\<rparr>) w)))"

section \<open>The loops\<close>

fun drain_messages ::
  "'r redis_api \<Rightarrow> (nat \<Rightarrow> 'r message_env) \<Rightarrow> string \<Rightarrow> message list \<Rightarrow> session \<Rightarrow> 'r world
    \<Rightarrow> (exn + unit) \<times> session \<times> 'r world" where
  "drain_messages R Es stream_name [] s w = (Inr (), s, w)"
| "drain_messages R Es stream_name (m # ms) s w =
     (case process_message R (Es 0) stream_name m s w of
        (Inl x, s1, w1) \<Rightarrow> (Inl x, s1, w1)
      | (Inr _, s1, w1) \<Rightarrow> drain_messages R (\<lambda>k. Es (Suc k)) stream_name ms s1 w1)"

text \<open>\<open>halt k\<close>: the shutdown event is set when the \<open>k\<close>-th stream of a batch is looked at.\<close>

fun drain_streams ::
  "'r redis_api \<Rightarrow> (nat \<Rightarrow> bool) \<Rightarrow> (nat \<Rightarrow> nat \<Rightarrow> 'r message_env) \<Rightarrow> (string \<times> message list) list
    \<Rightarrow> session \<Rightarrow> 'r world \<Rightarrow> (exn + unit) \<times> session \<times> 'r world" where
  "drain_streams R halt Es [] s w = (Inr (), s, w)"
| "drain_streams R halt Es ((stream_name, messages) # results) s w =
     (if halt 0 then (Inr (), s, w)
      else (case drain_messages R (Es 0) stream_name messages s w of
        (Inl x, s1, w1) \<Rightarrow> (Inl x, s1, w1)
      | (Inr _, s1, w1) \<Rightarrow> drain_streams R (\<lambda>k. halt (Suc k)) (\<lambda>k. Es (Suc k)) results s1 w1))"

record 'r iteration =
  it_halt :: "nat \<Rightarrow> bool"
  it_env :: "nat \<Rightarrow> nat \<Rightarrow> 'r message_env"

text \<open>The iterations of the main loop that start before the shutdown event is seen at its head.\<close>

fun worker_loop ::
  "'r redis_api \<Rightarrow> settings \<Rightarrow> string \<Rightarrow> 'r iteration list \<Rightarrow> session \<Rightarrow> 'r world
    \<Rightarrow> (exn + unit) \<times> session \<times> 'r world" where
  "worker_loop R S name [] s w = (Inr (), s, w)"
| "worker_loop R S name (it # its) s w =
     (case redis (rd_xreadgroup R GROUP name [STREAM_INCOMING, STREAM_RETRY] (worker_xreadgroup_count S)) w of
        (Inl _, w1) \<Rightarrow> worker_loop R S name its s w1
      | (Inr results, w1) \<Rightarrow>
          (case drain_streams R (it_halt it) (it_env it) results s w1 of
             (Inl x, s2, w2) \<Rightarrow> (Inl x, s2, w2)
           | (Inr _, s2, w2) \<Rightarrow> worker_loop R S name its s2 w2))"

fun reclaim_orphans :: "'r redis_api \<Rightarrow> string \<Rightarrow> string list \<Rightarrow> 'r world \<Rightarrow> 'r world" where
  "reclaim_orphans R consumer_name [] w = w"
| "reclaim_orphans R consumer_name (stream # streams) w =
     reclaim_orphans R consumer_name streams
       (snd (redis (rd_xautoclaim R stream GROUP consumer_name 60000 100) w))"

definition effective_worker_name :: "settings \<Rightarrow> string \<Rightarrow> string" where
  "effective_worker_name S host =
     (let n = py_strip (worker_name S) in if n \<noteq> [] then n else ''worker-'' @ take 12 host)"

text \<open>
  The process from start to exit. The heartbeat and scheduler threads it starts are
  \<open>heartbeat_run\<close> and \<open>scheduler_run\<close>; what they do meanwhile belongs to \<open>me_others\<close>. The
  \<^verbatim>\<open>finally\<close> clause swallows the exception a failed session raises.
\<close>

record run_stamps =
  rs_gc_now :: time
  rs_worker_id :: uuid
  rs_register :: "time \<times> time \<times> time"
  rs_stopped :: time

definition run ::
  "'r redis_api \<Rightarrow> settings \<Rightarrow> string \<Rightarrow> run_stamps \<Rightarrow> 'r iteration list \<Rightarrow> 'r world \<Rightarrow> (exn + unit) \<times> 'r world" where
  "run R S host st its w =
     (let name = effective_worker_name S host in
      case redis (ensure_consumer_group R STREAM_INCOMING) w of
        (Inl x, w1) \<Rightarrow> (Inl x, w1)
      | (Inr _, w1) \<Rightarrow>
      (case redis (ensure_consumer_group R STREAM_RETRY) w1 of
        (Inl x, w2) \<Rightarrow> (Inl x, w2)
      | (Inr _, w2) \<Rightarrow>
      (let w3 = commit (snd (gc_stale_workers (rs_gc_now st) (w_db w2))) w2 in
       case register_worker (rs_worker_id st) (rs_register st) name (w_db w3) of
         Inl x \<Rightarrow> (Inl x, w3)
       | Inr (worker, d4) \<Rightarrow>
           (let w5 = reclaim_orphans R name [STREAM_INCOMING, STREAM_RETRY] (commit d4 w3);
                s = \<lparr>ss_worker_id = wk_id worker, ss_worker_name = wk_worker_name worker, ss_event = None,
                     ss_current_event_id = None, ss_failed = False\<rparr>
            in case worker_loop R S name its s w5 of
                 (res, s', w6) \<Rightarrow>
                   (res, if ss_failed s' then w6
                         else commit (mark_worker_stopped (rs_stopped st) (wk_id worker) (w_db w6)) w6)))))"

end
