(* ===== verification/Delivery.thy ===== *)
theory Delivery
  imports Worker
begin

text \<open>
  What handling one message does (\<^verbatim>\<open>api/app/workers/worker.py\<close>): the outcome of a delivery in
  each of its three cases, the states a killed worker can leave, and the cases in which the code
  does not do what it means to.
\<close>

section \<open>Lemmas: saving an event\<close>

lemma keeps_flush [simp]: "keeps_event_keys (flush_event old new)"
  by (simp add: keeps_event_keys_def flush_event_def)

lemma flush_event_id [simp]: "ev_id (flush_event old new row) = ev_id row"
  by (simp add: flush_event_def)

text \<open>An object that agrees with its row writes exactly its new attributes.\<close>

lemma flush_event_fresh:
  "flush_event e (e\<lparr>ev_status := st, ev_attempt_count := n, ev_last_error := le, ev_next_retry_at := nr, ev_updated_at := u\<rparr>) e
    = e\<lparr>ev_status := st, ev_attempt_count := n, ev_last_error := le, ev_next_retry_at := nr, ev_updated_at := u\<rparr>"
  by (simp add: flush_event_def)

definition progresses :: "event \<Rightarrow> event \<Rightarrow> bool" where
  "progresses old new \<longleftrightarrow>
     new = old\<lparr>ev_status := ev_status new, ev_attempt_count := ev_attempt_count new,
               ev_last_error := ev_last_error new, ev_next_retry_at := ev_next_retry_at new,
               ev_updated_at := ev_updated_at new\<rparr>"

lemma flush_progress: "progresses old new \<Longrightarrow> flush_event old new old = new"
  unfolding progresses_def using flush_event_fresh by metis

lemma progresses_updates [simp]:
  "progresses e (e\<lparr>ev_status := st, ev_updated_at := u\<rparr>)"
  "progresses e (e\<lparr>ev_status := st, ev_attempt_count := n, ev_last_error := le, ev_updated_at := u\<rparr>)"
  "progresses e (e\<lparr>ev_status := st, ev_attempt_count := n, ev_last_error := le, ev_next_retry_at := nr, ev_updated_at := u\<rparr>)"
  by (simp_all add: progresses_def)

lemma save_event_fresh:
  assumes "schema_ok d" and "get_event (ev_id old) d = Some old" and "progresses old new"
  obtains d' where "save_event old new d = Inr d'" and "schema_ok d'"
    and "\<And>j. get_event j d' = (if j = ev_id old then Some new else get_event j d)"
    and "ev_id ` set (events d') = ev_id ` set (events d)"
    and "event_attempts d' = event_attempts d" and "dead_letters d' = dead_letters d"
    and "workers d' = workers d" and "applications d' = applications d"
proof -
  let ?d = "update_event (ev_id old) (flush_event old new) d"
  have "save_event old new d = Inr ?d" using assms(2) by (simp add: save_event_def)
  moreover have "get_event j ?d = (if j = ev_id old then Some new else get_event j d)" for j
    using assms(2,3) by (simp add: get_event_update flush_progress)
  ultimately show thesis
    using that update_event_ok [OF assms(1)] update_event_sets by simp
qed

lemma save_event_ok:
  "schema_ok d \<Longrightarrow> save_event old new d = Inr d' \<Longrightarrow> schema_ok d'"
  by (auto simp: save_event_def intro!: update_event_ok split: if_splits)

lemma save_event_frame:
  assumes "save_event old new d = Inr d'"
  shows "event_attempts d' = event_attempts d" and "dead_letters d' = dead_letters d"
    and "workers d' = workers d" and "applications d' = applications d"
    and "ev_id ` set (events d') = ev_id ` set (events d)"
proof -
  have d': "d' = update_event (ev_id old) (flush_event old new) d"
    using assms by (simp add: save_event_def split: if_splits)
  show "event_attempts d' = event_attempts d" "dead_letters d' = dead_letters d"
    "workers d' = workers d" "applications d' = applications d"
    "ev_id ` set (events d') = ev_id ` set (events d)"
    unfolding d' by (simp_all add: update_event_sets)
qed

section \<open>Lemmas: one step of a worker on a quiet system\<close>

lemma insert_attempt_goes:
  assumes "at_id a \<notin> at_id ` set (event_attempts d)" and "at_event_id a \<in> ev_id ` set (events d)"
    and "worker_ref (workers d) (at_worker_id a)"
  shows "insert_attempt a d = Inr (d\<lparr>event_attempts := event_attempts d @ [a]\<rparr>)"
  using assms by (simp add: insert_attempt_def)

lemma stub_cong:
  "ev_id e' = ev_id e \<Longrightarrow> ev_payload_json e' = ev_payload_json e \<Longrightarrow> ev_event_type e' = ev_event_type e \<Longrightarrow>
   ev_attempt_count e' = ev_attempt_count e \<Longrightarrow> process_event_stub rnd e' = process_event_stub rnd e"
  by (simp add: process_event_stub_def)

lemma others_quiet: "me_others E = id \<Longrightarrow> me_others_redis E = id \<Longrightarrow> others E w = w"
  by (simp add: others_def)

text \<open>
  A message the worker will claim: its event exists, is not in a terminal state, the session has
  no stale copy of it, the ids drawn are fresh and no other process interferes. For a delivery to
  be recorded the worker's own row must exist too.
\<close>

definition claimable :: "'r message_env \<Rightarrow> message \<Rightarrow> event \<Rightarrow> session \<Rightarrow> db \<Rightarrow> bool" where
  "claimable E m e s d \<longleftrightarrow> schema_ok d
     \<and> map_of (snd m) ''event_id'' = Some (ev_id e) \<and> ev_id e \<noteq> [] \<and> get_event (ev_id e) d = Some e
     \<and> ev_status e \<notin> set terminal_statuses
     \<and> (case ss_event s of None \<Rightarrow> True | Some c \<Rightarrow> ev_id c = ev_id e \<longrightarrow> c = e) \<and> \<not> ss_failed s
     \<and> st_attempt_id (me_success E) \<notin> at_id ` set (event_attempts d)
     \<and> st_attempt_id (me_failure E) \<notin> at_id ` set (event_attempts d)
     \<and> st_dead_letter_id (me_failure E) \<notin> dl_id ` set (dead_letters d)
     \<and> me_others E = id \<and> me_others_redis E = id"

definition deliverable :: "'r message_env \<Rightarrow> message \<Rightarrow> event \<Rightarrow> session \<Rightarrow> db \<Rightarrow> bool" where
  "deliverable E m e s d \<longleftrightarrow> claimable E m e s d \<and> ss_worker_id s \<in> wk_id ` set (workers d)"

lemmas deliverable_defs = deliverable_def claimable_def

lemma deliverable_claimable: "deliverable E m e s d \<Longrightarrow> claimable E m e s d"
  by (simp add: deliverable_def)

definition claimed_event :: "'r message_env \<Rightarrow> event \<Rightarrow> event" where
  "claimed_event E e = e\<lparr>ev_status := ''processing'', ev_updated_at := me_claimed_at E\<rparr>"

definition claimed_session :: "'r message_env \<Rightarrow> event \<Rightarrow> session \<Rightarrow> session" where
  "claimed_session E e s = s\<lparr>ss_event := Some (claimed_event E e), ss_current_event_id := Some (ev_id e)\<rparr>"

lemma claimed_fields [simp]:
  "ev_id (claimed_event E e) = ev_id e" "ev_attempt_count (claimed_event E e) = ev_attempt_count e"
  "ev_max_attempts (claimed_event E e) = ev_max_attempts e"
  "ss_worker_id (claimed_session E e s) = ss_worker_id s"
  "ss_worker_name (claimed_session E e s) = ss_worker_name s"
  "ss_failed (claimed_session E e s) = ss_failed s"
  "ss_event (claimed_session E e s) = Some (claimed_event E e)"
  "process_event_stub rnd (claimed_event E e) = process_event_stub rnd e"
  by (simp_all add: claimed_event_def claimed_session_def process_event_stub_def)

lemma deliver_claims:
  assumes "claimable E m e s (w_db w)"
  obtains d1 where "schema_ok d1"
    and "\<And>j. get_event j d1 = (if j = ev_id e then Some (claimed_event E e) else get_event j (w_db w))"
    and "ev_id ` set (events d1) = ev_id ` set (events (w_db w))"
    and "event_attempts d1 = event_attempts (w_db w)" and "dead_letters d1 = dead_letters (w_db w)"
    and "workers d1 = workers (w_db w)" and "applications d1 = applications (w_db w)"
    and "process_message R E stream m s w =
      (case work_on R E stream (fst m) (ev_attempt_count e + 1) (claimed_event E e) (claimed_session E e s) (commit d1 w) of
         (res, s', w') \<Rightarrow> (res, s'\<lparr>ss_current_event_id := None\<rparr>, w'))"
proof -
  have d: "schema_ok (w_db w)" "get_event (ev_id e) (w_db w) = Some e" "ev_status e \<notin> set terminal_statuses"
    "map_of (snd m) ''event_id'' = Some (ev_id e)" "ev_id e \<noteq> []" "me_others E = id" "me_others_redis E = id"
    using assms by (simp_all add: claimable_def)
  have "progresses e (claimed_event E e)" by (simp add: claimed_event_def)
  from save_event_fresh [OF d(1,2) this] obtain d1 where d1: "save_event e (claimed_event E e) (w_db w) = Inr d1"
    "schema_ok d1" "\<And>j. get_event j d1 = (if j = ev_id e then Some (claimed_event E e) else get_event j (w_db w))"
    "ev_id ` set (events d1) = ev_id ` set (events (w_db w))"
    "event_attempts d1 = event_attempts (w_db w)" "dead_letters d1 = dead_letters (w_db w)"
    "workers d1 = workers (w_db w)" "applications d1 = applications (w_db w)"
    by metis
  have "select_event (ev_id e) s (w_db w) = Inr (Some e)"
    using assms d(2) by (auto simp: select_event_def scalar_event_by_id [OF d(1)] claimable_def split: option.splits)
  then have "process_message R E stream m s w =
      process_event R E stream (fst m) e (s\<lparr>ss_event := Some e\<rparr>) w"
    using d(3-5) by (cases m) (simp add: process_message_def)
  also have "\<dots> = (case work_on R E stream (fst m) (ev_attempt_count e + 1) (claimed_event E e)
      (claimed_session E e s) (commit d1 w) of (res, s', w') \<Rightarrow> (res, s'\<lparr>ss_current_event_id := None\<rparr>, w'))"
    using d1(1) by (simp add: process_event_def Let_def claimed_session_def claimed_event_def others_quiet [OF d(6,7)])
  finally show thesis by (rule that [OF d1(2-8)])
qed

text \<open>The event a delivery leaves: processed, waiting for its retry, or given up.\<close>

definition succeeded_event :: "'r message_env \<Rightarrow> event \<Rightarrow> event" where
  "succeeded_event E e = e\<lparr>ev_status := ''succeeded'', ev_updated_at := st_updated (me_success E)\<rparr>"

definition retry_time :: "'r message_env \<Rightarrow> event \<Rightarrow> time" where
  "retry_time E e = st_retry_from (me_failure E) + seconds (retry_wait (me_failure E) (ev_attempt_count e + 1))"

definition retrying_event :: "'r message_env \<Rightarrow> exn \<Rightarrow> event \<Rightarrow> event" where
  "retrying_event E x e = e\<lparr>ev_status := ''retrying'', ev_attempt_count := ev_attempt_count e + 1,
     ev_last_error := Some (exn_str x), ev_next_retry_at := Some (retry_time E e),
     ev_updated_at := st_updated (me_failure E)\<rparr>"

definition dead_event :: "'r message_env \<Rightarrow> exn \<Rightarrow> event \<Rightarrow> event" where
  "dead_event E x e = e\<lparr>ev_status := ''dead_lettered'', ev_attempt_count := ev_attempt_count e + 1,
     ev_last_error := Some (exn_str x), ev_updated_at := st_updated (me_failure E)\<rparr>"

lemma succeeded_fields [simp]:
  "ev_id (succeeded_event E e) = ev_id e" "ev_attempt_count (succeeded_event E e) = ev_attempt_count e"
  "ev_max_attempts (succeeded_event E e) = ev_max_attempts e"
  by (simp_all add: succeeded_event_def)

text \<open>What the database holds after a delivery: only this event changed, one attempt was added.\<close>

definition recorded :: "event \<Rightarrow> event_attempt \<Rightarrow> dead_letter list \<Rightarrow> db \<Rightarrow> db \<Rightarrow> bool" where
  "recorded e' a ls d d' \<longleftrightarrow> schema_ok d'
     \<and> (\<forall>j. get_event j d' = (if j = ev_id e' then Some e' else get_event j d))
     \<and> event_attempts d' = event_attempts d @ [a] \<and> dead_letters d' = dead_letters d @ ls
     \<and> workers d' = workers d \<and> applications d' = applications d"

lemma save_and_insert_attempt:
  assumes "schema_ok d" and "get_event (ev_id old) d = Some old" and "progresses old new"
    and "at_id a \<notin> at_id ` set (event_attempts d)" and "at_event_id a = ev_id old"
    and "\<exists>i. at_worker_id a = Some i \<and> i \<in> wk_id ` set (workers d)"
  obtains d1 d2 where "save_event old new d = Inr d1" and "insert_attempt a d1 = Inr d2" and "recorded new a [] d d2"
proof -
  from save_event_fresh [OF assms(1-3)] obtain d1 where d1: "save_event old new d = Inr d1" "schema_ok d1"
    "\<And>j. get_event j d1 = (if j = ev_id old then Some new else get_event j d)"
    "ev_id ` set (events d1) = ev_id ` set (events d)"
    "event_attempts d1 = event_attempts d" "dead_letters d1 = dead_letters d"
    "workers d1 = workers d" "applications d1 = applications d"
    by metis
  have "ev_id old \<in> ev_id ` set (events d)" using get_event_SomeD [OF assms(2)] by blast
  with assms(4-6) d1 have i: "insert_attempt a d1 = Inr (d1\<lparr>event_attempts := event_attempts d1 @ [a]\<rparr>)"
    by (intro insert_attempt_goes) (auto simp: worker_ref_def)
  have "ev_id new = ev_id old" using assms(3) by (metis progresses_def event.select_convs(1) event.surjective event.update_convs(7,10-13,15))
  with i d1 insert_attempt_ok [OF d1(2) i] have "recorded new a [] d (d1\<lparr>event_attempts := event_attempts d1 @ [a]\<rparr>)"
    by (simp add: recorded_def get_event_def)
  with d1(1) i that show thesis by blast
qed

text \<open>The success path up to its commit.\<close>

lemma claim_then_success:
  assumes "deliverable E m e s (w_db w)"
  obtains d1 d2 where
    "recorded (succeeded_event E e)
       (succeeded_attempt (me_success E) s e (ev_attempt_count e + 1) (me_started_at E)) [] (w_db w) d2"
    and "handle_success (me_success E) (claimed_session E e s) (claimed_event E e) (ev_attempt_count e + 1)
      (me_started_at E) (commit d1 w)
      = (Inr (), (claimed_session E e s)\<lparr>ss_event := Some (succeeded_event E e)\<rparr>, commit d2 (commit d1 w))"
    and "process_message R E st m s w =
      (case work_on R E st (fst m) (ev_attempt_count e + 1) (claimed_event E e) (claimed_session E e s) (commit d1 w) of
         (res, s', w') \<Rightarrow> (res, s'\<lparr>ss_current_event_id := None\<rparr>, w'))"
proof -
  let ?a = "succeeded_attempt (me_success E) s e (ev_attempt_count e + 1) (me_started_at E)"
  obtain d1 where d1: "schema_ok d1"
    "\<And>j. get_event j d1 = (if j = ev_id e then Some (claimed_event E e) else get_event j (w_db w))"
    "event_attempts d1 = event_attempts (w_db w)" "dead_letters d1 = dead_letters (w_db w)"
    "workers d1 = workers (w_db w)" "applications d1 = applications (w_db w)"
    and step: "process_message R E st m s w =
      (case work_on R E st (fst m) (ev_attempt_count e + 1) (claimed_event E e) (claimed_session E e s) (commit d1 w) of
         (res, s', w') \<Rightarrow> (res, s'\<lparr>ss_current_event_id := None\<rparr>, w'))"
    by (rule deliver_claims [OF deliverable_claimable [OF assms(1)]]) blast
  have a: "succeeded_attempt (me_success E) (claimed_session E e s) (claimed_event E e) = succeeded_attempt (me_success E) s e"
    by (simp add: succeeded_attempt_def fun_eq_iff)
  have ev: "(claimed_event E e)\<lparr>ev_status := ''succeeded'', ev_updated_at := st_updated (me_success E)\<rparr> = succeeded_event E e"
    by (simp add: claimed_event_def succeeded_event_def)
  have pr: "progresses (claimed_event E e) (succeeded_event E e)" unfolding ev [symmetric] by simp
  have got: "get_event (ev_id (claimed_event E e)) d1 = Some (claimed_event E e)" by (simp add: d1)
  obtain x1 d2 where x: "save_event (claimed_event E e) (succeeded_event E e) d1 = Inr x1"
    "insert_attempt ?a x1 = Inr d2" "recorded (succeeded_event E e) ?a [] d1 d2"
    by (rule save_and_insert_attempt [OF d1(1) got pr, of ?a])
      (use assms(1) d1 in \<open>auto simp: deliverable_defs succeeded_attempt_def\<close>)
  have "recorded (succeeded_event E e) ?a [] (w_db w) d2"
    using x(3) d1 by (simp add: recorded_def succeeded_event_def)
  moreover have "handle_success (me_success E) (claimed_session E e s) (claimed_event E e) (ev_attempt_count e + 1)
      (me_started_at E) (commit d1 w)
      = (Inr (), (claimed_session E e s)\<lparr>ss_event := Some (succeeded_event E e)\<rparr>, commit d2 (commit d1 w))"
    by (simp add: handle_success_def Let_def ev x(1,2) a commit_def)
  ultimately show thesis using that step by blast
qed

context redis_service
begin

lemma ack_goes:
  assumes "up (w_redis w)"
  obtains r' where "ack R st i s w = (Inr (), s, w\<lparr>w_redis := r', w_seen := w_seen w @ [(w_db w, r')]\<rparr>)"
    and "up r'" and "zs r' = zs (w_redis w)" and "fresh r' = fresh (w_redis w)"
    and "pend r' = (pend (w_redis w))(st := filter (\<lambda>m. fst m \<noteq> i) (pend (w_redis w) st))"
    and "slen r' = slen (w_redis w)"
proof -
  from xack_up [OF assms] obtain r' where r': "rd_xack R st GROUP i (w_redis w) = (Inr (), r')" "up r'" by blast
  from xack_frame [OF r'(1)] xack_pend [OF r'(1)] r' that show thesis by (simp add: ack_def redis_def)
qed

lemma deliver_success:
  assumes "deliverable E m e s (w_db w)" and "up (w_redis w)" and "process_event_stub (me_random E) e = Inr ()"
  shows "\<exists>d1 d2 r' s'. process_message R E st m s w = (Inr (), s',
        w\<lparr>w_db := d2, w_redis := r', w_seen := w_seen w @ [(d1, w_redis w), (d2, w_redis w), (d2, r')]\<rparr>)
    \<and> recorded (succeeded_event E e)
        (succeeded_attempt (me_success E) s e (ev_attempt_count e + 1) (me_started_at E)) [] (w_db w) d2
    \<and> up r' \<and> zs r' = zs (w_redis w) \<and> fresh r' = fresh (w_redis w)
    \<and> pend r' = (pend (w_redis w))(st := filter (\<lambda>k. fst k \<noteq> fst m) (pend (w_redis w) st))
    \<and> ss_event s' = Some (succeeded_event E e) \<and> \<not> ss_failed s'"
proof -
  let ?a = "succeeded_attempt (me_success E) s e (ev_attempt_count e + 1) (me_started_at E)"
  obtain d1 d2 where rec: "recorded (succeeded_event E e) ?a [] (w_db w) d2"
    and h: "handle_success (me_success E) (claimed_session E e s) (claimed_event E e) (ev_attempt_count e + 1)
      (me_started_at E) (commit d1 w)
      = (Inr (), (claimed_session E e s)\<lparr>ss_event := Some (succeeded_event E e)\<rparr>, commit d2 (commit d1 w))"
    and step: "process_message R E st m s w =
      (case work_on R E st (fst m) (ev_attempt_count e + 1) (claimed_event E e) (claimed_session E e s) (commit d1 w) of
         (res, s', w') \<Rightarrow> (res, s'\<lparr>ss_current_event_id := None\<rparr>, w'))"
    by (rule claim_then_success [OF assms(1), of R st]) blast
  let ?s = "(claimed_session E e s)\<lparr>ss_event := Some (succeeded_event E e)\<rparr>"
  have "up (w_redis (commit d2 (commit d1 w)))" using assms(2) by (simp add: commit_def)
  then obtain r' where r': "ack R st (fst m) ?s (commit d2 (commit d1 w)) = (Inr (), ?s,
      (commit d2 (commit d1 w))\<lparr>w_redis := r', w_seen := w_seen (commit d2 (commit d1 w)) @ [(w_db (commit d2 (commit d1 w)), r')]\<rparr>)"
    "up r'" "zs r' = zs (w_redis w)" "fresh r' = fresh (w_redis w)"
    "pend r' = (pend (w_redis w))(st := filter (\<lambda>k. fst k \<noteq> fst m) (pend (w_redis w) st))"
    by (rule ack_goes [of "commit d2 (commit d1 w)" st "fst m" ?s]) (simp add: commit_def)
  have "process_message R E st m s w = (Inr (), ?s\<lparr>ss_current_event_id := None\<rparr>,
      w\<lparr>w_db := d2, w_redis := r', w_seen := w_seen w @ [(d1, w_redis w), (d2, w_redis w), (d2, r')]\<rparr>)"
    using step h r'(1) assms(3) by (simp add: work_on_def try_event_def commit_def)
  then show ?thesis
    using rec r'(2-5) assms(1)
    by (intro exI [of _ d1] exI [of _ d2] exI [of _ r'] exI [of _ "?s\<lparr>ss_current_event_id := None\<rparr>"])
      (simp add: deliverable_defs)
qed

text \<open>A delivery whose handler raised, up to the point where the failure is recorded.\<close>

lemma deliver_failure_step:
  assumes "deliverable E m e s (w_db w)" and "process_event_stub (me_random E) e = Inl x"
    and "progresses (claimed_event E e) e'"
  obtains d1 d2 d3 where
    "save_event (claimed_event E e) e' d1 = Inr d2"
    "insert_attempt (failed_attempt (me_failure E) s e (ev_attempt_count e + 1) (me_started_at E) (exn_str x)) d2 = Inr d3"
    "recorded e' (failed_attempt (me_failure E) s e (ev_attempt_count e + 1) (me_started_at E) (exn_str x)) [] (w_db w) d3"
    "process_message R E st m s w =
      (case handle_failure R (me_failure E) (claimed_session E e s) (claimed_event E e) (ev_attempt_count e + 1)
              (me_started_at E) x (commit d1 w) of
         (Inl y, s2, w2) \<Rightarrow> (Inl y, s2\<lparr>ss_current_event_id := None\<rparr>, w2)
       | (Inr _, s2, w2) \<Rightarrow> (case ack R st (fst m) s2 w2 of (res, s3, w3) \<Rightarrow> (res, s3\<lparr>ss_current_event_id := None\<rparr>, w3)))"
proof -
  let ?a = "failed_attempt (me_failure E) s e (ev_attempt_count e + 1) (me_started_at E) (exn_str x)"
  obtain d1 where d1: "schema_ok d1"
    "\<And>j. get_event j d1 = (if j = ev_id e then Some (claimed_event E e) else get_event j (w_db w))"
    "event_attempts d1 = event_attempts (w_db w)" "dead_letters d1 = dead_letters (w_db w)"
    "workers d1 = workers (w_db w)" "applications d1 = applications (w_db w)"
    and step: "process_message R E st m s w =
      (case work_on R E st (fst m) (ev_attempt_count e + 1) (claimed_event E e) (claimed_session E e s) (commit d1 w) of
         (res, s', w') \<Rightarrow> (res, s'\<lparr>ss_current_event_id := None\<rparr>, w'))"
    by (rule deliver_claims [OF deliverable_claimable [OF assms(1)]]) blast
  have got: "get_event (ev_id (claimed_event E e)) d1 = Some (claimed_event E e)" by (simp add: d1)
  have id: "ev_id e' = ev_id e"
    using assms(3) by (metis progresses_def claimed_fields(1) event.select_convs(1) event.surjective event.update_convs(7,10-13,15))
  obtain d2 d3 where x: "save_event (claimed_event E e) e' d1 = Inr d2" "insert_attempt ?a d2 = Inr d3" "recorded e' ?a [] d1 d3"
    by (rule save_and_insert_attempt [OF d1(1) got assms(3), of ?a])
      (use assms(1) d1 in \<open>auto simp: deliverable_defs failed_attempt_def\<close>)
  have "recorded e' ?a [] (w_db w) d3" using x(3) d1 id by (simp add: recorded_def)
  moreover have "process_message R E st m s w =
      (case handle_failure R (me_failure E) (claimed_session E e s) (claimed_event E e) (ev_attempt_count e + 1)
              (me_started_at E) x (commit d1 w) of
         (Inl y, s2, w2) \<Rightarrow> (Inl y, s2\<lparr>ss_current_event_id := None\<rparr>, w2)
       | (Inr _, s2, w2) \<Rightarrow> (case ack R st (fst m) s2 w2 of (res, s3, w3) \<Rightarrow> (res, s3\<lparr>ss_current_event_id := None\<rparr>, w3)))"
    using step assms(2) by (simp add: work_on_def try_event_def bound_event_def split: prod.split sum.split)
  ultimately show thesis using that x(1,2) by blast
qed

lemma deliver_retry:
  assumes "deliverable E m e s (w_db w)" and "up (w_redis w)" and "process_event_stub (me_random E) e = Inl x"
    and "ev_attempt_count e + 1 < ev_max_attempts e"
  shows "\<exists>d1 d2 r1 r' s'. process_message R E st m s w = (Inr (), s',
        w\<lparr>w_db := d2, w_redis := r', w_seen := w_seen w @ [(d1, w_redis w), (d2, w_redis w), (d2, r1), (d2, r')]\<rparr>)
    \<and> recorded (retrying_event E x e)
        (failed_attempt (me_failure E) s e (ev_attempt_count e + 1) (me_started_at E) (exn_str x)) [] (w_db w) d2
    \<and> up r' \<and> zs r' = (zs (w_redis w))(RETRY_ZSET := (zs (w_redis w) RETRY_ZSET)
          (ev_id e := Some (timestamp_of_us (retry_time E e))))
    \<and> fresh r' = fresh (w_redis w) \<and> pend r1 = pend (w_redis w)
    \<and> pend r' = (pend (w_redis w))(st := filter (\<lambda>k. fst k \<noteq> fst m) (pend (w_redis w) st))
    \<and> ss_event s' = Some (retrying_event E x e) \<and> \<not> ss_failed s' \<and> slen r' = slen (w_redis w)"
proof -
  let ?e = "(claimed_event E e)\<lparr>ev_attempt_count := ev_attempt_count e + 1, ev_last_error := Some (exn_str x),
      ev_updated_at := st_updated (me_failure E), ev_status := ''retrying'', ev_next_retry_at := Some (retry_time E e)\<rparr>"
  have ev: "?e = retrying_event E x e" by (simp add: claimed_event_def retrying_event_def)
  have pr: "progresses (claimed_event E e) (retrying_event E x e)"
    by (simp add: progresses_def claimed_event_def retrying_event_def)
  obtain d1 d2 d3 where
    x: "save_event (claimed_event E e) (retrying_event E x e) d1 = Inr d2"
      "insert_attempt (failed_attempt (me_failure E) s e (ev_attempt_count e + 1) (me_started_at E) (exn_str x)) d2 = Inr d3"
      "recorded (retrying_event E x e) (failed_attempt (me_failure E) s e (ev_attempt_count e + 1) (me_started_at E) (exn_str x)) [] (w_db w) d3"
    and step: "process_message R E st m s w =
      (case handle_failure R (me_failure E) (claimed_session E e s) (claimed_event E e) (ev_attempt_count e + 1)
              (me_started_at E) x (commit d1 w) of
         (Inl y, s2, w2) \<Rightarrow> (Inl y, s2\<lparr>ss_current_event_id := None\<rparr>, w2)
       | (Inr _, s2, w2) \<Rightarrow> (case ack R st (fst m) s2 w2 of (res, s3, w3) \<Rightarrow> (res, s3\<lparr>ss_current_event_id := None\<rparr>, w3)))"
    by (rule deliver_failure_step [OF assms(1,3) pr, of st]) blast
  have a: "failed_attempt (me_failure E) (claimed_session E e s) (claimed_event E e) = failed_attempt (me_failure E) s e"
    by (simp add: failed_attempt_def fun_eq_iff)
  from zadd_up [OF assms(2)] obtain r1 where r1:
    "rd_zadd R RETRY_ZSET (ev_id e) (timestamp_of_us (retry_time E e)) (w_redis w) = (Inr (), r1)" "up r1" by blast
  let ?s = "(claimed_session E e s)\<lparr>ss_event := Some (retrying_event E x e)\<rparr>"
  let ?w = "w\<lparr>w_db := d3, w_redis := r1, w_seen := w_seen w @ [(d1, w_redis w), (d3, w_redis w), (d3, r1)]\<rparr>"
  have h: "handle_failure R (me_failure E) (claimed_session E e s) (claimed_event E e) (ev_attempt_count e + 1)
      (me_started_at E) x (commit d1 w) = (Inr (), ?s, ?w)"
    using assms(1,4) r1(1) x(1,2) ev
    by (simp add: handle_failure_def Let_def deliverable_defs should_dead_letter_def commit_def redis_def
        schedule_retry_def a flip: retry_time_def)
  obtain r' where r': "ack R st (fst m) ?s ?w = (Inr (), ?s, ?w\<lparr>w_redis := r', w_seen := w_seen ?w @ [(w_db ?w, r')]\<rparr>)"
    "up r'" "zs r' = zs r1" "fresh r' = fresh r1"
    "pend r' = (pend r1)(st := filter (\<lambda>k. fst k \<noteq> fst m) (pend r1 st))" "slen r' = slen r1"
    by (rule ack_goes [of ?w st "fst m" ?s]) (use r1(2) in simp_all)
  have "process_message R E st m s w = (Inr (), ?s\<lparr>ss_current_event_id := None\<rparr>,
      w\<lparr>w_db := d3, w_redis := r', w_seen := w_seen w @ [(d1, w_redis w), (d3, w_redis w), (d3, r1), (d3, r')]\<rparr>)"
    using step h r'(1) by simp
  with r' x(3) assms(1) zadd_frame [OF r1(1)] zadd_zs [OF r1(1)] show ?thesis
    by (intro exI [of _ d1] exI [of _ d3] exI [of _ r1] exI [of _ r'] exI [of _ "?s\<lparr>ss_current_event_id := None\<rparr>"])
      (simp add: deliverable_defs)
qed

lemma deliver_dead_letter:
  assumes "deliverable E m e s (w_db w)" and "up (w_redis w)" and "process_event_stub (me_random E) e = Inl x"
    and "ev_max_attempts e \<le> ev_attempt_count e + 1"
  shows "\<exists>d1 d2 r1 r' s'. process_message R E st m s w = (Inr (), s',
        w\<lparr>w_db := d2, w_redis := r', w_seen := w_seen w @ [(d1, w_redis w), (d2, w_redis w), (d2, r1), (d2, r')]\<rparr>)
    \<and> recorded (dead_event E x e)
        (failed_attempt (me_failure E) s e (ev_attempt_count e + 1) (me_started_at E) (exn_str x))
        [dead_letter_row (me_failure E) e (exn_str x)] (w_db w) d2
    \<and> up r' \<and> zs r' = zs (w_redis w) \<and> pend r1 = pend (w_redis w)
    \<and> (slen (w_redis w) STREAM_DLQ < 100000 \<longrightarrow> (\<exists>i. fresh r' STREAM_DLQ = fresh (w_redis w) STREAM_DLQ
          @ [(i, [(''event_id'', ev_id e), (''reason'', ''max_attempts_exceeded'')])]))
    \<and> pend r' = (pend (w_redis w))(st := filter (\<lambda>k. fst k \<noteq> fst m) (pend (w_redis w) st))
    \<and> ss_event s' = Some (dead_event E x e) \<and> \<not> ss_failed s'"
proof -
  let ?fs = "[(''event_id'', ev_id e), (''reason'', ''max_attempts_exceeded'')]"
  let ?a = "failed_attempt (me_failure E) s e (ev_attempt_count e + 1) (me_started_at E) (exn_str x)"
  let ?l = "dead_letter_row (me_failure E) e (exn_str x)"
  let ?e = "(claimed_event E e)\<lparr>ev_attempt_count := ev_attempt_count e + 1, ev_last_error := Some (exn_str x),
      ev_updated_at := st_updated (me_failure E), ev_status := ''dead_lettered''\<rparr>"
  have ev: "?e = dead_event E x e" by (simp add: claimed_event_def dead_event_def)
  have pr: "progresses (claimed_event E e) (dead_event E x e)"
    by (simp add: progresses_def claimed_event_def dead_event_def)
  obtain d1 d2 d3 where
    x: "save_event (claimed_event E e) (dead_event E x e) d1 = Inr d2" "insert_attempt ?a d2 = Inr d3"
      "recorded (dead_event E x e) ?a [] (w_db w) d3"
    and step: "process_message R E st m s w =
      (case handle_failure R (me_failure E) (claimed_session E e s) (claimed_event E e) (ev_attempt_count e + 1)
              (me_started_at E) x (commit d1 w) of
         (Inl y, s2, w2) \<Rightarrow> (Inl y, s2\<lparr>ss_current_event_id := None\<rparr>, w2)
       | (Inr _, s2, w2) \<Rightarrow> (case ack R st (fst m) s2 w2 of (res, s3, w3) \<Rightarrow> (res, s3\<lparr>ss_current_event_id := None\<rparr>, w3)))"
    by (rule deliver_failure_step [OF assms(1,3) pr, of st]) blast
  have a: "failed_attempt (me_failure E) (claimed_session E e s) (claimed_event E e) = failed_attempt (me_failure E) s e"
    "dead_letter_row (me_failure E) (claimed_event E e) = dead_letter_row (me_failure E) e"
    by (simp_all add: failed_attempt_def dead_letter_row_def fun_eq_iff)
  have "get_event (ev_id e) d3 \<noteq> None" using x(3) by (simp add: recorded_def dead_event_def)
  then have l: "insert_dead_letter ?l d3 = Inr (d3\<lparr>dead_letters := dead_letters d3 @ [?l]\<rparr>)" (is "_ = Inr ?d4")
    using x(3) assms(1) by (auto simp: insert_dead_letter_def dead_letter_row_def recorded_def deliverable_defs get_event_None_iff)
  have rec: "recorded (dead_event E x e) ?a [?l] (w_db w) ?d4"
    using x(3) insert_dead_letter_ok [OF _ l] by (simp add: recorded_def get_event_def)
  from xadd_up [OF assms(2)] obtain r1 where r1:
    "rd_xadd R STREAM_DLQ ?fs 100000 (w_redis w) = (Inr (), r1)" "up r1" by blast
  let ?s = "(claimed_session E e s)\<lparr>ss_event := Some (dead_event E x e)\<rparr>"
  let ?w = "w\<lparr>w_db := ?d4, w_redis := r1, w_seen := w_seen w @ [(d1, w_redis w), (?d4, w_redis w), (?d4, r1)]\<rparr>"
  have h: "handle_failure R (me_failure E) (claimed_session E e s) (claimed_event E e) (ev_attempt_count e + 1)
      (me_started_at E) x (commit d1 w) = (Inr (), ?s, ?w)"
    using assms(1,4) r1(1) x(1,2) ev l
    by (simp add: handle_failure_def Let_def deliverable_defs should_dead_letter_def commit_def redis_def
        publish_deadletter_def a)
  obtain r' where r': "ack R st (fst m) ?s ?w = (Inr (), ?s, ?w\<lparr>w_redis := r', w_seen := w_seen ?w @ [(w_db ?w, r')]\<rparr>)"
    "up r'" "zs r' = zs r1" "fresh r' = fresh r1"
    "pend r' = (pend r1)(st := filter (\<lambda>k. fst k \<noteq> fst m) (pend r1 st))"
    by (rule ack_goes [of ?w st "fst m" ?s]) (use r1(2) in simp_all)
  have "process_message R E st m s w = (Inr (), ?s\<lparr>ss_current_event_id := None\<rparr>,
      w\<lparr>w_db := ?d4, w_redis := r', w_seen := w_seen w @ [(d1, w_redis w), (?d4, w_redis w), (?d4, r1), (?d4, r')]\<rparr>)"
    using step h r'(1) by simp
  moreover have "slen (w_redis w) STREAM_DLQ < 100000 \<longrightarrow> (\<exists>i. fresh r' STREAM_DLQ = fresh (w_redis w) STREAM_DLQ @ [(i, ?fs)])"
    using published_fresh [OF r1(1)] r'(4) by simp
  ultimately show ?thesis
    using r'(2,3,5) rec assms(1) xadd_zs [OF r1(1)] xadd_pend [OF r1(1)]
    by (intro exI [of _ d1] exI [of _ ?d4] exI [of _ r1] exI [of _ r'] exI [of _ "?s\<lparr>ss_current_event_id := None\<rparr>"])
      (simp add: deliverable_defs)
qed

end

section \<open>Properties of one delivery\<close>

text \<open>
  An event is settled when nothing more is owed to it by the message: it succeeded, or it waits
  in the retry set under the time its row names, or it is dead-lettered and can be replayed.
\<close>

definition settled :: "uuid \<Rightarrow> db \<Rightarrow> (string \<Rightarrow> string \<Rightarrow> rat option) \<Rightarrow> bool" where
  "settled i d z \<longleftrightarrow> (case get_event i d of
     None \<Rightarrow> False
   | Some e \<Rightarrow> ev_status e = ''succeeded''
      \<or> ev_status e = ''retrying'' \<and> (\<exists>t. ev_next_retry_at e = Some t \<and> z RETRY_ZSET i = Some (timestamp_of_us t))
      \<or> ev_status e = ''dead_lettered'' \<and> (\<exists>l \<in> set (dead_letters d). dl_event_id l = i \<and> dl_replayed_at l = None))"

text \<open>C2. A delivered event whose handler succeeds: the message is acknowledged, the event is
  succeeded with its attempt count unchanged, exactly one attempt row is added, no other event
  changes, and the schema holds.\<close>

theorem delivery_succeeds:
  assumes "redis_service R up zs fresh pend slen" and "deliverable E m e s (w_db w)" and "up (w_redis w)"
    and "process_event_stub (me_random E) e = Inr ()"
  shows "\<exists>s' w'. process_message R E st m s w = (Inr (), s', w')
    \<and> recorded (e\<lparr>ev_status := ''succeeded'', ev_updated_at := st_updated (me_success E)\<rparr>)
        (succeeded_attempt (me_success E) s e (ev_attempt_count e + 1) (me_started_at E)) [] (w_db w) (w_db w')
    \<and> pend (w_redis w') = (pend (w_redis w))(st := filter (\<lambda>k. fst k \<noteq> fst m) (pend (w_redis w) st))
    \<and> zs (w_redis w') = zs (w_redis w) \<and> fresh (w_redis w') = fresh (w_redis w)"
  using redis_service.deliver_success [OF assms, of st] unfolding succeeded_event_def by fastforce

text \<open>C3. A delivered event whose handler raises before its last attempt: the failure and its error
  are recorded as one attempt, the attempt count grows by one, and the event waits in the retry
  set for a time between 0 and 72 seconds after the failure; the message is acknowledged.\<close>

theorem delivery_retries:
  assumes "redis_service R up zs fresh pend slen" and "deliverable E m e s (w_db w)" and "up (w_redis w)"
    and "process_event_stub (me_random E) e = Inl x" and "ev_attempt_count e + 1 < ev_max_attempts e"
    and "0 \<le> st_jitter (me_failure E)" and "st_jitter (me_failure E) < 1"
  shows "\<exists>s' w' t. process_message R E st m s w = (Inr (), s', w')
    \<and> st_retry_from (me_failure E) \<le> t \<and> t \<le> st_retry_from (me_failure E) + seconds 72
    \<and> recorded (e\<lparr>ev_status := ''retrying'', ev_attempt_count := ev_attempt_count e + 1,
          ev_last_error := Some (exn_str x), ev_next_retry_at := Some t, ev_updated_at := st_updated (me_failure E)\<rparr>)
        (failed_attempt (me_failure E) s e (ev_attempt_count e + 1) (me_started_at E) (exn_str x)) [] (w_db w) (w_db w')
    \<and> zs (w_redis w') RETRY_ZSET (ev_id e) = Some (timestamp_of_us t)
    \<and> pend (w_redis w') = (pend (w_redis w))(st := filter (\<lambda>k. fst k \<noteq> fst m) (pend (w_redis w) st))"
proof -
  have "0 \<le> retry_wait (me_failure E) n \<and> retry_wait (me_failure E) n \<le> 72" for n
    unfolding retry_wait_def by (rule backoff.wait_range [OF assms(6,7)])
  then have "st_retry_from (me_failure E) \<le> retry_time E e" "retry_time E e \<le> st_retry_from (me_failure E) + seconds 72"
    by (simp_all add: retry_time_def)
  with redis_service.deliver_retry [OF assms(1-5), of st] show ?thesis
    unfolding retrying_event_def by fastforce
qed

text \<open>C4. A delivered event whose handler raises on its last attempt: the event is dead-lettered
  with the error, one attempt and exactly one dead letter are added, the dead-letter stream
  announces it, nothing is scheduled, and the message is acknowledged.\<close>

theorem delivery_dead_letters:
  assumes "redis_service R up zs fresh pend slen" and "deliverable E m e s (w_db w)" and "up (w_redis w)"
    and "process_event_stub (me_random E) e = Inl x" and "ev_max_attempts e \<le> ev_attempt_count e + 1"
    and "slen (w_redis w) STREAM_DLQ < 100000"
  shows "\<exists>s' w' i. process_message R E st m s w = (Inr (), s', w')
    \<and> recorded (e\<lparr>ev_status := ''dead_lettered'', ev_attempt_count := ev_attempt_count e + 1,
          ev_last_error := Some (exn_str x), ev_updated_at := st_updated (me_failure E)\<rparr>)
        (failed_attempt (me_failure E) s e (ev_attempt_count e + 1) (me_started_at E) (exn_str x))
        [dead_letter_row (me_failure E) e (exn_str x)] (w_db w) (w_db w')
    \<and> zs (w_redis w') = zs (w_redis w)
    \<and> fresh (w_redis w') STREAM_DLQ = fresh (w_redis w) STREAM_DLQ
        @ [(i, [(''event_id'', ev_id e), (''reason'', ''max_attempts_exceeded'')])]
    \<and> pend (w_redis w') = (pend (w_redis w))(st := filter (\<lambda>k. fst k \<noteq> fst m) (pend (w_redis w) st))"
  using redis_service.deliver_dead_letter [OF assms(1-5), of st] assms(6) unfolding dead_event_def by fastforce


text \<open>Redelivery of a finished event is harmless: a message whose event the worker sees as
  succeeded, dead-lettered or cancelled changes nothing in the database and issues one
  command, the acknowledgement.\<close>

theorem terminal_redelivery_only_acks:
  assumes "map_of fs ''event_id'' = Some i" and "i \<noteq> []" and "select_event i s (w_db w) = Inr (Some e)"
    and "ev_status e \<in> {''succeeded'', ''dead_lettered'', ''cancelled''}"
  shows "process_message R E st (mid, fs) s w =
    (case rd_xack R st GROUP mid (w_redis w) of
       (res, r') \<Rightarrow> (res, s\<lparr>ss_event := Some e\<rparr>, w\<lparr>w_redis := r', w_seen := w_seen w @ [(w_db w, r')]\<rparr>))"
  using assms by (auto simp: process_message_def terminal_statuses_def ack_def redis_def split: prod.split)

text \<open>The success path up to an acknowledgement that raised.\<close>

lemma success_then_refused_ack:
  assumes "deliverable E m e s (w_db w)" and "process_event_stub (me_random E) e = Inr ()"
    and "rd_xack R st GROUP (fst m) (w_redis w) = (Inl x, r1)"
  obtains d1 d2 s1 where
    "recorded (succeeded_event E e)
       (succeeded_attempt (me_success E) s e (ev_attempt_count e + 1) (me_started_at E)) [] (w_db w) d2"
    and "ss_event s1 = Some (succeeded_event E e)" "\<not> ss_failed s1" "ss_worker_id s1 = ss_worker_id s"
      "ss_worker_name s1 = ss_worker_name s"
    and "process_message R E st m s w =
      (case handle_failure R (me_failure E) s1 (succeeded_event E e) (ev_attempt_count e + 1) (me_started_at E) x
              ((commit d2 (commit d1 w))\<lparr>w_redis := r1, w_seen := w_seen (commit d2 (commit d1 w)) @ [(d2, r1)]\<rparr>) of
         (Inl y, s2, w2) \<Rightarrow> (Inl y, s2\<lparr>ss_current_event_id := None\<rparr>, w2)
       | (Inr _, s2, w2) \<Rightarrow> (case ack R st (fst m) s2 w2 of (res, s3, w3) \<Rightarrow> (res, s3\<lparr>ss_current_event_id := None\<rparr>, w3)))"
proof -
  obtain d1 d2 where rec: "recorded (succeeded_event E e)
      (succeeded_attempt (me_success E) s e (ev_attempt_count e + 1) (me_started_at E)) [] (w_db w) d2"
    and h: "handle_success (me_success E) (claimed_session E e s) (claimed_event E e) (ev_attempt_count e + 1)
      (me_started_at E) (commit d1 w)
      = (Inr (), (claimed_session E e s)\<lparr>ss_event := Some (succeeded_event E e)\<rparr>, commit d2 (commit d1 w))"
    and step: "process_message R E st m s w =
      (case work_on R E st (fst m) (ev_attempt_count e + 1) (claimed_event E e) (claimed_session E e s) (commit d1 w) of
         (res, s', w') \<Rightarrow> (res, s'\<lparr>ss_current_event_id := None\<rparr>, w'))"
    by (rule claim_then_success [OF assms(1), of R st]) blast
  from that [OF rec, of "(claimed_session E e s)\<lparr>ss_event := Some (succeeded_event E e)\<rparr>" d1] show thesis
    using step h assms
    by (simp add: work_on_def try_event_def ack_def redis_def commit_def bound_event_def deliverable_defs
        split: prod.split sum.split)
qed

section \<open>Deliveries that go wrong\<close>

text \<open>C32. A worker whose own row was garbage-collected cannot record anything: when the event it
  claimed succeeds or fails, the attempt violates the foreign key on workers, the exception
  leaves the loop, the event stays \<^verbatim>\<open>processing\<close> with no attempt recorded, Redis is not
  touched, so the message stays pending, and the session is unusable.\<close>

theorem collected_worker_dies:
  assumes "claimable E m e s (w_db w)" and "ss_worker_id s \<notin> wk_id ` set (workers (w_db w))"
  shows "\<exists>x s' w'. process_message R E st m s w = (Inl x, s', w') \<and> x \<in> {PendingRollbackError, IntegrityError}
    \<and> ss_failed s' \<and> w_redis w' = w_redis w \<and> event_attempts (w_db w') = event_attempts (w_db w)
    \<and> get_event (ev_id e) (w_db w')
        = Some (e\<lparr>ev_status := ''processing'', ev_updated_at := me_claimed_at E\<rparr>)"
proof -
  obtain d1 where got: "\<And>j. get_event j d1 = (if j = ev_id e then Some (claimed_event E e) else get_event j (w_db w))"
    and d1: "event_attempts d1 = event_attempts (w_db w)" "workers d1 = workers (w_db w)"
    and step: "process_message R E st m s w =
      (case work_on R E st (fst m) (ev_attempt_count e + 1) (claimed_event E e) (claimed_session E e s) (commit d1 w) of
         (res, s', w') \<Rightarrow> (res, s'\<lparr>ss_current_event_id := None\<rparr>, w'))"
    by (rule deliver_claims [OF assms(1)]) blast
  have refused: "insert_attempt (succeeded_attempt q (claimed_session E e s) ev n t) (update_event i f d1) = Inl IntegrityError"
    "insert_attempt (failed_attempt q (claimed_session E e s) ev n t msg) (update_event i f d1) = Inl IntegrityError"
    for q ev n t msg i f
    using d1(2) assms(2) by (simp_all add: insert_attempt_def worker_ref_def succeeded_attempt_def failed_attempt_def)
  have failed: "handle_failure R (me_failure E) (claimed_session E e s) (claimed_event E e) n t x (commit d1 w)
      = (Inl IntegrityError, (claimed_session E e s)\<lparr>ss_failed := True\<rparr>, commit d1 w)" for n t x
    using got assms(1)
    by (simp add: handle_failure_def Let_def commit_def refused claimable_def save_event_def)
  have succ: "handle_success (me_success E) (claimed_session E e s) (claimed_event E e) n t (commit d1 w)
      = (Inl IntegrityError, (claimed_session E e s)\<lparr>ss_failed := True\<rparr>, commit d1 w)" for n t
    using got by (simp add: handle_success_def Let_def commit_def refused save_event_def)
  obtain y where y: "y \<in> {PendingRollbackError, IntegrityError}"
    "work_on R E st (fst m) (ev_attempt_count e + 1) (claimed_event E e) (claimed_session E e s) (commit d1 w)
      = (Inl y, (claimed_session E e s)\<lparr>ss_failed := True\<rparr>, commit d1 w)"
  proof (cases "process_event_stub (me_random E) e")
    case (Inl x)
    then show thesis using that [of IntegrityError] failed by (simp add: work_on_def try_event_def bound_event_def)
  next
    case (Inr u)
    then show thesis using that [of PendingRollbackError] succ
      by (simp add: work_on_def try_event_def handle_failure_def)
  qed
  then show ?thesis using step d1 got
    by (intro exI [of _ y] exI [of _ "(claimed_session E e s)\<lparr>ss_failed := True, ss_current_event_id := None\<rparr>"]
        exI [of _ "commit d1 w"]) (simp add: commit_def claimed_event_def)
qed


section \<open>Witnesses\<close>

definition ex_queued :: event where
  "ex_queued = \<lparr>ev_id = ''e1'', ev_application_id = ''a1'', ev_workflow_id = ''w'',
     ev_event_type = ''checkout.started'', ev_service_name = ''checkout-service'', ev_idempotency_key = ''k'',
     ev_status = ''queued'', ev_payload_json = [], ev_metadata_json = [], ev_attempt_count = 0,
     ev_max_attempts = 4, ev_next_retry_at = None, ev_last_error = None, ev_created_at = 0, ev_updated_at = 0\<rparr>"

definition ex_poison :: event where
  "ex_poison = ex_queued\<lparr>ev_payload_json := [(''_force_fail'', JBool True)]\<rparr>"

definition ex_world :: "event \<Rightarrow> mem_redis world" where
  "ex_world e = \<lparr>w_db = \<lparr>applications = [\<lparr>app_id = ''a1'', app_name = ''demo'', app_created_at = 0\<rparr>],
       events = [e], event_attempts = [], dead_letters = [], workers = [ex_worker ''w1'' 0], incident_summaries = []\<rparr>,
     w_redis = mem_init\<lparr>mr_pel := (\<lambda>_. [])(STREAM_INCOMING := [((7, [(''event_id'', ''e1'')]), ''w1'')])\<rparr>,
     w_seen = []\<rparr>"

definition ex_session :: session where
  "ex_session = \<lparr>ss_worker_id = ''w1'', ss_worker_name = ''w1'', ss_event = None, ss_current_event_id = None, ss_failed = False\<rparr>"

definition ex_stamps :: "uuid \<Rightarrow> stamps" where
  "ex_stamps i = \<lparr>st_finished = 30, st_updated = 40, st_retry_from = 50, st_dead_at = 60, st_attempt_id = i,
     st_dead_letter_id = i, st_jitter = 1 / 2\<rparr>"

definition ex_menv :: "'r message_env" where
  "ex_menv = \<lparr>me_started_at = 10, me_claimed_at = 20, me_success = ex_stamps ''s'', me_failure = ex_stamps ''f'',
     me_random = (\<lambda>_. 1 / 2), me_others = id, me_others_redis = id\<rparr>"

abbreviation ex_msg :: message where
  "ex_msg \<equiv> (7, [(''event_id'', ''e1'')])"

lemmas ex_delivery_defs = ex_queued_def ex_poison_def ex_world_def ex_session_def ex_stamps_def ex_menv_def ex_worker_def

lemma crash_rate_small: "CRASH_RATE < 1 / 2"
  by code_simp

lemma ex_stub [simp]:
  "process_event_stub (me_random ex_menv) ex_queued = Inr ()"
  "process_event_stub (me_random ex_menv) ex_poison = Inl (SimulatedFailure ''forced failure via _force_fail flag'')"
  using crash_rate_small
  by (simp_all add: process_event_stub_def ex_delivery_defs dict_get_def should_crash_def should_fail_event_def FAIL_RATES_def)

lemma ex_deliverable:
  "deliverable ex_menv ex_msg ex_queued ex_session (w_db (ex_world ex_queued))"
  "deliverable ex_menv ex_msg ex_poison ex_session (w_db (ex_world ex_poison))"
  "deliverable ex_menv ex_msg (ex_poison\<lparr>ev_attempt_count := 3\<rparr>) ex_session (w_db (ex_world (ex_poison\<lparr>ev_attempt_count := 3\<rparr>)))"
  by (simp_all add: deliverable_defs ex_delivery_defs schema_ok_def keys_ok_defs get_event_def terminal_statuses_def)

lemma ex_redis_views [simp]:
  "mr_up (w_redis (ex_world e))" "mem_slen (w_redis (ex_world e)) s = 0" "mem_zs (w_redis (ex_world e)) k = Map.empty"
  "mem_pend (w_redis (ex_world e)) STREAM_INCOMING = [ex_msg]" "mr_new (w_redis (ex_world e)) s = []" "w_seen (ex_world e) = []"
  by (simp_all add: ex_delivery_defs mem_init_def mem_slen_def mem_zs_def mem_pend_def)

lemma ex_fields [simp]:
  "ev_id ex_queued = ''e1''" "ev_attempt_count ex_queued = 0" "ev_max_attempts ex_queued = 4"
  "ev_id ex_poison = ''e1''" "ev_attempt_count ex_poison = 0" "ev_max_attempts ex_poison = 4"
  "event_attempts (w_db (ex_world e)) = []" "dead_letters (w_db (ex_world e)) = []"
  "st_jitter (me_failure ex_menv) = 1 / 2"
  by (simp_all add: ex_delivery_defs)

theorem delivery_succeeds_witness:
  "\<exists>s' w'. process_message mem_api ex_menv STREAM_INCOMING ex_msg ex_session (ex_world ex_queued) = (Inr (), s', w')
    \<and> schema_ok (w_db w') \<and> map_option ev_status (get_event ''e1'' (w_db w')) = Some ''succeeded''
    \<and> length (event_attempts (w_db w')) = 1 \<and> mem_pend (w_redis w') STREAM_INCOMING = []"
  using delivery_succeeds [OF mem.redis_service_axioms ex_deliverable(1) ex_redis_views(1) ex_stub(1), of STREAM_INCOMING]
  by (auto simp: recorded_def)

theorem delivery_retries_witness:
  "\<exists>s' w' t. process_message mem_api ex_menv STREAM_INCOMING ex_msg ex_session (ex_world ex_poison) = (Inr (), s', w')
    \<and> map_option ev_status (get_event ''e1'' (w_db w')) = Some ''retrying''
    \<and> map_option ev_attempt_count (get_event ''e1'' (w_db w')) = Some 1
    \<and> mem_zs (w_redis w') RETRY_ZSET ''e1'' = Some (timestamp_of_us t) \<and> mem_pend (w_redis w') STREAM_INCOMING = []"
  using delivery_retries [OF mem.redis_service_axioms ex_deliverable(2) ex_redis_views(1) ex_stub(2), of STREAM_INCOMING]
  by (auto simp: recorded_def)

theorem delivery_dead_letters_witness:
  "\<exists>s' w'. process_message mem_api ex_menv STREAM_INCOMING ex_msg ex_session (ex_world (ex_poison\<lparr>ev_attempt_count := 3\<rparr>))
      = (Inr (), s', w')
    \<and> map_option ev_status (get_event ''e1'' (w_db w')) = Some ''dead_lettered''
    \<and> map dl_event_id (dead_letters (w_db w')) = [''e1''] \<and> length (mr_new (w_redis w') STREAM_DLQ) = 1"
proof -
  have "process_event_stub (me_random ex_menv) (ex_poison\<lparr>ev_attempt_count := 3\<rparr>)
      = Inl (SimulatedFailure ''forced failure via _force_fail flag'')"
    by (simp add: process_event_stub_def ex_delivery_defs dict_get_def)
  from delivery_dead_letters [OF mem.redis_service_axioms ex_deliverable(3) ex_redis_views(1) this, of STREAM_INCOMING]
  show ?thesis by (auto simp: recorded_def dead_letter_row_def)
qed


theorem terminal_redelivery_only_acks_witness:
  "process_message mem_api ex_menv STREAM_INCOMING ex_msg ex_session (ex_world (ex_queued\<lparr>ev_status := ''succeeded''\<rparr>)) =
    (case rd_xack mem_api STREAM_INCOMING GROUP 7 (w_redis (ex_world (ex_queued\<lparr>ev_status := ''succeeded''\<rparr>))) of
       (res, r') \<Rightarrow> (res, ex_session\<lparr>ss_event := Some (ex_queued\<lparr>ev_status := ''succeeded''\<rparr>)\<rparr>,
         (ex_world (ex_queued\<lparr>ev_status := ''succeeded''\<rparr>))\<lparr>w_redis := r',
           w_seen := w_seen (ex_world (ex_queued\<lparr>ev_status := ''succeeded''\<rparr>))
             @ [(w_db (ex_world (ex_queued\<lparr>ev_status := ''succeeded''\<rparr>)), r')]\<rparr>))"
  by (rule terminal_redelivery_only_acks [where i = "''e1''"])
    (simp_all add: select_event_def scalar_one_or_none_def ex_delivery_defs)

theorem collected_worker_dies_witness:
  "\<exists>x s' w'. process_message mem_api ex_menv STREAM_INCOMING ex_msg (ex_session\<lparr>ss_worker_id := ''w0''\<rparr>) (ex_world ex_queued)
      = (Inl x, s', w') \<and> map_option ev_status (get_event ''e1'' (w_db w')) = Some ''processing''
    \<and> mem_pend (w_redis w') STREAM_INCOMING = [ex_msg]"
proof -
  have "claimable ex_menv ex_msg ex_queued (ex_session\<lparr>ss_worker_id := ''w0''\<rparr>) (w_db (ex_world ex_queued))"
    using ex_deliverable(1) by (auto simp: deliverable_defs)
  moreover have "ss_worker_id (ex_session\<lparr>ss_worker_id := ''w0''\<rparr>) \<notin> wk_id ` set (workers (w_db (ex_world ex_queued)))"
    by (simp add: ex_world_def ex_worker_def)
  ultimately show ?thesis using collected_worker_dies [of ex_menv ex_msg ex_queued _ _ mem_api STREAM_INCOMING] by fastforce
qed


end
