(* ===== verification/WorkerRuns.thy ===== *)
theory WorkerRuns
  imports Delivery
begin

text \<open>
  The worker process over many messages (\<^verbatim>\<open>api/app/workers/worker.py\<close>): what registration and
  garbage collection do, that a whole run keeps the schema whatever Redis and the other processes
  do, how often a failing event is attempted, and what becomes of messages of crashed workers.
\<close>

section \<open>Registration and garbage collection\<close>

lemma reactivate_fields [simp]:
  "wk_id (reactivate b u v) = wk_id v" "wk_worker_name (reactivate b u v) = wk_worker_name v"
  "wk_status (reactivate b u v) = ''active''" "wk_last_heartbeat_at (reactivate b u v) = b"
  "wk_current_event_id (reactivate b u v) = None"
  by (auto simp: reactivate_def Let_def dest: arg_cong [of _ _ wk_status] arg_cong [of _ _ wk_last_heartbeat_at]
      arg_cong [of _ _ wk_current_event_id])

lemma register_worker_ok:
  "schema_ok d \<Longrightarrow> register_worker wid ts name d = Inr (w, d') \<Longrightarrow> schema_ok d'"
  by (auto simp: register_worker_def Let_def intro: update_workers_ok insert_worker_ok
      split: prod.splits sum.splits option.splits)

lemma gc_stale_workers_ok: "schema_ok d \<Longrightarrow> schema_ok (snd (gc_stale_workers now d))"
  by (simp add: gc_stale_workers_def Let_def delete_workers_ok)

section \<open>Every committed state keeps the schema\<close>

definition committed_ok :: "'r world \<Rightarrow> bool" where
  "committed_ok w \<longleftrightarrow> schema_ok (w_db w) \<and> (\<forall>p \<in> set (w_seen w). schema_ok (fst p))"

definition benign_env :: "'r message_env \<Rightarrow> bool" where
  "benign_env E \<longleftrightarrow> (\<forall>d. schema_ok d \<longrightarrow> schema_ok (me_others E d))"

lemma commit_committed: "committed_ok w \<Longrightarrow> schema_ok d \<Longrightarrow> committed_ok (commit d w)"
  by (simp add: committed_ok_def commit_def)

lemma redis_committed: "committed_ok w \<Longrightarrow> redis c w = (res, w') \<Longrightarrow> committed_ok w'"
  by (auto simp: committed_ok_def redis_def split: prod.splits)

lemma others_committed: "benign_env E \<Longrightarrow> committed_ok w \<Longrightarrow> committed_ok (others E w)"
  by (simp add: committed_ok_def benign_env_def others_def)

lemma ack_committed: "committed_ok w \<Longrightarrow> ack R st i s w = (res, s', w') \<Longrightarrow> committed_ok w'"
  by (auto simp: ack_def dest: redis_committed split: prod.splits)

lemma saved_ok:
  assumes "committed_ok w" and "save_event e e' (w_db w) = Inr d1" and "insert_attempt a d1 = Inr d2"
  shows "schema_ok d2"
  using assms by (meson committed_ok_def save_event_ok insert_attempt_ok)

lemma handle_success_committed:
  "committed_ok w \<Longrightarrow> handle_success st s e n t w = (res, s', w') \<Longrightarrow> committed_ok w'"
  by (auto simp: handle_success_def Let_def dest: saved_ok intro!: commit_committed split: sum.splits)

lemma handle_failure_committed:
  assumes "committed_ok w" and "handle_failure R st s e n t x w = (res, s', w')"
  shows "committed_ok w'"
proof -
  have "committed_ok w''" if "save_event e e' (w_db w) = Inr d1" "insert_attempt a d1 = Inr d2"
      "redis c (commit d2 w) = (r, w'')" for e' a d1 d2 w'' r and c :: "(unit, 'a) rcall"
    using saved_ok [OF assms(1) that(1,2)] that(3) commit_committed [OF assms(1)] redis_committed by metis
  moreover have "committed_ok w''" if "save_event e e' (w_db w) = Inr d1" "insert_attempt a d1 = Inr d2"
      "insert_dead_letter l d2 = Inr d3" "redis c (commit d3 w) = (r, w'')" for e' a l d1 d2 d3 w'' r and c :: "(unit, 'a) rcall"
    using insert_dead_letter_ok [OF saved_ok [OF assms(1) that(1,2)] that(3)] that(4)
      commit_committed [OF assms(1)] redis_committed by metis
  ultimately show ?thesis using assms
    unfolding handle_failure_def Let_def by (auto split: if_splits sum.splits prod.splits)
qed

lemma try_event_committed:
  "committed_ok w \<Longrightarrow> try_event R E st i n e s w = (res, s', w') \<Longrightarrow> committed_ok w'"
  by (auto simp: try_event_def dest: handle_success_committed ack_committed split: sum.splits prod.splits)

lemma work_on_committed:
  assumes "committed_ok w" and "work_on R E st i n e s w = (res, s', w')"
  shows "committed_ok w'"
proof -
  obtain r1 s1 w1 where t: "try_event R E st i n e s w = (r1, s1, w1)" by (metis prod_cases3)
  with assms(1) have "committed_ok w1" by (rule try_event_committed)
  with t assms(2) show ?thesis
    by (auto simp: work_on_def dest: handle_failure_committed ack_committed split: sum.splits prod.splits)
qed

lemma process_event_committed:
  assumes "committed_ok w" and "benign_env E" and "process_event R E st i e s w = (res, s', w')"
  shows "committed_ok w'"
proof (cases "save_event e (e\<lparr>ev_status := ''processing'', ev_updated_at := me_claimed_at E\<rparr>) (w_db w)")
  case (Inl x)
  with assms show ?thesis by (simp add: process_event_def Let_def)
next
  case (Inr d1)
  then have "committed_ok (others E (commit d1 w))"
    using assms(1,2) by (intro others_committed commit_committed) (auto simp: committed_ok_def dest: save_event_ok)
  with Inr assms(3) show ?thesis
    by (auto simp: process_event_def Let_def dest: work_on_committed split: prod.splits)
qed

lemma process_message_committed:
  "committed_ok w \<Longrightarrow> benign_env E \<Longrightarrow> process_message R E st m s w = (res, s', w') \<Longrightarrow> committed_ok w'"
  by (auto simp: process_message_def dest: process_event_committed ack_committed
      split: if_splits option.splits sum.splits prod.splits)

lemma drain_messages_committed:
  "committed_ok w \<Longrightarrow> (\<And>k. benign_env (Es k)) \<Longrightarrow> drain_messages R Es st ms s w = (res, s', w') \<Longrightarrow> committed_ok w'"
  by (induction R Es st ms s w rule: drain_messages.induct)
    (auto dest: process_message_committed split: sum.splits prod.splits)

lemma drain_streams_committed:
  "committed_ok w \<Longrightarrow> (\<And>j k. benign_env (Es j k)) \<Longrightarrow> drain_streams R h Es rs s w = (res, s', w') \<Longrightarrow> committed_ok w'"
proof (induction R h Es rs s w rule: drain_streams.induct)
  case (2 R halt Es st ms rs s w)
  obtain r1 s1 w1 where d: "drain_messages R (Es 0) st ms s w = (r1, s1, w1)" by (metis prod_cases3)
  have w1: "committed_ok w1" by (rule drain_messages_committed [OF 2(2,3) d])
  show ?case
  proof (cases "halt 0 \<or> isl r1")
    case True
    with 2(2,4) d w1 show ?thesis by (auto split: if_splits sum.splits)
  next
    case False
    then obtain u where "r1 = Inr u" by (cases r1) auto
    with False d 2(4) have "drain_streams R (\<lambda>k. halt (Suc k)) (\<lambda>k. Es (Suc k)) rs s1 w1 = (res, s', w')" by simp
    from 2(1) [OF _ d [symmetric] _ _ w1 2(3) this] False \<open>r1 = Inr u\<close> show ?thesis by auto
  qed
qed simp

lemma worker_loop_committed:
  assumes "committed_ok w" and "\<And>it j k. it \<in> set its \<Longrightarrow> benign_env (it_env it j k)"
    and "worker_loop R S name its s w = (res, s', w')"
  shows "committed_ok w'"
  using assms
proof (induction its arbitrary: s w)
  case Nil
  then show ?case by simp
next
  case (Cons it its)
  obtain rr w1 where r: "redis (rd_xreadgroup R GROUP name [STREAM_INCOMING, STREAM_RETRY] (worker_xreadgroup_count S)) w
      = (rr, w1)" by force
  have w1: "committed_ok w1" using redis_committed [OF Cons.prems(1) r] .
  show ?case
  proof (cases rr)
    case (Inl x)
    with Cons.IH [OF w1] Cons.prems r show ?thesis by simp
  next
    case (Inr results)
    obtain r2 s2 w2 where d: "drain_streams R (it_halt it) (it_env it) results s w1 = (r2, s2, w2)" by (metis prod_cases3)
    with w1 Cons.prems(2) [of it] have "committed_ok w2" by (intro drain_streams_committed [OF w1 _ d]) simp
    with Cons.IH [of w2 s2] Cons.prems r Inr d show ?thesis by (cases r2) simp_all
  qed
qed

lemma reclaim_orphans_committed: "committed_ok w \<Longrightarrow> committed_ok (reclaim_orphans R name ss w)"
proof (induction R name ss w rule: reclaim_orphans.induct)
  case (2 R name s ss w)
  then show ?case by (simp add: redis_committed [OF 2(2) surjective_pairing])
qed simp


section \<open>How often a failing event is attempted\<close>

text \<open>Environments for a sequence of deliveries: quiet, with ids never used before.\<close>

definition fresh_run :: "(nat \<Rightarrow> 'r message_env) \<Rightarrow> nat \<Rightarrow> db \<Rightarrow> bool" where
  "fresh_run Es n d \<longleftrightarrow> (\<forall>k < n. me_others (Es k) = id \<and> me_others_redis (Es k) = id
     \<and> st_attempt_id (me_success (Es k)) \<notin> at_id ` set (event_attempts d)
     \<and> st_attempt_id (me_failure (Es k)) \<notin> at_id ` set (event_attempts d)
     \<and> st_dead_letter_id (me_failure (Es k)) \<notin> dl_id ` set (dead_letters d)
     \<and> (\<forall>j < n. st_attempt_id (me_failure (Es j)) \<noteq> st_attempt_id (me_success (Es k))
          \<and> (j \<noteq> k \<longrightarrow> st_attempt_id (me_failure (Es j)) \<noteq> st_attempt_id (me_failure (Es k)))))"

lemma fresh_run_shift:
  assumes "fresh_run Es (Suc n) d" and "event_attempts d' = event_attempts d @ [a]"
    and "at_id a = st_attempt_id (me_failure (Es 0))" and "dead_letters d' = dead_letters d"
  shows "fresh_run (\<lambda>k. Es (Suc k)) n d'"
  unfolding fresh_run_def
proof (intro allI impI)
  fix k
  assume k: "k < n"
  note run = assms(1) [unfolded fresh_run_def, rule_format]
  have "st_attempt_id (me_failure (Es 0)) \<noteq> st_attempt_id (me_success (Es (Suc k)))"
    "st_attempt_id (me_failure (Es 0)) \<noteq> st_attempt_id (me_failure (Es (Suc k)))"
    using run [of "Suc k"] k by (simp_all add: All_less_Suc2)
  with run [of "Suc k"] k assms(2-4)
  show "me_others (Es (Suc k)) = id \<and> me_others_redis (Es (Suc k)) = id
     \<and> st_attempt_id (me_success (Es (Suc k))) \<notin> at_id ` set (event_attempts d')
     \<and> st_attempt_id (me_failure (Es (Suc k))) \<notin> at_id ` set (event_attempts d')
     \<and> st_dead_letter_id (me_failure (Es (Suc k))) \<notin> dl_id ` set (dead_letters d')
     \<and> (\<forall>j < n. st_attempt_id (me_failure (Es (Suc j))) \<noteq> st_attempt_id (me_success (Es (Suc k)))
          \<and> (j \<noteq> k \<longrightarrow> st_attempt_id (me_failure (Es (Suc j))) \<noteq> st_attempt_id (me_failure (Es (Suc k)))))"
    by (simp add: All_less_Suc2)
qed

text \<open>A session that is up to date with event \<open>e\<close> and able to record attempts.\<close>

definition ready :: "event \<Rightarrow> session \<Rightarrow> db \<Rightarrow> bool" where
  "ready e s d \<longleftrightarrow> schema_ok d \<and> ev_id e \<noteq> [] \<and> get_event (ev_id e) d = Some e
     \<and> (case ss_event s of None \<Rightarrow> True | Some c \<Rightarrow> ev_id c = ev_id e \<longrightarrow> c = e) \<and> \<not> ss_failed s
     \<and> ss_worker_id s \<in> wk_id ` set (workers d)"

lemma ready_deliverable:
  assumes "ready e s d" and "fresh_run Es (Suc n) d" and "map_of (snd m) ''event_id'' = Some (ev_id e)"
    and "ev_status e \<notin> set terminal_statuses"
  shows "deliverable (Es 0) m e s d"
  using assms by (simp add: ready_def fresh_run_def deliverable_defs)

lemma force_fail_stub:
  "truthy (dict_get (ev_payload_json e) ''_force_fail'') \<Longrightarrow>
    process_event_stub rnd e = Inl (SimulatedFailure ''forced failure via _force_fail flag'')"
  by (simp add: process_event_stub_def)

lemma process_message_session:
  "process_message R E st m s w = (res, s', w') \<Longrightarrow>
     ss_worker_id s' = ss_worker_id s \<and> ss_worker_name s' = ss_worker_name s"
  by (auto simp: process_message_def process_event_def work_on_def try_event_def ack_def handle_success_def
      handle_failure_def Let_def split: if_splits option.splits sum.splits prod.splits)

context redis_service
begin

lemma drain_terminal:
  assumes "\<forall>m \<in> set ms. map_of (snd m) ''event_id'' = Some (ev_id e)" and "ready e s (w_db w)"
    and "ev_status e \<in> set terminal_statuses" and "up (w_redis w)"
  shows "\<exists>s' w'. drain_messages R Es st ms s w = (Inr (), s', w') \<and> w_db w' = w_db w"
  using assms
proof (induction ms arbitrary: Es s w)
  case Nil
  then show ?case by simp
next
  case (Cons m ms)
  have sel: "select_event (ev_id e) s (w_db w) = Inr (Some e)"
    using Cons.prems(2) by (auto simp: ready_def select_event_def scalar_event_by_id split: option.splits)
  obtain r' where r': "ack R st (fst m) (s\<lparr>ss_event := Some e\<rparr>) w
      = (Inr (), s\<lparr>ss_event := Some e\<rparr>, w\<lparr>w_redis := r', w_seen := w_seen w @ [(w_db w, r')]\<rparr>)" "up r'"
    by (rule ack_goes [OF Cons.prems(4)])
  have p: "process_message R (Es 0) st m s w
      = (Inr (), s\<lparr>ss_event := Some e\<rparr>, w\<lparr>w_redis := r', w_seen := w_seen w @ [(w_db w, r')]\<rparr>)"
    using sel r'(1) Cons.prems(1-3) by (cases m) (simp add: process_message_def ready_def)
  have "\<exists>s' w'. drain_messages R (\<lambda>k. Es (Suc k)) st ms (s\<lparr>ss_event := Some e\<rparr>)
      (w\<lparr>w_redis := r', w_seen := w_seen w @ [(w_db w, r')]\<rparr>) = (Inr (), s', w') \<and> w_db w' = w_db w"
    using Cons.IH [of "s\<lparr>ss_event := Some e\<rparr>" "w\<lparr>w_redis := r', w_seen := w_seen w @ [(w_db w, r')]\<rparr>" "\<lambda>k. Es (Suc k)"]
      Cons.prems(1-3) r'(2) by (simp add: ready_def)
  with p show ?case by simp
qed

end

text \<open>What \<open>n\<close> deliveries of a failing event leave behind.\<close>

definition poisoned :: "event \<Rightarrow> nat \<Rightarrow> db \<Rightarrow> db \<Rightarrow> bool" where
  "poisoned e n d d' \<longleftrightarrow> (let b = retry_budget (ev_attempt_count e) (ev_max_attempts e) in
     \<exists>e'. get_event (ev_id e) d' = Some e' \<and> ev_attempt_count e' = ev_attempt_count e + min (int n) b
       \<and> int (length (event_attempts d')) = int (length (event_attempts d)) + min (int n) b
       \<and> length (dead_letters d') = length (dead_letters d) + (if b \<le> int n then 1 else 0)
       \<and> ev_status e' = (if b \<le> int n then ''dead_lettered'' else if n = 0 then ev_status e else ''retrying''))"

lemma poisoned_step:
  assumes "poisoned e1 n d1 d'" and "ev_attempt_count e + 1 < ev_max_attempts e"
    and "ev_id e1 = ev_id e" "ev_attempt_count e1 = ev_attempt_count e + 1" "ev_max_attempts e1 = ev_max_attempts e"
    "ev_status e1 = ''retrying''"
    and "length (event_attempts d1) = Suc (length (event_attempts d))" "length (dead_letters d1) = length (dead_letters d)"
  shows "poisoned e (Suc n) d d'"
  using assms unfolding poisoned_def retry_budget_def Let_def
  by (elim exE) (rule exI, auto simp: min_def max_def split: if_splits)

context redis_service
begin

lemma poison_drain:
  assumes "\<forall>m \<in> set ms. map_of (snd m) ''event_id'' = Some (ev_id e)" and "ready e s (w_db w)"
    and "ev_status e \<notin> set terminal_statuses" and "truthy (dict_get (ev_payload_json e) ''_force_fail'')"
    and "fresh_run Es (length ms) (w_db w)" and "up (w_redis w)"
  shows "\<exists>s' w'. drain_messages R Es st ms s w = (Inr (), s', w') \<and> poisoned e (length ms) (w_db w) (w_db w')"
  using assms
proof (induction ms arbitrary: Es s w e)
  case Nil
  then show ?case by (simp add: poisoned_def retry_budget_def ready_def)
next
  case (Cons m ms)
  let ?x = "SimulatedFailure ''forced failure via _force_fail flag''"
  have del: "deliverable (Es 0) m e s (w_db w)"
    using Cons.prems by (intro ready_deliverable [of e s "w_db w" Es "length ms"]) simp_all
  note stub = force_fail_stub [OF Cons.prems(4)]
  show ?case
  proof (cases "ev_attempt_count e + 1 < ev_max_attempts e")
    case True
    let ?e = "retrying_event (Es 0) ?x e"
    from deliver_retry [OF del Cons.prems(6) stub True, of st] obtain s1 w1 where
      p: "process_message R (Es 0) st m s w = (Inr (), s1, w1)" "up (w_redis w1)"
        "ss_event s1 = Some ?e" "\<not> ss_failed s1"
      and rec: "recorded ?e (failed_attempt (me_failure (Es 0)) s e (ev_attempt_count e + 1)
          (me_started_at (Es 0)) (exn_str ?x)) [] (w_db w) (w_db w1)"
      by auto
    have fields: "ev_id ?e = ev_id e" "ev_status ?e = ''retrying''" "ev_payload_json ?e = ev_payload_json e"
      "ev_attempt_count ?e = ev_attempt_count e + 1" "ev_max_attempts ?e = ev_max_attempts e"
      by (simp_all add: retrying_event_def)
    have rd: "ready ?e s1 (w_db w1)"
      using rec p(3,4) process_message_session [OF p(1)] Cons.prems(2) fields by (auto simp: ready_def recorded_def)
    have fr: "fresh_run (\<lambda>k. Es (Suc k)) (length ms) (w_db w1)"
      by (rule fresh_run_shift [of Es "length ms" "w_db w"])
        (use Cons.prems(5) rec in \<open>auto simp: recorded_def failed_attempt_def\<close>)
    have nt: "ev_status ?e \<notin> set terminal_statuses" by (simp add: fields terminal_statuses_def)
    from Cons.IH [OF _ rd nt _ fr p(2)] Cons.prems(1,4) fields obtain s' w' where
      "drain_messages R (\<lambda>k. Es (Suc k)) st ms s1 w1 = (Inr (), s', w')" "poisoned ?e (length ms) (w_db w1) (w_db w')"
      by auto
    with p(1) poisoned_step [OF this(2) True fields(1,4,5,2)] rec show ?thesis by (simp add: recorded_def)
  next
    case False
    let ?e = "dead_event (Es 0) ?x e"
    from False have "ev_max_attempts e \<le> ev_attempt_count e + 1" by simp
    from deliver_dead_letter [OF del Cons.prems(6) stub this, of st] obtain s1 w1 l where
      p: "process_message R (Es 0) st m s w = (Inr (), s1, w1)" "up (w_redis w1)"
        "ss_event s1 = Some ?e" "\<not> ss_failed s1"
      and rec: "recorded ?e (failed_attempt (me_failure (Es 0)) s e (ev_attempt_count e + 1)
          (me_started_at (Es 0)) (exn_str ?x)) [l] (w_db w) (w_db w1)"
      by auto
    have rd: "ready ?e s1 (w_db w1)"
      using rec p(3,4) process_message_session [OF p(1)] Cons.prems(2) by (auto simp: ready_def recorded_def dead_event_def)
    have "\<exists>s' w'. drain_messages R (\<lambda>k. Es (Suc k)) st ms s1 w1 = (Inr (), s', w') \<and> w_db w' = w_db w1"
      by (rule drain_terminal [OF _ rd _ p(2)]) (use Cons.prems(1) in \<open>simp_all add: dead_event_def terminal_statuses_def\<close>)
    moreover have "poisoned e (Suc (length ms)) (w_db w) (w_db w1)"
      using False rec by (simp add: poisoned_def recorded_def retry_budget_def dead_event_def)
    ultimately show ?thesis using p(1) by auto
  qed
qed

end


section \<open>Messages of crashed workers\<close>

lemma redis_schedule: "redis (schedule_retry R o' i (Aware z t)) w = redis (rd_zadd R RETRY_ZSET i (timestamp_of_us t)) w"
  by (simp add: redis_def schedule_retry_def)

lemma redis_publish_dead: "redis (publish_deadletter R i reason) w =
    redis (rd_xadd R STREAM_DLQ [(''event_id'', i), (''reason'', reason)] 100000) w"
  by (simp add: redis_def publish_deadletter_def)

context redis_service
begin

text \<open>A message that is pending and that no read for new entries can deliver again.\<close>

definition orphan :: "string \<Rightarrow> message \<Rightarrow> 'r \<Rightarrow> bool" where
  "orphan st m r \<longleftrightarrow> up r \<and> m \<in> set (pend r st) \<and> (\<forall>k \<in> set (fresh r st). fst k \<noteq> fst m)"

lemma orphan_zadd:
  assumes "orphan st m (w_redis w)" and "redis (rd_zadd R k v sc) w = (res, w')"
  shows "orphan st m (w_redis w')"
proof -
  from assms(1) have "up (w_redis w)" by (simp add: orphan_def)
  then obtain r' where r': "rd_zadd R k v sc (w_redis w) = (Inr (), r')" "up r'" using zadd_up by blast
  have "w_redis w' = r'" using r'(1) assms(2) by (auto simp: redis_def)
  with zadd_frame [OF r'(1)] assms(1) r'(2) show ?thesis by (simp add: orphan_def)
qed

lemma orphan_xadd:
  assumes "orphan st m (w_redis w)" and "t \<noteq> st" and "redis (rd_xadd R t fs n) w = (res, w')"
  shows "orphan st m (w_redis w')"
proof -
  from assms(1) have "up (w_redis w)" by (simp add: orphan_def)
  then obtain r' where r': "rd_xadd R t fs n (w_redis w) = (Inr (), r')" "up r'" using xadd_up by blast
  have "w_redis w' = r'" using r'(1) assms(3) by (auto simp: redis_def)
  with xadd_pend [OF r'(1)] xadd_other [OF r'(1) not_sym [OF assms(2)]] assms(1) r'(2) show ?thesis
    by (simp add: orphan_def)
qed

lemma orphan_ack:
  assumes "orphan st m (w_redis w)" and "(t, i) \<noteq> (st, fst m)" and "ack R t i s w = (res, s', w')"
  shows "orphan st m (w_redis w') \<and> res = Inr ()"
proof -
  obtain r' where r': "ack R t i s w = (Inr (), s, w\<lparr>w_redis := r', w_seen := w_seen w @ [(w_db w, r')]\<rparr>)" "up r'"
    "fresh r' = fresh (w_redis w)"
    "pend r' = (pend (w_redis w))(t := filter (\<lambda>k. fst k \<noteq> i) (pend (w_redis w) t))"
    by (rule ack_goes [of w t i s]) (use assms(1) in \<open>auto simp: orphan_def\<close>)
  with assms show ?thesis by (auto simp: orphan_def)
qed

lemma orphan_handle_success:
  "orphan st m (w_redis w) \<Longrightarrow> handle_success q s e n t w = (res, s', w') \<Longrightarrow> orphan st m (w_redis w')"
  by (auto simp: handle_success_def Let_def commit_def split: sum.splits)

lemma orphan_handle_failure:
  assumes "orphan st m (w_redis w)" and "st \<noteq> STREAM_DLQ" and "handle_failure R q s e n t x w = (res, s', w')"
  shows "orphan st m (w_redis w')"
proof -
  have c: "orphan st m (w_redis (commit d w))" for d using assms(1) by (simp add: commit_def)
  have "orphan st m (w_redis w'')"
    if "redis (schedule_retry R 0 k (Aware 0 u)) (commit d w) = (r, w'')" for k u d r w''
    using orphan_zadd [OF c] that by (simp add: redis_schedule)
  moreover have "orphan st m (w_redis w'')"
    if "redis (publish_deadletter R k u) (commit d w) = (r, w'')" for k u d r w''
    using orphan_xadd [OF c] assms(2) that unfolding redis_publish_dead by metis
  ultimately show ?thesis using assms(1,3)
    by (auto simp: handle_failure_def Let_def split: if_splits sum.splits prod.splits)
qed

lemma orphan_process_event:
  assumes "orphan st m (w_redis w)" and "st \<noteq> STREAM_DLQ" and "me_others_redis E = id"
    and "(t, i) \<noteq> (st, fst m)" and "process_event R E t i e s w = (res, s', w')"
  shows "orphan st m (w_redis w')"
proof -
  have "orphan st m (w_redis w2)" if w1: "orphan st m (w_redis w1)" and "work_on R E t i n e' s1 w1 = (r2, s2, w2)"
    for n e' s1 w1 r2 s2 w2
  proof -
    obtain r3 s3 w3 where tr: "try_event R E t i n e' s1 w1 = (r3, s3, w3)" by (metis prod_cases3)
    then have "orphan st m (w_redis w3)"
      using w1 orphan_ack [OF _ assms(4)]
      by (auto simp: try_event_def dest!: orphan_handle_success [rotated] split: sum.splits prod.splits)
    with that(2) tr assms(2) orphan_ack [OF _ assms(4)] show ?thesis
      by (auto simp: work_on_def dest!: orphan_handle_failure [rotated 2] split: sum.splits prod.splits)
  qed
  moreover have "orphan st m (w_redis (others E (commit d w)))" for d
    using assms(1,3) by (simp add: others_def commit_def)
  ultimately have go: "orphan st m (w_redis w2)"
    if "work_on R E t i n e' s1 (others E (commit d w)) = (r2, s2, w2)" for n e' s1 d r2 s2 w2
    using that by blast
  show ?thesis
    using assms(1,5) by (auto simp: process_event_def Let_def dest: go split: sum.splits prod.splits)
qed

lemma orphan_process_message:
  assumes "orphan st m (w_redis w)" and "st \<noteq> STREAM_DLQ" and "me_others_redis E = id"
    and "(t, fst k) \<noteq> (st, fst m)" and "process_message R E t k s w = (res, s', w')"
  shows "orphan st m (w_redis w')"
  using assms(1,5) orphan_ack [OF assms(1,4)] orphan_process_event [OF assms(1-4)]
  by (cases k) (auto simp: process_message_def split: if_splits option.splits sum.splits)

lemma orphan_drain_messages:
  assumes "orphan st m (w_redis w)" and "st \<noteq> STREAM_DLQ" and "\<And>k. me_others_redis (Es k) = id"
    and "\<forall>k \<in> set ms. (t, fst k) \<noteq> (st, fst m)" and "drain_messages R Es t ms s w = (res, s', w')"
  shows "orphan st m (w_redis w')"
  using assms
proof (induction ms arbitrary: Es s w)
  case Nil
  then show ?case by simp
next
  case (Cons k ms)
  obtain r1 s1 w1 where p: "process_message R (Es 0) t k s w = (r1, s1, w1)" by (metis prod_cases3)
  have "orphan st m (w_redis w1)"
    by (rule orphan_process_message [OF Cons.prems(1,2,3) _ p]) (use Cons.prems(4) in simp)
  with Cons.IH [of w1 "\<lambda>k. Es (Suc k)" s1] Cons.prems p show ?case by (cases r1) simp_all
qed

lemma orphan_drain_streams:
  assumes "orphan st m (w_redis w)" and "st \<noteq> STREAM_DLQ" and "\<And>j k. me_others_redis (Es j k) = id"
    and "\<forall>(t, ms) \<in> set rs. \<forall>k \<in> set ms. (t, fst k) \<noteq> (st, fst m)"
    and "drain_streams R h Es rs s w = (res, s', w')"
  shows "orphan st m (w_redis w')"
  using assms
proof (induction rs arbitrary: h Es s w)
  case Nil
  then show ?case by simp
next
  case (Cons p rs)
  obtain t ms where tm: "p = (t, ms)" by (cases p)
  obtain r1 s1 w1 where d: "drain_messages R (Es 0) t ms s w = (r1, s1, w1)" by (metis prod_cases3)
  have "orphan st m (w_redis w1)"
    by (rule orphan_drain_messages [OF Cons.prems(1,2) _ _ d]) (use Cons.prems(3,4) tm in auto)
  with Cons.IH [of w1 "\<lambda>j. Es (Suc j)" "\<lambda>k. h (Suc k)" s1] Cons.prems d tm show ?case
    by (cases r1) (auto split: if_splits)
qed

lemma orphan_read:
  assumes "orphan st m (w_redis w)" and "redis (rd_xreadgroup R GROUP c ss n) w = (res, w')"
  obtains results where "res = Inr results" and "orphan st m (w_redis w')"
    and "\<forall>(t, ms) \<in> set results. \<forall>k \<in> set ms. (t, fst k) \<noteq> (st, fst m)"
proof -
  from assms(1) have "up (w_redis w)" by (simp add: orphan_def)
  from xread_up [OF this, of c ss n] obtain results r' where
    r': "rd_xreadgroup R GROUP c ss n (w_redis w) = (Inr results, r')" "up r'" by blast
  have new: "fresh (w_redis w) t = ms @ fresh r' t" "pend r' t = pend (w_redis w) t @ ms" if "(t, ms) \<in> set results" for t ms
    using xread_new [OF r'(1) that] by blast+
  have "orphan st m r'"
  proof (cases "st \<in> fst ` set results")
    case True
    then obtain ms where "(st, ms) \<in> set results" by force
    from new [OF this] assms(1) r'(2) show ?thesis by (simp add: orphan_def)
  next
    case False
    with xread_other [OF r'(1)] assms(1) r'(2) show ?thesis by (simp add: orphan_def)
  qed
  moreover have "(t, fst k) \<noteq> (st, fst m)" if "(t, ms) \<in> set results" "k \<in> set ms" for t ms k
  proof
    assume eq: "(t, fst k) = (st, fst m)"
    with new(1) [OF that(1)] that(2) have "k \<in> set (fresh (w_redis w) st)" by simp
    with assms(1) eq show False by (simp add: orphan_def)
  qed
  ultimately show thesis using that r' assms(2) by (fastforce simp: redis_def)
qed

lemma orphan_worker_loop:
  assumes "orphan st m (w_redis w)" and "st \<noteq> STREAM_DLQ"
    and "\<And>it j k. it \<in> set its \<Longrightarrow> me_others_redis (it_env it j k) = id"
    and "worker_loop R S name its s w = (res, s', w')"
  shows "orphan st m (w_redis w')"
  using assms
proof (induction its arbitrary: s w)
  case Nil
  then show ?case by simp
next
  case (Cons it its)
  let ?read = "rd_xreadgroup R GROUP name [STREAM_INCOMING, STREAM_RETRY] (worker_xreadgroup_count S)"
  obtain rr w1 where rd: "redis ?read w = (rr, w1)" by force
  obtain results where "rr = Inr results" and w1: "orphan st m (w_redis w1)"
    and res: "\<forall>(t, ms) \<in> set results. \<forall>k \<in> set ms. (t, fst k) \<noteq> (st, fst m)"
    by (rule orphan_read [OF Cons.prems(1) rd])
  obtain r2 s2 w2 where d: "drain_streams R (it_halt it) (it_env it) results s w1 = (r2, s2, w2)" by (metis prod_cases3)
  have "orphan st m (w_redis w2)"
    by (rule orphan_drain_streams [OF w1 Cons.prems(2) _ res d], rule Cons.prems(3), simp)
  with Cons.IH [of w2 s2] Cons.prems rd \<open>rr = Inr results\<close> d show ?case by (cases r2) simp_all
qed

lemma orphan_reclaim: "orphan st m (w_redis w) \<Longrightarrow> orphan st m (w_redis (reclaim_orphans R c ss w))"
proof (induction ss arbitrary: w)
  case (Cons t ss)
  from Cons.prems have "up (w_redis w)" by (simp add: orphan_def)
  then obtain ms r' where r': "rd_xautoclaim R t GROUP c 60000 100 (w_redis w) = (Inr ms, r')" "up r'"
    using xclaim_up by blast
  have "orphan st m r'" using xclaim_frame [OF r'(1)] r'(2) Cons.prems by (auto simp: orphan_def)
  with Cons.IH r'(1) show ?case by (simp add: redis_def)
qed simp

end


section \<open>Registration is by name\<close>

lemma filter_update_where_same:
  assumes "\<And>x. Q (f x) = Q x"
  shows "filter Q (update_where P f xs) = update_where P f (filter Q xs)"
  using assms by (induction xs) (auto simp: update_where_def)

text \<open>Registering gives exactly one active worker of the name, with a fresh heartbeat: a name
  already known keeps its row and id, whatever its old status, a new one gets one new row, and no
  other worker changes.\<close>

theorem registration_by_name:
  assumes "schema_ok d" and "name \<in> wk_worker_name ` set (workers d) \<or> wid \<notin> wk_id ` set (workers d)"
    and "length name \<le> 255" and "NUL \<notin> set name"
  shows "\<exists>w d'. register_worker wid (t1, t2, t3) name d = Inr (w, d') \<and> schema_ok d'
    \<and> filter (\<lambda>v. wk_worker_name v = name) (workers d') = [w]
    \<and> wk_status w = ''active'' \<and> wk_last_heartbeat_at w = t1 \<and> wk_current_event_id w = None
    \<and> (\<forall>v \<in> set (workers d). wk_worker_name v = name \<longrightarrow> wk_id w = wk_id v)
    \<and> filter (\<lambda>v. wk_worker_name v \<noteq> name) (workers d') = filter (\<lambda>v. wk_worker_name v \<noteq> name) (workers d)"
proof -
  have dist: "distinct (map wk_worker_name (workers d))" "distinct (map wk_id (workers d))"
    using assms(1) by (simp_all add: schema_ok_def worker_keys_ok_def)
  show ?thesis
  proof (rule scalar_one_or_none_cases [OF dist(1), of name])
    assume none: "scalar_one_or_none (\<lambda>w. wk_worker_name w = name) (workers d) = Inr None"
      "name \<notin> wk_worker_name ` set (workers d)"
    let ?w = "\<lparr>wk_id = wid, wk_worker_name = name, wk_status = ''active'', wk_last_heartbeat_at = t1,
      wk_current_event_id = None, wk_created_at = t2, wk_updated_at = t3\<rparr>"
    have ins: "insert_worker ?w d = Inr (d\<lparr>workers := workers d @ [?w]\<rparr>)"
      using none(2) assms(2-4) by (simp add: insert_worker_def worker_columns_def column_error_def)
    have "filter (\<lambda>v. wk_worker_name v = name) (workers d) = []"
      using none(2) by (auto simp: filter_empty_conv)
    with none ins insert_worker_ok [OF assms(1) ins] show ?thesis
      by (intro exI [of _ ?w] exI [of _ "d\<lparr>workers := workers d @ [?w]\<rparr>"]) (auto simp: register_worker_def Let_def)
  next
    fix v
    assume v: "scalar_one_or_none (\<lambda>w. wk_worker_name w = name) (workers d) = Inr (Some v)"
      "v \<in> set (workers d)" "wk_worker_name v = name"
    let ?P = "\<lambda>x. wk_id x = wk_id v" and ?f = "reactivate t1 t3"
    have same: "?P x \<longleftrightarrow> wk_worker_name x = name" if "x \<in> set (workers d)" for x
      using dist [unfolded distinct_map, THEN conjunct2] that v(2,3) by (auto dest: inj_onD)
    have one: "filter (\<lambda>x. wk_worker_name x = name) (workers d) = [v]"
      using filter_key_distinct [OF dist(1), of v] v by simp
    have "filter (\<lambda>x. wk_worker_name x = name) (workers (update_workers ?P ?f d)) = [?f v]"
      by (simp add: update_workers_def filter_update_where_same one) (simp add: update_where_def)
    moreover have "filter (\<lambda>x. wk_worker_name x \<noteq> name) (workers (update_workers ?P ?f d))
        = filter (\<lambda>x. wk_worker_name x \<noteq> name) (workers d)"
      using same by (auto simp: update_workers_def filter_update_where_same intro!: update_where_none)
    moreover have "schema_ok (update_workers ?P ?f d)" by (rule update_workers_ok [OF assms(1)]) simp
    moreover have "register_worker wid (t1, t2, t3) name d = Inr (?f v, update_workers ?P ?f d)"
      using v by (simp add: register_worker_def)
    moreover have "\<forall>x \<in> set (workers d). wk_worker_name x = name \<longrightarrow> wk_id (?f v) = wk_id x"
      using same [THEN iffD2, symmetric] by simp
    ultimately show ?thesis by (intro exI [of _ "?f v"] exI [of _ "update_workers ?P ?f d"]) simp
  qed
qed

section \<open>Witnesses\<close>

definition ex_run_stamps :: run_stamps where
  "ex_run_stamps = \<lparr>rs_gc_now = seconds 10, rs_worker_id = ''w9'', rs_register = (seconds 11, seconds 11, seconds 11),
     rs_stopped = seconds 20\<rparr>"

definition ex_iteration :: "'r iteration" where
  "ex_iteration = \<lparr>it_halt = (\<lambda>_. False), it_env = (\<lambda>_ _. ex_menv)\<rparr>"

lemma ex_world_ok: "schema_ok (w_db (ex_world ex_queued))" "schema_ok (w_db (ex_world ex_poison))"
  using ex_deliverable(1,2) unfolding deliverable_defs by blast+


definition ex_menv_n :: "nat \<Rightarrow> mem_redis message_env" where
  "ex_menv_n k = \<lparr>me_started_at = 10, me_claimed_at = 20, me_success = ex_stamps (''s'' @ show_nat k),
     me_failure = ex_stamps (''f'' @ show_nat k), me_random = (\<lambda>_. 1 / 2), me_others = id, me_others_redis = id\<rparr>"



theorem registration_by_name_witness:
  "\<exists>w d'. register_worker ''w9'' (5, 5, 5) ''w1'' (w_db (ex_world ex_queued)) = Inr (w, d') \<and> wk_id w = ''w1''
    \<and> length (workers d') = 1"
  using registration_by_name [OF ex_world_ok(1), of "''w1''" "''w9''" 5 5 5]
  by (auto simp: ex_world_def ex_worker_def register_worker_def scalar_one_or_none_def update_workers_def)

end
