(* ===== verification/System.thy ===== *)
theory System
  imports Replay RetryScheduler WorkerRuns "HOL-Library.Sublist"
begin

text \<open>
  The components together, as a transition system on the committed database and the services.
  One \<open>sys_step\<close> is a submission, a worker's claim, a worker's handling of an event it claimed
  (with any session it may have), a delivery from a stream, an acknowledgement, a scheduler
  wake-up, a replay, or one of the worker-table operations. Claim and handling are separate steps,
  so everything may happen between them.

  \<open>lifecycle_ok\<close> is the invariant: the schema holds, an event is in one of six states, and a
  dead-lettered event has a dead letter. \<open>grows\<close> says that no event or application is ever lost
  or renamed.
\<close>

definition event_statuses :: "string list" where
  "event_statuses = [''received'', ''queued'', ''processing'', ''retrying'', ''succeeded'', ''dead_lettered'']"

text \<open>The second and third part of the invariant, up to dead letters still to be inserted.\<close>

definition statuses_upto :: "uuid set \<Rightarrow> db \<Rightarrow> bool" where
  "statuses_upto X d \<longleftrightarrow> (\<forall>e \<in> set (events d). ev_status e \<in> set event_statuses
     \<and> (ev_status e = ''dead_lettered'' \<longrightarrow> ev_id e \<in> X \<union> dl_event_id ` set (dead_letters d)))"

abbreviation statuses_ok :: "db \<Rightarrow> bool" where
  "statuses_ok \<equiv> statuses_upto {}"

definition lifecycle_ok :: "db \<Rightarrow> bool" where
  "lifecycle_ok d \<longleftrightarrow> schema_ok d \<and> statuses_ok d"

text \<open>
  The history of the system: events and applications keep their identity, the attempts are an
  append-only ledger, dead letters are never withdrawn.
\<close>

definition ledger :: "db \<Rightarrow> (uuid \<times> uuid \<times> int \<times> string) list" where
  "ledger d = map (\<lambda>a. (at_id a, at_event_id a, at_attempt_number a, at_status a)) (event_attempts d)"

definition evolves :: "db \<Rightarrow> db \<Rightarrow> bool" where
  "evolves d d' \<longleftrightarrow> grows d d' \<and> prefix (ledger d) (ledger d')
     \<and> prefix (map (\<lambda>l. (dl_id l, dl_event_id l)) (dead_letters d)) (map (\<lambda>l. (dl_id l, dl_event_id l)) (dead_letters d'))"

text \<open>Interference that other steps may cause inside a submission.\<close>

definition tame :: "(db \<Rightarrow> db) \<Rightarrow> bool" where
  "tame f \<longleftrightarrow> benign f \<and> (\<forall>d. evolves d (f d) \<and> (statuses_ok d \<longrightarrow> statuses_ok (f d))
     \<and> (rows_typed d \<longrightarrow> rows_typed (f d)))"

inductive sys_step ::
  "'r redis_api \<Rightarrow> 'h http_api \<Rightarrow> settings \<Rightarrow> db \<times> ('r, 'h) services \<Rightarrow> db \<times> ('r, 'h) services \<Rightarrow> bool"
  for R :: "'r redis_api" and H :: "'h http_api" and S :: settings where
  submit: "tame (env_app E) \<Longrightarrow> tame (env_ev E) \<Longrightarrow> fresh_ids E p d \<Longrightarrow>
    ingest_event R H S E t p d sv = (res, d', sv') \<Longrightarrow> sys_step R H S (d, sv) (d', sv')"
| read: "rd_xreadgroup R GROUP name streams n (sv_redis sv) = (res, r') \<Longrightarrow>
    sys_step R H S (d, sv) (d, sv\<lparr>sv_redis := r'\<rparr>)"
| claim: "save_event e (e\<lparr>ev_status := ''processing'', ev_updated_at := t\<rparr>) d = Inr d' \<Longrightarrow>
    sys_step R H S (d, sv) (d', sv)"
| handle: "work_on R E st i n e s \<lparr>w_db = d, w_redis = sv_redis sv, w_seen = []\<rparr> = (res, s', w') \<Longrightarrow>
    sys_step R H S (d, sv) (w_db w', sv\<lparr>sv_redis := w_redis w'\<rparr>)"
| acknowledge: "rd_xack R st GROUP i (sv_redis sv) = (res, r') \<Longrightarrow>
    sys_step R H S (d, sv) (d, sv\<lparr>sv_redis := r'\<rparr>)"
| flush: "sys_step R H S (d, sv) (d, sv\<lparr>sv_redis := scheduler_tick R now (sv_redis sv)\<rparr>)"
| replay: "replay_dead_letter R aid ts i d (sv_redis sv) = (res, d', r') \<Longrightarrow>
    sys_step R H S (d, sv) (d', sv\<lparr>sv_redis := r'\<rparr>)"
| beat: "sys_step R H S (d, sv) (heartbeat_tick reachable now u h d, sv)"
| sweep: "sys_step R H S (d, sv) (snd (mark_stale_workers now u threshold d), sv)"
| register: "register_worker wid ts name d = Inr (w, d') \<Longrightarrow> sys_step R H S (d, sv) (d', sv)"
| collect: "sys_step R H S (d, sv) (snd (gc_stale_workers now d), sv)"
| reclaim: "rd_xautoclaim R stream GROUP name idle n (sv_redis sv) = (res, r') \<Longrightarrow>
    sys_step R H S (d, sv) (d, sv\<lparr>sv_redis := r'\<rparr>)"
| stop: "sys_step R H S (d, sv) (mark_worker_stopped u i d, sv)"

inductive_cases sys_stepE: "sys_step R H S (d, sv) (d', sv')"

section \<open>Every operation keeps the statuses\<close>

lemma statuses_cong:
  "events d' = events d \<Longrightarrow> set (dead_letters d) \<subseteq> set (dead_letters d') \<Longrightarrow> statuses_upto X d \<Longrightarrow> statuses_upto X d'"
  by (fastforce simp: statuses_upto_def)

lemma statuses_update:
  assumes "statuses_upto X d" and "keeps_event_keys f"
    and "\<And>e. ev_status (f e) \<in> insert (ev_status e) (set event_statuses)"
    and "\<And>e. ev_status (f e) = ''dead_lettered'' \<Longrightarrow> ev_status e = ''dead_lettered'' \<or> i \<in> Y"
  shows "statuses_upto (X \<union> Y) (update_event i f d)"
  unfolding statuses_upto_def
proof (intro ballI conjI impI)
  fix e
  assume "e \<in> set (events (update_event i f d))"
  then obtain e0 where e0: "e0 \<in> set (events d)" "e = (if ev_id e0 = i then f e0 else e0)"
    unfolding in_update_event by blast
  then show "ev_status e \<in> set event_statuses"
    using assms(1) assms(3) [of e0] by (auto simp: statuses_upto_def)
  assume "ev_status e = ''dead_lettered''"
  then have "ev_status e0 = ''dead_lettered'' \<or> ev_id e0 \<in> Y"
    using e0(2) assms(4) [of e0] by (auto split: if_splits)
  moreover have "ev_id e = ev_id e0" using e0(2) assms(2) by (auto simp: keeps_event_keys_def)
  ultimately show "ev_id e \<in> (X \<union> Y) \<union> dl_event_id ` set (dead_letters (update_event i f d))"
    using assms(1) e0(1) by (auto simp: statuses_upto_def)
qed

lemma statuses_save:
  assumes "statuses_ok d" and "save_event old new d = Inr d'" and "ev_status new \<in> set event_statuses"
  shows "statuses_upto (if ev_status new = ''dead_lettered'' then {ev_id old} else {}) d'"
proof -
  have "d' = update_event (ev_id old) (flush_event old new) d"
    using assms(2) by (simp add: save_event_def split: if_splits)
  then show ?thesis
    using statuses_update [OF assms(1) keeps_flush, of old new "ev_id old"
        "if ev_status new = ''dead_lettered'' then {ev_id old} else {}"] assms(3)
    by (auto simp: flush_event_def split: if_splits)
qed

lemma statuses_insert_attempt: "statuses_upto X d \<Longrightarrow> insert_attempt a d = Inr d' \<Longrightarrow> statuses_upto X d'"
  by (rule statuses_cong) (simp_all add: insert_attempt_frame)

lemma statuses_insert_dead_letter:
  "statuses_upto {dl_event_id l} d \<Longrightarrow> insert_dead_letter l d = Inr d' \<Longrightarrow> statuses_ok d'"
  using insert_dead_letter_frame(1,5) [of l d d'] by (auto simp: statuses_upto_def)

lemma statuses_dead_letter_update:
  assumes "statuses_upto X d" and "\<And>l. dl_event_id (f l) = dl_event_id l"
  shows "statuses_upto X (update_dead_letter i f d)"
proof -
  have "map dl_event_id (dead_letters (update_dead_letter i f d)) = map dl_event_id (dead_letters d)"
    using assms(2) by (auto simp: update_dead_letter_def intro!: map_update_where)
  then have "dl_event_id ` set (dead_letters (update_dead_letter i f d)) = dl_event_id ` set (dead_letters d)"
    by (metis list.set_map)
  with assms(1) show ?thesis by (simp add: statuses_upto_def)
qed

lemma known_statuses [simp]:
  "''queued'' \<in> set event_statuses" "''processing'' \<in> set event_statuses" "''retrying'' \<in> set event_statuses"
  "''succeeded'' \<in> set event_statuses" "''dead_lettered'' \<in> set event_statuses" "''received'' \<in> set event_statuses"
  by (simp_all add: event_statuses_def)

lemma statuses_handle_success:
  "statuses_ok (w_db w) \<Longrightarrow> handle_success q s e n t w = (res, s', w') \<Longrightarrow> statuses_ok (w_db w')"
  by (auto simp: handle_success_def Let_def commit_def
      dest!: statuses_save [rotated] statuses_insert_attempt [rotated] split: sum.splits)

lemma redis_db: "redis c w = (res, w') \<Longrightarrow> w_db w' = w_db w"
  by (auto simp: redis_def split: prod.splits)

lemma ack_db: "ack R st i s w = (res, s', w') \<Longrightarrow> w_db w' = w_db w"
  by (auto simp: ack_def dest: redis_db split: prod.splits)

lemma statuses_ack: "statuses_ok (w_db w) \<Longrightarrow> ack R st i s w = (res, s', w') \<Longrightarrow> statuses_ok (w_db w')"
  by (simp add: ack_db)

lemma statuses_handle_failure:
  assumes "statuses_ok (w_db w)" and "handle_failure R q s e n t x w = (res, s', w')"
  shows "statuses_ok (w_db w')"
proof -
  have saved: "statuses_upto (if ev_status e' = ''dead_lettered'' then {ev_id e} else {}) d2"
    if "save_event e e' (w_db w) = Inr d1" "insert_attempt a d1 = Inr d2" "ev_status e' \<in> set event_statuses" for e' a d1 d2
    using statuses_insert_attempt [OF statuses_save [OF assms(1) that(1,3)] that(2)] .
  have dead: "statuses_ok d3"
    if "statuses_upto {ev_id e} d2" "insert_dead_letter (dead_letter_row q e msg) d2 = Inr d3" for d2 d3 msg
    using that by (intro statuses_insert_dead_letter [OF _ that(2)]) (simp add: dead_letter_row_def)
  show ?thesis using assms
    by (auto simp: handle_failure_def Let_def commit_def dest!: redis_db saved dest: dead
        split: if_splits sum.splits prod.splits)
qed

lemma statuses_work_on:
  assumes "statuses_ok (w_db w)" and "work_on R E st i n e s w = (res, s', w')"
  shows "statuses_ok (w_db w')"
proof -
  obtain r1 s1 w1 where t: "try_event R E st i n e s w = (r1, s1, w1)" by (metis prod_cases3)
  have "statuses_ok (w_db w1)"
    using t assms(1) by (auto simp: try_event_def dest: statuses_handle_success statuses_ack split: sum.splits prod.splits)
  with t assms(2) show ?thesis
    by (auto simp: work_on_def dest: statuses_handle_failure statuses_ack split: sum.splits prod.splits)
qed

lemma statuses_application:
  assumes "statuses_ok d" and "tame (env_app E)" and "get_or_create_application E n d = (res, d1)"
  shows "statuses_ok d1"
  using assms by (auto simp: get_or_create_application_def tame_def Let_def split: sum.splits option.splits if_splits)

lemma statuses_visible [simp]: "statuses_upto X (visible p d) = statuses_upto X d"
  by (simp add: visible_def statuses_upto_def split: option.split)

lemma statuses_insert_event:
  "statuses_ok d \<Longrightarrow> insert_event (new_event E a p) d = Inr d' \<Longrightarrow> statuses_ok d'"
  by (auto simp: insert_event_def statuses_upto_def new_event_def split: if_splits option.splits)

lemma statuses_get_or_create:
  assumes "statuses_ok d" and "tame (env_app E)" and "tame (env_ev E)" and "get_or_create_event E p d = (res, d')"
  shows "statuses_ok d'"
proof -
  obtain r1 d1 where a: "get_or_create_application E (ec_application_name p) d = (r1, d1)" by force
  then have d1: "statuses_ok d1" using statuses_application assms(1,2) by blast
  then have d2: "statuses_ok (env_ev E d1)" using assms(3) by (simp add: tame_def)
  have ins: "statuses_ok d3" if "insert_event (new_event E i p) (visible q (env_ev E d1)) = Inr d3" for i q d3
    using statuses_insert_event [OF _ that] d2 by simp
  show ?thesis using assms(4) a d1 d2
    by (auto simp: get_or_create_event_def Let_def dest: ins split: sum.splits option.splits prod.splits if_splits)
qed

lemma statuses_ingest:
  assumes "statuses_ok d" and "tame (env_app E)" and "tame (env_ev E)" and "ingest_event R H S E t p d sv = (res, d', sv')"
  shows "statuses_ok d'"
proof -
  obtain r1 d1 where g: "get_or_create_event E p d = (r1, d1)" by force
  have d1: "statuses_ok d1" by (rule statuses_get_or_create [OF assms(1-3) g])
  then have "statuses_ok (update_event i (write_status ''queued'' t) d1)" for i
    using statuses_update [OF d1 keeps_write_status, of "''queued''" t i "{}"] by simp
  with d1 assms(4) g show ?thesis
    by (auto simp: ingest_event_def Let_def split: sum.splits prod.splits if_splits)
qed

lemma statuses_replay:
  assumes "statuses_ok d" and "replay_dead_letter R aid ts i d r = (res, d', r')"
  shows "statuses_ok d'"
proof (cases "\<exists>dl e. replayable aid i d dl e")
  case False
  then have "\<nexists>dl e. replayable aid i d dl e" by blast
  from replay_dead_letter_stays [OF this, of R ts r] assms show ?thesis by auto
next
  case True
  then obtain dl e where go: "replayable aid i d dl e" by blast
  obtain t1 t2 t3 where ts: "ts = (t1, t2, t3)" by (cases ts)
  have "statuses_ok (d\<lparr>event_attempts := event_attempts d @ [a]\<rparr>)" for a
    using assms(1) by (simp add: statuses_upto_def)
  then have "statuses_ok (update_event (ev_id e) (requeue t2) (d\<lparr>event_attempts := event_attempts d @ [a]\<rparr>))" for a
    using statuses_update [OF _ keeps_requeue, of "{}" _ t2 "ev_id e" "{}"] by (simp add: requeue_def)
  then have "statuses_ok (requeued_db aid ts dl e d)"
    by (simp add: requeued_db_def ts statuses_dead_letter_update)
  with assms(2) replay_dead_letter_goes [OF go, of R ts r] show ?thesis
    by (auto simp: statuses_dead_letter_update split: sum.splits prod.splits)
qed

lemma statuses_workers_update: "statuses_ok d \<Longrightarrow> statuses_ok (update_workers P f d)"
  by (simp add: statuses_upto_def)

lemma statuses_workers_delete: "statuses_ok d \<Longrightarrow> statuses_ok (delete_workers P d)"
  by (simp add: statuses_upto_def delete_workers_def Let_def)

section \<open>What every operation leaves in place\<close>

text \<open>
  A worker writes through three operations only. A relation between databases that is reflexive
  and transitive and holds across each of them therefore holds across everything a worker does.
\<close>

locale worker_writes =
  fixes Q :: "db \<Rightarrow> db \<Rightarrow> bool"
  assumes refl: "Q d d"
    and trans: "Q d d1 \<Longrightarrow> Q d1 d2 \<Longrightarrow> Q d d2"
    and save: "save_event old new d = Inr d' \<Longrightarrow> Q d d'"
    and attempt: "insert_attempt a d = Inr d' \<Longrightarrow> Q d d'"
    and dead_letter: "insert_dead_letter l d = Inr d' \<Longrightarrow> Q d d'"
begin

lemma saved: "save_event old new d = Inr d1 \<Longrightarrow> insert_attempt a d1 = Inr d2 \<Longrightarrow> Q d d2"
  using trans [OF save attempt] .

lemma writes_success: "handle_success q s e n t w = (res, s', w') \<Longrightarrow> Q (w_db w) (w_db w')"
  by (auto simp: handle_success_def Let_def commit_def refl dest: saved split: sum.splits)

lemma writes_ack: "Q d (w_db w) \<Longrightarrow> ack R st i s w = (res, s', w') \<Longrightarrow> Q d (w_db w')"
  by (simp add: ack_db)

lemma writes_failure:
  assumes "handle_failure R q s e n t x w = (res, s', w')"
  shows "Q (w_db w) (w_db w')"
proof -
  have "Q (w_db w) d3" if "save_event e e' (w_db w) = Inr d1" "insert_attempt a d1 = Inr d2"
      "insert_dead_letter l d2 = Inr d3" for e' a l d1 d2 d3
    using trans [OF saved [OF that(1,2)] dead_letter [OF that(3)]] .
  with assms show ?thesis
    by (auto simp: handle_failure_def Let_def commit_def refl dest!: redis_db dest: saved
        split: if_splits sum.splits prod.splits)
qed

lemma writes_try: "try_event R E st i n e s w = (res, s', w') \<Longrightarrow> Q (w_db w) (w_db w')"
  by (auto simp: try_event_def refl dest: writes_success writes_ack split: sum.splits prod.splits)

lemma writes_work_on:
  assumes "work_on R E st i n e s w = (res, s', w')"
  shows "Q (w_db w) (w_db w')"
proof -
  obtain r1 s1 w1 where t: "try_event R E st i n e s w = (r1, s1, w1)" by (metis prod_cases3)
  have "Q (w_db w1) (w_db w')"
    using t assms by (auto simp: work_on_def refl dest: writes_failure writes_ack split: sum.splits prod.splits)
  with writes_try [OF t] show ?thesis by (rule trans)
qed

end

lemma evolves_refl [simp]: "evolves d d"
  by (simp add: evolves_def)

lemma evolves_trans: "evolves d d1 \<Longrightarrow> evolves d1 d2 \<Longrightarrow> evolves d d2"
  unfolding evolves_def by (elim conjE, intro conjI) (erule (1) grows_trans prefix_order.trans)+

lemma evolves_same:
  "applications d' = applications d \<Longrightarrow> ev_ident ` set (events d) \<subseteq> ev_ident ` set (events d') \<Longrightarrow>
   ledger d' = ledger d \<Longrightarrow> dead_letters d' = dead_letters d \<Longrightarrow> evolves d d'"
  by (simp add: evolves_def grows_def)

lemma evolves_update_event: "keeps_event_keys f \<Longrightarrow> evolves d (update_event i f d)"
  by (simp add: evolves_def grows_update_event ledger_def)

lemma evolves_insert_attempt: "insert_attempt a d = Inr d' \<Longrightarrow> evolves d d'"
  using insert_attempt_frame(1,2,4,5) [of a d d'] by (simp add: evolves_def grows_def ledger_def)

lemma evolves_insert_dead_letter: "insert_dead_letter l d = Inr d' \<Longrightarrow> evolves d d'"
  using insert_dead_letter_frame(1,2,4,5) [of l d d'] by (simp add: evolves_def grows_def ledger_def)

lemma evolves_update_dead_letter:
  "(\<And>l. dl_id (f l) = dl_id l \<and> dl_event_id (f l) = dl_event_id l) \<Longrightarrow> evolves d (update_dead_letter i f d)"
  by (simp add: evolves_def grows_def ledger_def update_dead_letter_def map_update_where)

lemma evolves_update_workers: "evolves d (update_workers P f d)"
  by (simp add: evolves_def grows_def ledger_def)

lemma evolves_delete_workers: "evolves d (delete_workers P d)"
proof -
  have "ledger (delete_workers P d) = ledger d"
    unfolding ledger_def delete_workers_def Let_def by (simp add: map_update_where)
  then show ?thesis by (simp add: evolves_same delete_workers_def Let_def)
qed

interpretation evolution: worker_writes evolves
  by unfold_locales
    (auto simp: save_event_def evolves_update_event evolves_insert_attempt evolves_insert_dead_letter
      intro: evolves_trans split: if_splits)

lemma evolves_events_only:
  "grows d d' \<Longrightarrow> event_attempts d' = event_attempts d \<Longrightarrow> dead_letters d' = dead_letters d \<Longrightarrow> evolves d d'"
  by (simp add: evolves_def ledger_def)

lemma evolves_get_or_create:
  assumes "tame (env_app E)" and "tame (env_ev E)" and "get_or_create_event E p d = (res, d')"
  shows "evolves d d'"
proof -
  obtain r1 d1 where a: "get_or_create_application E (ec_application_name p) d = (r1, d1)" by force
  then have d1: "evolves d d1"
    using assms(1) by (auto simp: get_or_create_application_def tame_def Let_def split: sum.splits option.splits if_splits)
  have d2: "evolves d (env_ev E d1)" using evolves_trans [OF d1] assms(2) by (simp add: tame_def)
  have "evolves d d3" if "insert_event e (visible q (env_ev E d1)) = Inr d3" for e q d3
  proof -
    have "evolves (env_ev E d1) d3"
    proof (rule evolves_events_only)
      show "grows (env_ev E d1) d3" using grows_trans [OF grows_visible grows_insert_event [OF that]] .
    qed (use that in \<open>auto simp: insert_event_def visible_def split: if_splits option.splits\<close>)
    with d2 show ?thesis by (rule evolves_trans)
  qed
  with assms(3) a d1 d2 show ?thesis
    by (auto simp: get_or_create_event_def Let_def split: sum.splits option.splits prod.splits if_splits)
qed

lemma evolves_ingest:
  assumes "tame (env_app E)" and "tame (env_ev E)" and "ingest_event R H S E t p d sv = (res, d', sv')"
  shows "evolves d d'"
proof -
  obtain r1 d1 where g: "get_or_create_event E p d = (r1, d1)" by force
  have d1: "evolves d d1" by (rule evolves_get_or_create [OF assms(1,2) g])
  have "evolves d (update_event i (write_status s t) d1)" for i s
    using evolves_trans [OF d1 evolves_update_event] by simp
  with d1 assms(3) g show ?thesis
    by (auto simp: ingest_event_def Let_def split: sum.splits prod.splits if_splits)
qed

lemma evolves_replay:
  assumes "replay_dead_letter R aid ts i d r = (res, d', r')"
  shows "evolves d d'"
proof (cases "\<exists>dl e. replayable aid i d dl e")
  case False
  then have "\<nexists>dl e. replayable aid i d dl e" by blast
  from replay_dead_letter_stays [OF this, of R ts r] assms show ?thesis by auto
next
  case True
  then obtain dl e where go: "replayable aid i d dl e" by blast
  obtain t1 t2 t3 where ts: "ts = (t1, t2, t3)" by (cases ts)
  have "evolves d (requeued_db aid ts dl e d)"
    unfolding requeued_db_def ts prod.case
    by (rule evolves_trans [OF evolves_insert_attempt [OF replay_attempt_inserts [OF go]]
          evolves_trans [OF evolves_update_event evolves_update_dead_letter]]) simp_all
  moreover have "evolves d (update_dead_letter j (\<lambda>l. l\<lparr>dl_replay_status := x\<rparr>) (requeued_db aid ts dl e d))" for j x
    using evolves_trans [OF calculation evolves_update_dead_letter] by simp
  ultimately show ?thesis using assms replay_dead_letter_goes [OF go, of R ts r]
    by (auto split: sum.splits prod.splits)
qed

lemma schema_replay:
  assumes "schema_ok d" and "replay_dead_letter R aid ts i d r = (res, d', r')"
  shows "schema_ok d'"
proof (cases "\<exists>dl e. replayable aid i d dl e")
  case False
  then have "\<nexists>dl e. replayable aid i d dl e" by blast
  from replay_dead_letter_stays [OF this, of R ts r] assms show ?thesis by auto
next
  case True
  then obtain dl e where go: "replayable aid i d dl e" by blast
  from requeued_db_ok [OF assms(1) go, of ts] assms(2) replay_dead_letter_goes [OF go, of R ts r] show ?thesis
    by (auto intro!: update_dead_letter_ok split: sum.splits prod.splits)
qed

lemma register_evolves: "register_worker wid ts name d = Inr (w, d') \<Longrightarrow> evolves d d'"
  by (auto simp: register_worker_def Let_def insert_worker_def evolves_update_workers intro!: evolves_same
      simp: ledger_def split: prod.splits sum.splits option.splits if_splits)

lemma register_statuses: "statuses_ok d \<Longrightarrow> register_worker wid ts name d = Inr (w, d') \<Longrightarrow> statuses_ok d'"
  by (auto simp: register_worker_def Let_def insert_worker_def statuses_workers_update
      intro: statuses_cong split: prod.splits sum.splits option.splits if_splits)

lemma schema_ingest:
  assumes "schema_ok d" and "tame (env_app E)" and "tame (env_ev E)" and "fresh_ids E p d"
    and "ingest_event R H S E t p d sv = (res, d', sv')"
  shows "schema_ok d'"
proof -
  have tame: "benign (env_app E)" "benign (env_ev E)" using assms(2,3) by (simp_all add: tame_def)
  obtain r1 d1 where g: "get_or_create_event E p d = (r1, d1)" by force
  have "schema_ok d1" using get_or_create_event_state [OF assms(1) tame assms(4) g] by blast
  with update_event_ok [OF this keeps_write_status] assms(5) g show ?thesis
    by (auto simp: ingest_event_def Let_def split: sum.splits prod.splits if_splits)
qed

section \<open>The invariant\<close>

lemma step_keeps_lifecycle:
  "sys_step R H S x y \<Longrightarrow> lifecycle_ok (fst x) \<Longrightarrow> lifecycle_ok (fst y)"
proof (induction rule: sys_step.induct)
  case (claim e t d d' sv)
  then show ?case
    using statuses_save [OF _ claim(1)] by (auto simp: lifecycle_ok_def dest: save_event_ok)
next
  case (handle E st i n e s d sv res s' w')
  have "committed_ok w'" by (rule work_on_committed [OF _ handle(1)]) (use handle(2) in \<open>simp add: committed_ok_def lifecycle_ok_def\<close>)
  with handle statuses_work_on [OF _ handle(1)] show ?case by (simp add: lifecycle_ok_def committed_ok_def)
qed (auto simp: lifecycle_ok_def heartbeat_tick_def mark_worker_active_def mark_worker_stopped_def
    mark_stale_workers_def gc_stale_workers_def Let_def update_workers_ok delete_workers_ok
    statuses_workers_update statuses_workers_delete
    dest: schema_ingest statuses_ingest schema_replay statuses_replay register_worker_ok register_statuses)

lemma step_evolves: "sys_step R H S x y \<Longrightarrow> evolves (fst x) (fst y)"
proof (induction rule: sys_step.induct)
  case (handle E st i n e s d sv res s' w')
  from evolution.writes_work_on [OF handle] show ?case by simp
qed (auto simp: heartbeat_tick_def mark_worker_active_def mark_worker_stopped_def mark_stale_workers_def
    gc_stale_workers_def Let_def evolves_update_workers evolves_delete_workers
    dest: evolves_ingest evolves_replay register_evolves evolution.save)

lemma reachable_history:
  "(sys_step R H S)\<^sup>*\<^sup>* x y \<Longrightarrow> lifecycle_ok (fst x) \<Longrightarrow> lifecycle_ok (fst y) \<and> evolves (fst x) (fst y)"
  by (induction rule: rtranclp_induct) (auto dest: step_keeps_lifecycle step_evolves intro: evolves_trans)

lemma lifecycle_ok_empty: "lifecycle_ok empty_db"
proof -
  have "statuses_ok empty_db" by (simp add: statuses_upto_def empty_db_def)
  then show ?thesis using schema_ok_empty by (simp add: lifecycle_ok_def)
qed

lemma find_snoc_fresh: "x \<notin> f ` set ys \<Longrightarrow> f y = x \<Longrightarrow> find (\<lambda>l. f l = x) (ys @ [y]) = Some y"
  by (induction ys) auto

lemma dead_lettering_result:
  assumes "redis_service R up zs fresh pend slen" and "deliverable E m e s (w_db w)" and "up (w_redis w)"
    and "process_event_stub (me_random E) e = Inl x" and "ev_max_attempts e \<le> ev_attempt_count e + 1"
    and "process_message R E st m s w = (res1, s1, w1)"
  shows "recorded (dead_event E x e)
        (failed_attempt (me_failure E) s e (ev_attempt_count e + 1) (me_started_at E) (exn_str x))
        [dead_letter_row (me_failure E) e (exn_str x)] (w_db w) (w_db w1)"
    and "up (w_redis w1)" and "ss_event s1 = Some (dead_event E x e)"
proof -
  from redis_service.deliver_dead_letter [OF assms(1-5), of st] obtain d1 d2 r1 r' s' where
    "process_message R E st m s w = (Inr (), s',
        w\<lparr>w_db := d2, w_redis := r', w_seen := w_seen w @ [(d1, w_redis w), (d2, w_redis w), (d2, r1), (d2, r')]\<rparr>)"
    and r: "recorded (dead_event E x e)
        (failed_attempt (me_failure E) s e (ev_attempt_count e + 1) (me_started_at E) (exn_str x))
        [dead_letter_row (me_failure E) e (exn_str x)] (w_db w) d2" "up r'" "ss_event s' = Some (dead_event E x e)"
    by blast
  with assms(6) have "w_db w1 = d2" "w_redis w1 = r'" "s1 = s'" by auto
  with r show "recorded (dead_event E x e)
        (failed_attempt (me_failure E) s e (ev_attempt_count e + 1) (me_started_at E) (exn_str x))
        [dead_letter_row (me_failure E) e (exn_str x)] (w_db w) (w_db w1)"
    and "up (w_redis w1)" and "ss_event s1 = Some (dead_event E x e)" by simp_all
qed

section \<open>Properties\<close>

text \<open>C8. In every state the system can reach from an empty database, through any interleaving of
  submissions, claims, handlings, deliveries, scheduler wake-ups, replays and worker maintenance,
  the schema holds, every event is received, queued, processing, retrying, succeeded or
  dead-lettered, and a dead-lettered event has a dead letter that can be looked up.\<close>

theorem reachable_lifecycle:
  assumes "(sys_step R H S)\<^sup>*\<^sup>* (empty_db, sv) (d, sv')"
  shows "schema_ok d
    \<and> (\<forall>e \<in> set (events d). ev_status e \<in> {''received'', ''queued'', ''processing'', ''retrying'', ''succeeded'', ''dead_lettered''})
    \<and> (\<forall>e \<in> set (events d). ev_status e = ''dead_lettered'' \<longrightarrow> (\<exists>l \<in> set (dead_letters d). dl_event_id l = ev_id e))"
proof -
  have "lifecycle_ok d" using reachable_history [OF assms] lifecycle_ok_empty by simp
  moreover have "\<exists>l \<in> set (dead_letters d). dl_event_id l = ev_id e"
    if "e \<in> set (events d)" "ev_status e = ''dead_lettered''" for e
  proof -
    have "ev_id e \<in> dl_event_id ` set (dead_letters d)"
      using \<open>lifecycle_ok d\<close> that by (simp add: lifecycle_ok_def statuses_upto_def)
    then show ?thesis by (rule imageE) auto
  qed
  ultimately show ?thesis by (simp add: lifecycle_ok_def statuses_upto_def event_statuses_def)
qed

text \<open>C9. The history is never rewritten: along any run of the system every event keeps its id,
  application and idempotency key, the attempts already recorded keep their id, event, number and
  outcome and new ones are only appended, and no dead letter is withdrawn.\<close>

theorem history_append_only:
  assumes "(sys_step R H S)\<^sup>*\<^sup>* (d, sv) (d', sv')" and "lifecycle_ok d"
  shows "(\<forall>e \<in> set (events d). \<exists>e' \<in> set (events d'). ev_id e' = ev_id e
        \<and> ev_application_id e' = ev_application_id e \<and> ev_idempotency_key e' = ev_idempotency_key e)
    \<and> prefix (ledger d) (ledger d')
    \<and> prefix (map (\<lambda>l. (dl_id l, dl_event_id l)) (dead_letters d)) (map (\<lambda>l. (dl_id l, dl_event_id l)) (dead_letters d'))"
proof -
  have ev: "evolves d d'" using reachable_history [OF assms(1)] assms(2) by simp
  have "\<exists>e' \<in> set (events d'). ev_id e' = ev_id e \<and> ev_application_id e' = ev_application_id e
      \<and> ev_idempotency_key e' = ev_idempotency_key e" if "e \<in> set (events d)" for e
  proof -
    have "ev_ident e \<in> ev_ident ` set (events d')" using ev that unfolding evolves_def grows_def by blast
    then show ?thesis by (rule imageE) auto
  qed
  with ev show ?thesis by (simp add: evolves_def)
qed

lemma select_cached:
  assumes "schema_ok d" and "get_event i d \<noteq> None" and "ss_event s = Some c" and "ev_id c = i"
  shows "select_event i s d = Inr (Some c)"
  using assms by (auto simp: select_event_def scalar_event_by_id)

text \<open>C36. A replay can be lost by the worker that dead-lettered the event: if no other event passed
  through its session since, the session still holds the dead-lettered object, the delivery of
  the replayed entry is taken for a redelivery of a finished event and acknowledged, and the
  event stays queued in the database with nothing on the way for it.\<close>

theorem replay_lost_by_idle_worker:
  assumes "redis_service R up zs fresh pend slen" and "deliverable E m e s (w_db w)" and "up (w_redis w)"
    and "process_event_stub (me_random E) e = Inl x" and "ev_max_attempts e \<le> ev_attempt_count e + 1"
    and "process_message R E st m s w = (res1, s1, w1)"
    and "replay_dead_letter R aid ts (st_dead_letter_id (me_failure E)) (w_db w1) (w_redis w1) = (Inr e2, d2, r2)"
    and "map_of (snd m2) ''event_id'' = Some (ev_id e)"
    and "process_message R E2 st2 m2 s1 (w1\<lparr>w_db := d2, w_redis := r2\<rparr>) = (res2, s2, w2)"
  shows "res2 = Inr () \<and> w_db w2 = d2 \<and> map_option ev_status (get_event (ev_id e) (w_db w2)) = Some ''queued''
    \<and> fst m2 \<notin> fst ` set (pend (w_redis w2) st2)"
proof -
  note rec = dead_lettering_result(1) [OF assms(1-6)] and w1 = dead_lettering_result(2,3) [OF assms(1-6)]
  let ?i = "st_dead_letter_id (me_failure E)"
  obtain dl e1 where go: "replayable aid ?i (w_db w1) dl e1"
    using replay_dead_letter_stays [of aid ?i "w_db w1" R ts "w_redis w1"] assms(7) by fastforce
  have dls: "dead_letters (w_db w1) = dead_letters (w_db w) @ [dead_letter_row (me_failure E) e (exn_str x)]"
    "schema_ok (w_db w1)" "get_event (ev_id e) (w_db w1) = Some (dead_event E x e)"
    using rec by (simp_all add: recorded_def dead_event_def)
  have "?i \<notin> dl_id ` set (dead_letters (w_db w))" using assms(2) by (simp add: deliverable_defs)
  then have "get_dead_letter ?i (w_db w1) = Some (dead_letter_row (me_failure E) e (exn_str x))"
    unfolding get_dead_letter_def dls(1) by (rule find_snoc_fresh) (simp add: dead_letter_row_def)
  with go have "dl_event_id dl = ev_id e" by (auto simp: replayable_def dead_letter_row_def)
  with go have e1: "ev_id e1 = ev_id e" by (auto simp: replayable_def dest: get_event_SomeD)
  from redis_service.xadd_up [OF assms(1) w1(1)] obtain r' where r': "publish_incoming R (ev_id e1) (w_redis w1) = (Inr (), r')" "up r'"
    unfolding publish_incoming_def by blast
  with assms(7) replay_dead_letter_goes [OF go, of R ts "w_redis w1"]
  have d2: "d2 = requeued_db aid ts dl e1 (w_db w1)" and r2: "r2 = r'" by simp_all
  obtain t1 t2 t3 where ts: "ts = (t1, t2, t3)" by (cases ts)
  have q: "get_event (ev_id e) d2 = Some (requeue t2 e1)"
    using requeued_db_values(1) [OF go, of t1 t2 t3] e1 by (simp add: d2 ts)
  have "schema_ok d2" unfolding d2 by (rule requeued_db_ok [OF dls(2) go])
  then have "select_event (ev_id e) s1 d2 = Inr (Some (dead_event E x e))"
    by (rule select_cached) (use q w1(2) in \<open>simp_all add: dead_event_def\<close>)
  moreover have "ev_id e \<noteq> []" using assms(2) by (simp add: deliverable_defs)
  ultimately have p: "process_message R E2 st2 m2 s1 (w1\<lparr>w_db := d2, w_redis := r2\<rparr>)
      = ack R st2 (fst m2) (s1\<lparr>ss_event := Some (dead_event E x e)\<rparr>) (w1\<lparr>w_db := d2, w_redis := r2\<rparr>)"
    using assms(8) by (cases m2) (simp add: process_message_def dead_event_def terminal_statuses_def)
  have up2: "up (w_redis (w1\<lparr>w_db := d2, w_redis := r2\<rparr>))" using r'(2) r2 by simp
  obtain r3 where "ack R st2 (fst m2) (s1\<lparr>ss_event := Some (dead_event E x e)\<rparr>) (w1\<lparr>w_db := d2, w_redis := r2\<rparr>)
      = (Inr (), s1\<lparr>ss_event := Some (dead_event E x e)\<rparr>,
         w1\<lparr>w_db := d2, w_redis := r3, w_seen := w_seen w1 @ [(d2, r3)]\<rparr>)"
    "pend r3 = (pend r2)(st2 := filter (\<lambda>k. fst k \<noteq> fst m2) (pend r2 st2))"
    by (rule redis_service.ack_goes [OF assms(1) up2, of st2 "fst m2" "s1\<lparr>ss_event := Some (dead_event E x e)\<rparr>"]) simp
  with p assms(9) q show ?thesis by (auto simp: requeue_def)
qed

section \<open>Witnesses\<close>

lemma tame_id [simp]: "tame (\<lambda>d. d)"
  by (simp add: tame_def)

definition ex_submitted :: "db \<times> (mem_redis, unit) services" where
  "ex_submitted = snd (ingest_event mem_api no_http ex_settings (ex_env (\<lambda>d. d) ''e1'') 5 ex_payload empty_db ex_sv)"

lemma ex_submit_step: "sys_step mem_api no_http ex_settings (empty_db, ex_sv) ex_submitted"
proof -
  obtain res d' sv' where i: "ingest_event mem_api no_http ex_settings (ex_env (\<lambda>d. d) ''e1'') 5 ex_payload empty_db ex_sv
      = (res, d', sv')" by (metis prod_cases3)
  have "sys_step mem_api no_http ex_settings (empty_db, ex_sv) (d', sv')"
    by (rule sys_step.submit [OF _ _ _ i]) (simp_all add: ex_env_def fresh_ids_def empty_db_def)
  with i show ?thesis by (simp add: ex_submitted_def)
qed

lemma ex_submit_run:
  "(sys_step mem_api no_http ex_settings)\<^sup>*\<^sup>* (empty_db, ex_sv) (fst ex_submitted, snd ex_submitted)"
  using ex_submit_step by (intro r_into_rtranclp) simp

theorem reachable_lifecycle_witness:
  "schema_ok (fst ex_submitted) \<and> ev_status ` set (events (fst ex_submitted))
     \<subseteq> {''received'', ''queued'', ''processing'', ''retrying'', ''succeeded'', ''dead_lettered''}"
  using reachable_lifecycle [OF ex_submit_run] by blast

theorem history_append_only_witness:
  "prefix (ledger empty_db) (ledger (fst ex_submitted))"
proof -
  from history_append_only [OF ex_submit_run lifecycle_ok_empty] show ?thesis by simp
qed

theorem replay_lost_by_idle_worker_witness:
  "let (res1, s1, w1) = process_message mem_api ex_menv STREAM_INCOMING ex_msg ex_session (ex_world (ex_poison\<lparr>ev_attempt_count := 3\<rparr>));
       (res, d2, r2) = replay_dead_letter mem_api ''t9'' (100, 101, 102) ''f'' (w_db w1) (w_redis w1);
       (res2, s2, w2) = process_message mem_api ex_menv STREAM_INCOMING (8, [(''event_id'', ''e1'')]) s1 (w1\<lparr>w_db := d2, w_redis := r2\<rparr>)
   in map_option ev_status (get_event ''e1'' (w_db w2)) = Some ''queued''"
proof -
  let ?e = "ex_poison\<lparr>ev_attempt_count := 3\<rparr>"
  obtain res1 s1 w1 where p1: "process_message mem_api ex_menv STREAM_INCOMING ex_msg ex_session (ex_world ?e) = (res1, s1, w1)"
    by (metis prod_cases3)
  have stub: "process_event_stub (me_random ex_menv) ?e = Inl (SimulatedFailure ''forced failure via _force_fail flag'')"
    by (simp add: process_event_stub_def ex_delivery_defs dict_get_def)
  have lim: "ev_max_attempts ?e \<le> ev_attempt_count ?e + 1" by simp
  obtain res d2 r2 where rp: "replay_dead_letter mem_api ''t9'' (100, 101, 102) ''f'' (w_db w1) (w_redis w1) = (res, d2, r2)"
    by (metis prod_cases3)
  obtain res2 s2 w2 where p2: "process_message mem_api ex_menv STREAM_INCOMING (8, [(''event_id'', ''e1'')]) s1 (w1\<lparr>w_db := d2, w_redis := r2\<rparr>)
      = (res2, s2, w2)" by (metis prod_cases3)
  note rec = dead_lettering_result(1) [OF mem.redis_service_axioms ex_deliverable(3) ex_redis_views(1) stub lim p1]
    and u = dead_lettering_result(2) [OF mem.redis_service_axioms ex_deliverable(3) ex_redis_views(1) stub lim p1]
  have "\<exists>dl e1. replayable ''t9'' ''f'' (w_db w1) dl e1"
    using rec by (auto simp: recorded_def replayable_def get_dead_letter_def dead_letter_row_def dead_event_def failed_attempt_def)
      (simp_all add: ex_menv_def ex_stamps_def)
  then obtain dl e1 where go: "replayable ''t9'' ''f'' (w_db w1) dl e1" by blast
  from redis_service.xadd_up [OF mem.redis_service_axioms u] obtain r' where
    "publish_incoming mem_api (ev_id e1) (w_redis w1) = (Inr (), r')" unfolding publish_incoming_def by blast
  with rp replay_dead_letter_goes [OF go, of mem_api "(100, 101, 102)" "w_redis w1"] obtain e2 where "res = Inr e2" by auto
  with rp have rp': "replay_dead_letter mem_api ''t9'' (100, 101, 102) (st_dead_letter_id (me_failure ex_menv)) (w_db w1) (w_redis w1)
      = (Inr e2, d2, r2)" by (simp add: ex_menv_def ex_stamps_def)
  have m2: "map_of (snd (8, [(''event_id'', ''e1'')])) ''event_id'' = Some (ev_id ?e)" by (simp add: ex_delivery_defs)
  from replay_lost_by_idle_worker [OF mem.redis_service_axioms ex_deliverable(3) ex_redis_views(1) stub lim p1 rp' m2 p2]
  have "map_option ev_status (get_event ''e1'' (w_db w2)) = Some ''queued''" by (auto simp: ex_delivery_defs)
  with p1 rp p2 show ?thesis by simp
qed

end
