(* ===== verification/Migrations.thy ===== *)
theory Migrations
  imports Prelude
begin

text \<open>
  The migration \<^verbatim>\<open>api/alembic/versions/78e5781b3892_initial_schema.py\<close> and the mapped classes of
  \<^verbatim>\<open>api/app/models.py\<close> as table declarations. A \<open>catalog\<close> is the list of tables and named indexes of
  a database; the DDL statements act on it and raise as PostgreSQL does, on a taken name, a
  missing relation or reference, or a table others refer to. Indexes that implement constraints
  belong to their table. The declared metadata follows SQLAlchemy's rules for \<^verbatim>\<open>index=True\<close>,
  \<^verbatim>\<open>unique=True\<close> and nullability.
\<close>

section \<open>Catalogs\<close>

datatype sql_type = UUID | String nat | Text | Integer | JSONB | Timestamp

record column =
  col_name :: string
  col_type :: sql_type
  col_nullable :: bool
  col_default :: "string option"

datatype table_constraint =
    PrimaryKey "string list"
  | Unique "string option" "string list"
  | ForeignKey string string string string

record table =
  tb_name :: string
  tb_columns :: "column list"
  tb_constraints :: "table_constraint list"

record table_index =
  ix_name :: string
  ix_table :: string
  ix_columns :: "string list"

record catalog =
  cat_tables :: "table list"
  cat_indexes :: "table_index list"

definition mk_col :: "string \<Rightarrow> sql_type \<Rightarrow> bool \<Rightarrow> string option \<Rightarrow> column" where
  "mk_col name ty nullable def = \<lparr>col_name = name, col_type = ty, col_nullable = nullable, col_default = def\<rparr>"

definition mk_index :: "string \<Rightarrow> string \<Rightarrow> string list \<Rightarrow> table_index" where
  "mk_index name tab cols = \<lparr>ix_name = name, ix_table = tab, ix_columns = cols\<rparr>"

definition empty_catalog :: catalog where
  "empty_catalog = \<lparr>cat_tables = [], cat_indexes = []\<rparr>"

definition relation_names :: "catalog \<Rightarrow> string set" where
  "relation_names c = tb_name ` set (cat_tables c) \<union> ix_name ` set (cat_indexes c)"

fun referenced :: "table_constraint \<Rightarrow> string option" where
  "referenced (ForeignKey _ t _ _) = Some t"
| "referenced _ = None"

definition refers_to :: "table \<Rightarrow> string \<Rightarrow> bool" where
  "refers_to t n \<longleftrightarrow> list_ex (\<lambda>k. referenced k = Some n) (tb_constraints t)"

text \<open>The target of a foreign key: a table with a key on the referenced column.\<close>

definition has_key :: "table \<Rightarrow> string \<Rightarrow> bool" where
  "has_key t c \<longleftrightarrow> list_ex (\<lambda>k. case k of
     PrimaryKey cs \<Rightarrow> cs = [c] | Unique _ cs \<Rightarrow> cs = [c] | ForeignKey _ _ _ _ \<Rightarrow> False) (tb_constraints t)"

definition references_ok :: "catalog \<Rightarrow> table \<Rightarrow> bool" where
  "references_ok c t \<longleftrightarrow> list_all (\<lambda>k. case k of
     ForeignKey _ r rc _ \<Rightarrow> list_ex (\<lambda>u. tb_name u = r \<and> has_key u rc) (cat_tables c)
   | _ \<Rightarrow> True) (tb_constraints t)"

section \<open>Statements\<close>

datatype ddl =
    CreateTable table
  | CreateIndex table_index
  | DropIndex string string
  | DropTable string

fun apply_ddl :: "ddl \<Rightarrow> catalog \<Rightarrow> exn + catalog" where
  "apply_ddl (CreateTable t) c =
     (if tb_name t \<in> relation_names c then Inl (DatabaseError ''relation already exists'')
      else if \<not> references_ok c t then Inl (DatabaseError ''relation does not exist'')
      else Inr (c\<lparr>cat_tables := cat_tables c @ [t]\<rparr>))"
| "apply_ddl (CreateIndex i) c =
     (case find (\<lambda>t. tb_name t = ix_table i) (cat_tables c) of
        None \<Rightarrow> Inl (DatabaseError ''relation does not exist'')
      | Some t \<Rightarrow>
          if ix_name i \<in> relation_names c then Inl (DatabaseError ''relation already exists'')
          else if \<not> set (ix_columns i) \<subseteq> col_name ` set (tb_columns t) then Inl (DatabaseError ''column does not exist'')
          else Inr (c\<lparr>cat_indexes := cat_indexes c @ [i]\<rparr>))"
| "apply_ddl (DropIndex n t) c =
     (if n \<notin> ix_name ` set (cat_indexes c) then Inl (DatabaseError ''index does not exist'')
      else Inr (c\<lparr>cat_indexes := filter (\<lambda>i. ix_name i \<noteq> n) (cat_indexes c)\<rparr>))"
| "apply_ddl (DropTable n) c =
     (if n \<notin> tb_name ` set (cat_tables c) then Inl (DatabaseError ''table does not exist'')
      else if list_ex (\<lambda>t. tb_name t \<noteq> n \<and> refers_to t n) (cat_tables c)
      then Inl (DatabaseError ''other objects depend on it'')
      else Inr (c\<lparr>cat_tables := filter (\<lambda>t. tb_name t \<noteq> n) (cat_tables c),
                  cat_indexes := filter (\<lambda>i. ix_table i \<noteq> n) (cat_indexes c)\<rparr>))"

fun run_ddl :: "ddl list \<Rightarrow> catalog \<Rightarrow> exn + catalog" where
  "run_ddl [] c = Inr c"
| "run_ddl (s # ss) c = and_then (apply_ddl s c) (run_ddl ss)"

text \<open>\<^verbatim>\<open>env.py\<close> runs a script in one transaction, and PostgreSQL rolls DDL back.\<close>

definition run_migrations_online :: "ddl list \<Rightarrow> catalog \<Rightarrow> (exn + unit) \<times> catalog" where
  "run_migrations_online script c = (case run_ddl script c of
     Inl x \<Rightarrow> (Inl x, c)
   | Inr c' \<Rightarrow> (Inr (), c'))"

section \<open>The initial migration\<close>

definition applications_table :: table where
  "applications_table = \<lparr>tb_name = ''applications'', tb_columns = [
       mk_col ''id'' UUID False None,
       mk_col ''name'' (String 255) False None,
       mk_col ''created_at'' Timestamp False (Some ''now()'')],
     tb_constraints = [PrimaryKey [''id''],
       Unique None [''name'']]\<rparr>"

definition incident_summaries_table :: table where
  "incident_summaries_table = \<lparr>tb_name = ''incident_summaries'', tb_columns = [
       mk_col ''id'' UUID False None,
       mk_col ''workflow_id'' (String 255) False None,
       mk_col ''summary_text'' Text False None,
       mk_col ''model_name'' (String 128) True None,
       mk_col ''created_at'' Timestamp False (Some ''now()'')],
     tb_constraints = [PrimaryKey [''id'']]\<rparr>"

definition workers_table :: table where
  "workers_table = \<lparr>tb_name = ''workers'', tb_columns = [
       mk_col ''id'' UUID False None,
       mk_col ''worker_name'' (String 255) False None,
       mk_col ''status'' (String 32) False None,
       mk_col ''last_heartbeat_at'' Timestamp False (Some ''now()''),
       mk_col ''current_event_id'' UUID True None,
       mk_col ''created_at'' Timestamp False (Some ''now()''),
       mk_col ''updated_at'' Timestamp False (Some ''now()'')],
     tb_constraints = [PrimaryKey [''id''],
       Unique None [''worker_name'']]\<rparr>"

definition events_table :: table where
  "events_table = \<lparr>tb_name = ''events'', tb_columns = [
       mk_col ''id'' UUID False None,
       mk_col ''application_id'' UUID False None,
       mk_col ''workflow_id'' (String 255) False None,
       mk_col ''event_type'' (String 255) False None,
       mk_col ''service_name'' (String 255) False None,
       mk_col ''idempotency_key'' (String 512) False None,
       mk_col ''status'' (String 32) False None,
       mk_col ''payload_json'' JSONB False None,
       mk_col ''metadata_json'' JSONB False None,
       mk_col ''attempt_count'' Integer False None,
       mk_col ''max_attempts'' Integer False None,
       mk_col ''next_retry_at'' Timestamp True None,
       mk_col ''last_error'' Text True None,
       mk_col ''created_at'' Timestamp False (Some ''now()''),
       mk_col ''updated_at'' Timestamp False (Some ''now()'')],
     tb_constraints = [ForeignKey ''application_id'' ''applications'' ''id'' ''CASCADE'',
       PrimaryKey [''id''],
       Unique (Some ''uq_events_app_idempotency'') [''application_id'', ''idempotency_key'']]\<rparr>"

definition dead_letters_table :: table where
  "dead_letters_table = \<lparr>tb_name = ''dead_letters'', tb_columns = [
       mk_col ''id'' UUID False None,
       mk_col ''event_id'' UUID False None,
       mk_col ''reason'' Text False None,
       mk_col ''last_error'' Text True None,
       mk_col ''created_at'' Timestamp False (Some ''now()''),
       mk_col ''replayed_at'' Timestamp True None,
       mk_col ''replay_status'' (String 32) True None],
     tb_constraints = [ForeignKey ''event_id'' ''events'' ''id'' ''CASCADE'',
       PrimaryKey [''id'']]\<rparr>"

definition event_attempts_table :: table where
  "event_attempts_table = \<lparr>tb_name = ''event_attempts'', tb_columns = [
       mk_col ''id'' UUID False None,
       mk_col ''event_id'' UUID False None,
       mk_col ''attempt_number'' Integer False None,
       mk_col ''worker_id'' UUID True None,
       mk_col ''worker_name'' (String 255) True None,
       mk_col ''status'' (String 32) False None,
       mk_col ''error_message'' Text True None,
       mk_col ''metadata_json'' JSONB False None,
       mk_col ''started_at'' Timestamp False (Some ''now()''),
       mk_col ''finished_at'' Timestamp True None,
       mk_col ''duration_ms'' Integer True None],
     tb_constraints = [ForeignKey ''event_id'' ''events'' ''id'' ''CASCADE'',
       ForeignKey ''worker_id'' ''workers'' ''id'' ''SET NULL'',
       PrimaryKey [''id'']]\<rparr>"

definition upgrade :: "ddl list" where
  "upgrade = [
     CreateTable applications_table,
     CreateTable incident_summaries_table,
     CreateIndex (mk_index ''ix_incident_summaries_workflow_id'' ''incident_summaries'' [''workflow_id'']),
     CreateTable workers_table,
     CreateIndex (mk_index ''ix_workers_last_heartbeat_at'' ''workers'' [''last_heartbeat_at'']),
     CreateTable events_table,
     CreateIndex (mk_index ''ix_events_event_type'' ''events'' [''event_type'']),
     CreateIndex (mk_index ''ix_events_next_retry_at'' ''events'' [''next_retry_at'']),
     CreateIndex (mk_index ''ix_events_service_name'' ''events'' [''service_name'']),
     CreateIndex (mk_index ''ix_events_status'' ''events'' [''status'']),
     CreateIndex (mk_index ''ix_events_status_created_at'' ''events'' [''status'', ''created_at'']),
     CreateIndex (mk_index ''ix_events_workflow_id'' ''events'' [''workflow_id'']),
     CreateTable dead_letters_table,
     CreateIndex (mk_index ''ix_dead_letters_event_id'' ''dead_letters'' [''event_id'']),
     CreateTable event_attempts_table,
     CreateIndex (mk_index ''ix_event_attempts_event_id'' ''event_attempts'' [''event_id''])]"

definition downgrade :: "ddl list" where
  "downgrade = [
     DropIndex ''ix_event_attempts_event_id'' ''event_attempts'',
     DropTable ''event_attempts'',
     DropIndex ''ix_dead_letters_event_id'' ''dead_letters'',
     DropTable ''dead_letters'',
     DropIndex ''ix_events_workflow_id'' ''events'',
     DropIndex ''ix_events_status_created_at'' ''events'',
     DropIndex ''ix_events_status'' ''events'',
     DropIndex ''ix_events_service_name'' ''events'',
     DropIndex ''ix_events_next_retry_at'' ''events'',
     DropIndex ''ix_events_event_type'' ''events'',
     DropTable ''events'',
     DropIndex ''ix_workers_last_heartbeat_at'' ''workers'',
     DropTable ''workers'',
     DropIndex ''ix_incident_summaries_workflow_id'' ''incident_summaries'',
     DropTable ''incident_summaries'',
     DropTable ''applications'']"

section \<open>The mapped classes\<close>

datatype column_arg =
    Primary
  | UniqueColumn
  | Indexed
  | Nullable bool
  | ServerDefault string
  | References string string string

datatype mapped = mapped_column string sql_type bool "column_arg list"

record mapped_class =
  mc_tablename :: string
  mc_columns :: "mapped list"
  mc_table_args :: "table_constraint list"

text \<open>The third argument says whether the annotation is optional.\<close>

definition Application_class :: mapped_class where
  "Application_class = \<lparr>mc_tablename = ''applications'', mc_columns = [
       mapped_column ''id'' UUID False [Primary],
       mapped_column ''name'' (String 255) False [UniqueColumn, Nullable False],
       mapped_column ''created_at'' Timestamp False [ServerDefault ''now()'']],
     mc_table_args = []\<rparr>"

definition Event_class :: mapped_class where
  "Event_class = \<lparr>mc_tablename = ''events'', mc_columns = [
       mapped_column ''id'' UUID False [Primary],
       mapped_column ''application_id'' UUID False [References ''applications'' ''id'' ''CASCADE'', Nullable False],
       mapped_column ''workflow_id'' (String 255) False [Nullable False, Indexed],
       mapped_column ''event_type'' (String 255) False [Nullable False, Indexed],
       mapped_column ''service_name'' (String 255) False [Nullable False, Indexed],
       mapped_column ''idempotency_key'' (String 512) False [Nullable False],
       mapped_column ''status'' (String 32) False [Nullable False, Indexed],
       mapped_column ''payload_json'' JSONB False [Nullable False],
       mapped_column ''metadata_json'' JSONB False [Nullable False],
       mapped_column ''attempt_count'' Integer False [Nullable False],
       mapped_column ''max_attempts'' Integer False [Nullable False],
       mapped_column ''next_retry_at'' Timestamp True [Nullable True, Indexed],
       mapped_column ''last_error'' Text True [Nullable True],
       mapped_column ''created_at'' Timestamp False [ServerDefault ''now()''],
       mapped_column ''updated_at'' Timestamp False [ServerDefault ''now()'']],
     mc_table_args = [Unique (Some ''uq_events_app_idempotency'') [''application_id'', ''idempotency_key'']]\<rparr>"

definition EventAttempt_class :: mapped_class where
  "EventAttempt_class = \<lparr>mc_tablename = ''event_attempts'', mc_columns = [
       mapped_column ''id'' UUID False [Primary],
       mapped_column ''event_id'' UUID False [References ''events'' ''id'' ''CASCADE'', Nullable False, Indexed],
       mapped_column ''attempt_number'' Integer False [Nullable False],
       mapped_column ''worker_id'' UUID True [References ''workers'' ''id'' ''SET NULL'', Nullable True],
       mapped_column ''worker_name'' (String 255) True [Nullable True],
       mapped_column ''status'' (String 32) False [Nullable False],
       mapped_column ''error_message'' Text True [Nullable True],
       mapped_column ''metadata_json'' JSONB False [Nullable False],
       mapped_column ''started_at'' Timestamp False [ServerDefault ''now()''],
       mapped_column ''finished_at'' Timestamp True [Nullable True],
       mapped_column ''duration_ms'' Integer True [Nullable True]],
     mc_table_args = []\<rparr>"

definition DeadLetter_class :: mapped_class where
  "DeadLetter_class = \<lparr>mc_tablename = ''dead_letters'', mc_columns = [
       mapped_column ''id'' UUID False [Primary],
       mapped_column ''event_id'' UUID False [References ''events'' ''id'' ''CASCADE'', Nullable False, Indexed],
       mapped_column ''reason'' Text False [Nullable False],
       mapped_column ''last_error'' Text True [Nullable True],
       mapped_column ''created_at'' Timestamp False [ServerDefault ''now()''],
       mapped_column ''replayed_at'' Timestamp True [Nullable True],
       mapped_column ''replay_status'' (String 32) True [Nullable True]],
     mc_table_args = []\<rparr>"

definition Worker_class :: mapped_class where
  "Worker_class = \<lparr>mc_tablename = ''workers'', mc_columns = [
       mapped_column ''id'' UUID False [Primary],
       mapped_column ''worker_name'' (String 255) False [UniqueColumn, Nullable False],
       mapped_column ''status'' (String 32) False [Nullable False],
       mapped_column ''last_heartbeat_at'' Timestamp False [ServerDefault ''now()'', Indexed],
       mapped_column ''current_event_id'' UUID True [Nullable True],
       mapped_column ''created_at'' Timestamp False [ServerDefault ''now()''],
       mapped_column ''updated_at'' Timestamp False [ServerDefault ''now()'']],
     mc_table_args = []\<rparr>"

definition IncidentSummary_class :: mapped_class where
  "IncidentSummary_class = \<lparr>mc_tablename = ''incident_summaries'', mc_columns = [
       mapped_column ''id'' UUID False [Primary],
       mapped_column ''workflow_id'' (String 255) False [Nullable False, Indexed],
       mapped_column ''summary_text'' Text False [Nullable False],
       mapped_column ''model_name'' (String 128) True [Nullable True],
       mapped_column ''created_at'' Timestamp False [ServerDefault ''now()'']],
     mc_table_args = []\<rparr>"

text \<open>A column is nullable as it says, else as its annotation says; a primary key never is.\<close>

fun nullable_of :: "bool \<Rightarrow> column_arg list \<Rightarrow> bool" where
  "nullable_of dflt [] = dflt"
| "nullable_of dflt (Nullable b # as) = b"
| "nullable_of dflt (Primary # as) = False"
| "nullable_of dflt (_ # as) = nullable_of dflt as"

fun server_default_of :: "column_arg list \<Rightarrow> string option" where
  "server_default_of [] = None"
| "server_default_of (ServerDefault v # as) = Some v"
| "server_default_of (_ # as) = server_default_of as"

fun mapped_to_column :: "mapped \<Rightarrow> column" where
  "mapped_to_column (mapped_column name ty optional as) = mk_col name ty (nullable_of optional as) (server_default_of as)"

fun foreign_keys_of :: "mapped \<Rightarrow> table_constraint list" where
  "foreign_keys_of (mapped_column name ty optional as) =
     concat (map (\<lambda>a. case a of References t c od \<Rightarrow> [ForeignKey name t c od] | _ \<Rightarrow> []) as)"

fun named_with :: "column_arg \<Rightarrow> mapped \<Rightarrow> string list" where
  "named_with a (mapped_column name ty optional as) = (if a \<in> set as then [name] else [])"

definition class_table :: "mapped_class \<Rightarrow> table" where
  "class_table k = \<lparr>tb_name = mc_tablename k, tb_columns = map mapped_to_column (mc_columns k),
     tb_constraints = concat (map foreign_keys_of (mc_columns k))
       @ [PrimaryKey (concat (map (named_with Primary) (mc_columns k)))]
       @ map (\<lambda>n. Unique None [n]) (concat (map (named_with UniqueColumn) (mc_columns k)))
       @ mc_table_args k\<rparr>"

definition class_indexes :: "mapped_class \<Rightarrow> table_index list" where
  "class_indexes k = map (\<lambda>n. mk_index (''ix_'' @ mc_tablename k @ ''_'' @ n) (mc_tablename k) [n])
     (concat (map (named_with Indexed) (mc_columns k)))"

definition mapped_classes :: "mapped_class list" where
  "mapped_classes = [Application_class, Event_class, EventAttempt_class, DeadLetter_class, Worker_class, IncidentSummary_class]"

definition target_metadata :: catalog where
  "target_metadata = \<lparr>cat_tables = map class_table mapped_classes,
     cat_indexes = concat (map class_indexes mapped_classes)
       @ [mk_index ''ix_events_status_created_at'' ''events'' [''status'', ''created_at'']]\<rparr>"

section \<open>Undoing statements\<close>

text \<open>Every index and every foreign key belongs to tables of the catalog.\<close>

definition catalog_ok :: "catalog \<Rightarrow> bool" where
  "catalog_ok c \<longleftrightarrow> (\<forall>i \<in> set (cat_indexes c). ix_table i \<in> tb_name ` set (cat_tables c))
     \<and> (\<forall>t \<in> set (cat_tables c). \<forall>n. refers_to t n \<longrightarrow> n \<in> tb_name ` set (cat_tables c))"

lemma references_ok_refers:
  assumes "references_ok c t" and "refers_to t n"
  shows "n \<in> tb_name ` set (cat_tables c)"
proof -
  from assms(2) obtain k where k: "k \<in> set (tb_constraints t)" "referenced k = Some n"
    by (auto simp: refers_to_def list_ex_iff)
  from k(2) obtain a b od where "k = ForeignKey a n b od" by (cases k) simp_all
  with assms(1) k(1) show ?thesis by (fastforce simp: references_ok_def list_all_iff list_ex_iff)
qed

lemma create_table_keeps_catalog:
  assumes "catalog_ok c" and "apply_ddl (CreateTable t) c = Inr c'"
  shows "catalog_ok c'"
proof -
  from assms(2) have t: "references_ok c t" and c': "c' = c\<lparr>cat_tables := cat_tables c @ [t]\<rparr>"
    by (auto split: if_splits)
  with assms(1) references_ok_refers [OF t] show ?thesis by (auto simp: catalog_ok_def)
qed

lemma create_index_keeps_catalog:
  assumes "catalog_ok c" and "apply_ddl (CreateIndex i) c = Inr c'"
  shows "catalog_ok c'"
proof -
  from assms(2) obtain t where "find (\<lambda>t. tb_name t = ix_table i) (cat_tables c) = Some t"
    and c': "c' = c\<lparr>cat_indexes := cat_indexes c @ [i]\<rparr>"
    by (auto split: if_splits option.splits)
  then have "t \<in> set (cat_tables c)" "tb_name t = ix_table i" by (auto simp: find_Some_iff)
  then have "ix_table i \<in> tb_name ` set (cat_tables c)" by (metis imageI)
  with assms(1) c' show ?thesis by (auto simp: catalog_ok_def)
qed

fun inverse :: "ddl \<Rightarrow> ddl" where
  "inverse (CreateTable t) = DropTable (tb_name t)"
| "inverse (CreateIndex i) = DropIndex (ix_name i) (ix_table i)"
| "inverse s = s"

fun creates :: "ddl \<Rightarrow> bool" where
  "creates (CreateTable _) = True"
| "creates (CreateIndex _) = True"
| "creates _ = False"

lemma filter_fresh: "n \<notin> f ` set xs \<Longrightarrow> filter (\<lambda>x. f x \<noteq> n) xs = xs"
  by (induction xs) auto

lemma drop_undoes_create_table:
  assumes ok: "catalog_ok c" and run: "apply_ddl (CreateTable t) c = Inr c'"
  shows "apply_ddl (DropTable (tb_name t)) c' = Inr c"
proof -
  from run have fresh: "tb_name t \<notin> tb_name ` set (cat_tables c)" and c': "c' = c\<lparr>cat_tables := cat_tables c @ [t]\<rparr>"
    by (auto simp: relation_names_def split: if_splits)
  have "\<not> refers_to u (tb_name t)" if "u \<in> set (cat_tables c)" for u
    using ok fresh that by (auto simp: catalog_ok_def)
  moreover have "tb_name t \<notin> ix_table ` set (cat_indexes c)" using ok fresh by (auto simp: catalog_ok_def)
  ultimately show ?thesis
    using fresh by (simp add: c' filter_fresh list_ex_iff)
qed

lemma drop_undoes_create_index:
  assumes "apply_ddl (CreateIndex i) c = Inr c'"
  shows "apply_ddl (DropIndex (ix_name i) (ix_table i)) c' = Inr c"
proof -
  from assms have "ix_name i \<notin> ix_name ` set (cat_indexes c)" "c' = c\<lparr>cat_indexes := cat_indexes c @ [i]\<rparr>"
    by (auto simp: relation_names_def split: if_splits option.splits)
  then show ?thesis by (simp add: filter_fresh)
qed

lemma undo_one:
  assumes "catalog_ok c" and "creates s" and "apply_ddl s c = Inr c'"
  shows "apply_ddl (inverse s) c' = Inr c" and "catalog_ok c'"
proof -
  have "apply_ddl (inverse s) c' = Inr c \<and> catalog_ok c'"
  proof (cases s)
    case (CreateTable t)
    with assms drop_undoes_create_table create_table_keeps_catalog show ?thesis by (simp del: apply_ddl.simps)
  next
    case (CreateIndex i)
    with assms drop_undoes_create_index create_index_keeps_catalog show ?thesis by (simp del: apply_ddl.simps)
  qed (use assms(2) in simp_all)
  then show "apply_ddl (inverse s) c' = Inr c" and "catalog_ok c'" by blast+
qed

lemma run_ddl_append: "run_ddl (ss @ ts) c = and_then (run_ddl ss c) (run_ddl ts)"
proof (induction ss arbitrary: c)
  case (Cons s ss)
  then show ?case by (cases "apply_ddl s c") simp_all
qed simp

lemma undo_all:
  "catalog_ok c \<Longrightarrow> list_all creates ss \<Longrightarrow> run_ddl ss c = Inr c' \<Longrightarrow> run_ddl (map inverse (rev ss)) c' = Inr c"
proof (induction ss arbitrary: c)
  case (Cons s ss)
  then obtain c1 where c1: "apply_ddl s c = Inr c1" "run_ddl ss c1 = Inr c'"
    by (cases "apply_ddl s c") simp_all
  with Cons.prems undo_one [of c s c1] have "run_ddl (map inverse (rev ss)) c' = Inr c1" "apply_ddl (inverse s) c1 = Inr c"
    using Cons.IH [of c1] by simp_all
  then show ?case by (simp add: run_ddl_append)
qed simp

lemma downgrade_inverse: "downgrade = map inverse (rev upgrade)"
  by (simp add: downgrade_def upgrade_def mk_index_def applications_table_def incident_summaries_table_def
      workers_table_def events_table_def dead_letters_table_def event_attempts_table_def)

text \<open>The database at head.\<close>

definition migrated :: catalog where
  "migrated = \<lparr>cat_tables = [applications_table, incident_summaries_table, workers_table, events_table,
       dead_letters_table, event_attempts_table],
     cat_indexes = concat (map (\<lambda>s. case s of CreateIndex i \<Rightarrow> [i] | _ \<Rightarrow> []) upgrade)\<rparr>"

lemma migrated_run: "run_ddl upgrade empty_catalog = Inr migrated"
  by code_simp

lemma migrated_metadata:
  "set (cat_tables migrated) = set (cat_tables target_metadata)"
  "set (cat_indexes migrated) = set (cat_indexes target_metadata)"
  "length (cat_indexes migrated) = length (cat_indexes target_metadata)"
  by code_simp+

section \<open>Properties\<close>

text \<open>C28. The migration can be taken back: on every catalog in order, whatever else it holds, the downgrade after
  a successful upgrade succeeds and restores the catalog exactly, and an upgrade that fails leaves
  the catalog as it was.\<close>

theorem downgrade_undoes_upgrade:
  assumes "catalog_ok c"
  shows "case run_migrations_online upgrade c of
      (Inl x, c') \<Rightarrow> c' = c
    | (Inr _, c') \<Rightarrow> run_migrations_online downgrade c' = (Inr (), c)"
proof (cases "run_ddl upgrade c")
  case (Inr c')
  have "list_all creates upgrade" by (simp add: upgrade_def)
  from undo_all [OF assms this Inr] Inr show ?thesis
    by (simp add: run_migrations_online_def downgrade_inverse)
qed (simp add: run_migrations_online_def)


section \<open>Witness\<close>

theorem downgrade_undoes_upgrade_witness:
  "run_migrations_online downgrade migrated = (Inr (), empty_catalog)"
proof -
  have "catalog_ok empty_catalog" by (simp add: catalog_ok_def empty_catalog_def)
  from downgrade_undoes_upgrade [OF this] show ?thesis by (simp add: run_migrations_online_def migrated_run)
qed

end
