(* ===== verification/ColumnTypes.thy ===== *)
theory ColumnTypes
  imports System Migrations
begin

text \<open>
  The rows of the running system against the columns of the migrated database: the widths the
  insertions of \<open>Models\<close> enforce are those the migration declares, every step of the system keeps
  every row within them, and a submission that does not fit, which the request schema lets pass,
  fails at the flush.
\<close>

section \<open>Cells and columns\<close>

text \<open>The string columns of a row by name.\<close>

definition application_cells :: "application \<Rightarrow> (string \<times> string) list" where
  "application_cells a = [(''name'', app_name a)]"

definition event_cells :: "event \<Rightarrow> (string \<times> string) list" where
  "event_cells e = [(''workflow_id'', ev_workflow_id e), (''event_type'', ev_event_type e),
     (''service_name'', ev_service_name e), (''idempotency_key'', ev_idempotency_key e), (''status'', ev_status e)]"

definition worker_cells :: "worker \<Rightarrow> (string \<times> string) list" where
  "worker_cells w = [(''worker_name'', wk_worker_name w), (''status'', wk_status w)]"

text \<open>Every \<^verbatim>\<open>varchar\<close> column of the table has a cell that fits.\<close>

definition row_fits :: "table \<Rightarrow> (string \<times> string) list \<Rightarrow> bool" where
  "row_fits t cells \<longleftrightarrow> list_all (\<lambda>c. case col_type c of
     String n \<Rightarrow> (case map_of cells (col_name c) of None \<Rightarrow> False | Some v \<Rightarrow> length v \<le> n \<and> NUL \<notin> set v)
   | _ \<Rightarrow> True) (tb_columns t)"

lemma application_row_fits: "column_error (application_columns a) = None \<longleftrightarrow> row_fits applications_table (application_cells a)"
  by (simp add: row_fits_def applications_table_def mk_col_def application_cells_def application_columns_def column_error_None)

lemma worker_row_fits: "column_error (worker_columns w) = None \<longleftrightarrow> row_fits workers_table (worker_cells w)"
  by (simp add: row_fits_def workers_table_def mk_col_def worker_cells_def worker_columns_def column_error_None)

lemma event_row_fits: "column_error (event_columns e) = None \<longleftrightarrow> row_fits events_table (event_cells e)"
  by (simp add: row_fits_def events_table_def mk_col_def event_cells_def event_columns_def column_error_None)

lemma typed_event_fits:
  assumes "event_typed e" and "ev_status e \<in> set event_statuses"
  shows "row_fits events_table (event_cells e)"
proof -
  have "length s \<le> 32 \<and> NUL \<notin> set s" if "s \<in> set event_statuses" for s
    using that by (auto simp: event_statuses_def)
  with assms have "column_error (event_columns e) = None"
    by (simp add: event_typed_def event_columns_def column_error_None)
  then show ?thesis by (simp add: event_row_fits)
qed

section \<open>Every step keeps the rows typed\<close>

lemma typed_cong:
  "applications d' = applications d \<Longrightarrow> events d' = events d \<Longrightarrow> workers d' = workers d \<Longrightarrow> rows_typed d \<Longrightarrow> rows_typed d'"
  by (simp add: rows_typed_def)

lemma typed_update_event:
  assumes "\<And>e. event_typed (f e) = event_typed e" and "rows_typed d"
  shows "rows_typed (update_event i f d)"
  using assms unfolding rows_typed_def by (auto simp: in_update_event)

lemma flush_typed: "event_typed (flush_event old new e) = event_typed e"
  by (simp add: event_typed_def flush_event_def)

interpretation typing: worker_writes "\<lambda>d d'. rows_typed d \<longrightarrow> rows_typed d'"
proof unfold_locales
  fix old new d d'
  assume "save_event old new d = Inr d'"
  then show "rows_typed d \<longrightarrow> rows_typed d'"
    using typed_update_event [OF flush_typed, of d] by (auto simp: save_event_def split: if_splits)
next
  fix a d d'
  assume "insert_attempt a d = Inr d'"
  then show "rows_typed d \<longrightarrow> rows_typed d'" by (auto simp: insert_attempt_def rows_typed_def split: if_splits)
next
  fix l d d'
  assume "insert_dead_letter l d = Inr d'"
  then show "rows_typed d \<longrightarrow> rows_typed d'" by (auto simp: insert_dead_letter_def rows_typed_def split: if_splits)
qed auto

lemma typed_update_workers:
  assumes "\<And>w. column_error (worker_columns w) = None \<Longrightarrow> column_error (worker_columns (f w)) = None" and "rows_typed d"
  shows "rows_typed (update_workers P f d)"
  using assms unfolding rows_typed_def by (auto simp: workers_update)

lemma typed_delete_workers: "rows_typed d \<Longrightarrow> rows_typed (delete_workers P d)"
  by (simp add: rows_typed_def delete_workers_def Let_def)

lemma typed_insert_event: "rows_typed d \<Longrightarrow> insert_event e d = Inr d' \<Longrightarrow> rows_typed d'"
  by (auto simp: insert_event_def rows_typed_def dest: event_error_typed split: if_splits option.splits)

lemma typed_application:
  assumes "rows_typed d" and "tame (env_app E)" and "get_or_create_application E n d = (res, d1)"
  shows "rows_typed d1" and "res = Inr (app, Some a) \<Longrightarrow> column_error (application_columns a) = None"
  using assms by (auto simp: get_or_create_application_def insert_application_def tame_def Let_def
      split: sum.splits option.splits if_splits)

lemma typed_get_or_create:
  assumes "rows_typed d" and "tame (env_app E)" and "tame (env_ev E)" and "get_or_create_event E p d = (res, d')"
  shows "rows_typed d'"
proof -
  obtain r1 d1 where a: "get_or_create_application E (ec_application_name p) d = (r1, d1)" by force
  note app = typed_application [OF assms(1,2) a]
  have d2: "rows_typed (env_ev E d1)" using app(1) assms(3) by (simp add: tame_def)
  have ins: "rows_typed d3" if "r1 = Inr (app, q)" "insert_event e (visible q (env_ev E d1)) = Inr d3" for app q e d3
  proof -
    have "rows_typed (visible q (env_ev E d1))"
      using d2 app(2) that(1) by (auto simp: visible_def rows_typed_def split: option.split)
    then show ?thesis by (rule typed_insert_event [OF _ that(2)])
  qed
  show ?thesis using assms(4) a app(1) d2
    by (auto simp: get_or_create_event_def Let_def dest: ins split: sum.splits option.splits prod.splits if_splits)
qed

lemma typed_ingest:
  assumes "rows_typed d" and "tame (env_app E)" and "tame (env_ev E)" and "ingest_event R H S E t p d sv = (res, d', sv')"
  shows "rows_typed d'"
proof -
  obtain r1 d1 where g: "get_or_create_event E p d = (r1, d1)" by force
  have d1: "rows_typed d1" by (rule typed_get_or_create [OF assms(1-3) g])
  have "rows_typed (update_event i (write_status ''queued'' t) d1)" for i
    by (rule typed_update_event [OF _ d1]) (simp add: event_typed_def write_status_def)
  with d1 assms(4) g show ?thesis
    by (auto simp: ingest_event_def Let_def split: sum.splits prod.splits if_splits)
qed

lemma typed_dead_letter_update: "rows_typed d \<Longrightarrow> rows_typed (update_dead_letter i f d)"
  by (simp add: rows_typed_def update_dead_letter_def)

lemma typed_replay:
  assumes "rows_typed d" and "replay_dead_letter R aid ts i d r = (res, d', r')"
  shows "rows_typed d'"
proof (cases "\<exists>dl e. replayable aid i d dl e")
  case False
  then have "\<nexists>dl e. replayable aid i d dl e" by blast
  from replay_dead_letter_stays [OF this, of R ts r] assms show ?thesis by auto
next
  case True
  then obtain dl e where go: "replayable aid i d dl e" by blast
  obtain t1 t2 t3 where ts: "ts = (t1, t2, t3)" by (cases ts)
  have "rows_typed (d\<lparr>event_attempts := event_attempts d @ [a]\<rparr>)" for a
    using assms(1) by (simp add: rows_typed_def)
  then have "rows_typed (requeued_db aid ts dl e d)"
    unfolding requeued_db_def ts prod.case
    by (intro typed_dead_letter_update typed_update_event) (simp_all add: event_typed_def requeue_def)
  with assms(2) replay_dead_letter_goes [OF go, of R ts r] show ?thesis
    by (auto simp: typed_dead_letter_update split: sum.splits prod.splits)
qed

lemma worker_status_fits [simp]:
  "column_error (worker_columns w) = None \<Longrightarrow> length s \<le> 32 \<Longrightarrow> NUL \<notin> set s \<Longrightarrow>
    column_error (worker_columns (w\<lparr>wk_status := s\<rparr>)) = None"
  by (simp add: worker_columns_def column_error_None)

lemma worker_columns_frame [simp]:
  "worker_columns (w\<lparr>wk_last_heartbeat_at := t\<rparr>) = worker_columns w"
  "worker_columns (w\<lparr>wk_current_event_id := i\<rparr>) = worker_columns w"
  "worker_columns (w\<lparr>wk_updated_at := t\<rparr>) = worker_columns w"
  by (simp_all add: worker_columns_def)

lemma typed_register:
  assumes "rows_typed d" and "register_worker wid ts name d = Inr (w, d')"
  shows "rows_typed d'"
proof -
  have "column_error (worker_columns (reactivate t u v)) = None" if "column_error (worker_columns v) = None" for t u v
    using that by (simp add: reactivate_def Let_def worker_columns_def column_error_None)
  from typed_update_workers [OF this assms(1)] assms show ?thesis
    by (auto simp: register_worker_def Let_def insert_worker_def split: prod.splits sum.splits option.splits if_splits)
      (auto simp: rows_typed_def)
qed

lemma typed_maintenance:
  assumes "rows_typed d"
  shows "rows_typed (heartbeat_tick reachable now u h d)"
    and "rows_typed (snd (mark_stale_workers now u threshold d))"
    and "rows_typed (snd (gc_stale_workers now d))"
    and "rows_typed (mark_worker_stopped u i d)"
  using assms
  by (auto simp: heartbeat_tick_def mark_worker_active_def mark_stale_workers_def mark_worker_stopped_def
      gc_stale_workers_def Let_def typed_delete_workers worker_columns_def column_error_None
      intro!: typed_update_workers)

lemma step_keeps_types: "sys_step R H S x y \<Longrightarrow> rows_typed (fst x) \<Longrightarrow> rows_typed (fst y)"
proof (induction rule: sys_step.induct)
  case (handle E st i n e s d sv res s' w')
  from typing.writes_work_on [OF handle(1)] handle(2) show ?case by simp
next
  case (claim e t d d' sv)
  from typing.save [OF claim(1)] claim(2) show ?case by simp
qed (auto simp: typed_maintenance dest: typed_ingest typed_replay typed_register)

lemma reachable_typed: "(sys_step R H S)\<^sup>*\<^sup>* x y \<Longrightarrow> rows_typed (fst x) \<Longrightarrow> rows_typed (fst y)"
  by (induction rule: rtranclp_induct) (auto dest: step_keeps_types)

lemma rows_typed_empty: "rows_typed empty_db"
  by (simp add: rows_typed_def empty_db_def)

section \<open>Properties\<close>


text \<open>C34. The request schema has no length limits, so an accepted request can still fail: a submission whose
  idempotency key is longer than its column (512 characters) makes the endpoint raise, whatever
  other transactions do meanwhile; nothing of it is stored and nothing is published.\<close>

theorem overlong_key_fails:
  assumes "rows_typed d" and "tame (env_app E)" and "tame (env_ev E)" and "schema_ok d" and "fresh_ids E p d"
    and "512 < length (ec_idempotency_key p)"
    and "length (ec_application_name p) \<le> 255"
    and "\<forall>s \<in> {ec_application_name p, ec_workflow_id p, ec_event_type p, ec_service_name p, ec_idempotency_key p}. NUL \<notin> set s"
  shows "\<exists>d'. ingest_event R H S E t p d sv = (Inl DataError, d', sv)
    \<and> d' \<in> {env_ev E d, env_ev E (env_app E d)}"
proof -
  have ben: "benign (env_app E)" "benign (env_ev E)" using assms(2,3) by (simp_all add: tame_def)
  have "column_error [(255, ec_application_name p)] = None" using assms(7,8) by (simp add: column_error_None)
  then obtain app pending d1
    where app: "get_or_create_application E (ec_application_name p) d = (Inr (app, pending), d1)"
    using application_total [OF assms(4) ben(1) assms(5)] by blast
  have "rows_typed d1" by (rule typed_application(1) [OF assms(1,2) app])
  then have short: "length (ev_idempotency_key e) \<le> 512" if "e \<in> set (events d1)" for e
    using that by (simp add: rows_typed_def event_typed_def column_error_None)
  have look: "scalar_one_or_none (\<lambda>e. ev_application_id e = app_id app
      \<and> ev_idempotency_key e = ec_idempotency_key p) (events d1) = Inr None"
    using short assms(6) by (intro scalar_one_or_none_absent) fastforce
  have "event_error (new_event E (app_id app) p) = Some DataError"
    using assms(6,8) by (simp add: event_error_def column_error_def event_columns_def new_event_def)
  with app look have "get_or_create_event E p d = (Inl DataError, env_ev E d1)"
    by (simp add: get_or_create_event_def insert_event_def Let_def)
  with application_result(1) [OF app] show ?thesis by (auto simp: ingest_event_def)
qed

section \<open>Witnesses\<close>


theorem overlong_key_fails_witness:
  "\<exists>d'. ingest_event mem_api no_http ex_settings (ex_env (\<lambda>d. d) ''e1'') 5
      (ex_payload\<lparr>ec_idempotency_key := replicate 513 CHR ''k''\<rparr>) ex_db ex_sv = (Inl DataError, d', ex_sv)"
proof -
  let ?p = "ex_payload\<lparr>ec_idempotency_key := replicate 513 CHR ''k''\<rparr>" and ?E = "ex_env (\<lambda>d. d) ''e1''"
  have "rows_typed ex_db" by (simp add: rows_typed_def ex_defs fits_eval)
  moreover have "tame (env_app ?E)" "tame (env_ev ?E)" by (simp_all add: ex_env_def)
  moreover have "fresh_ids ?E ?p ex_db" by (simp add: fresh_ids_def ex_defs)
  moreover have "\<forall>s \<in> {ec_application_name ?p, ec_workflow_id ?p, ec_event_type ?p, ec_service_name ?p, ec_idempotency_key ?p}. NUL \<notin> set s"
    by (simp add: ex_payload_def)
  moreover have "512 < length (ec_idempotency_key ?p)" "length (ec_application_name ?p) \<le> 255"
    by (simp_all add: ex_payload_def)
  ultimately show ?thesis using overlong_key_fails [OF _ _ _ ex_db_ok] by blast
qed

end
