(* ===== verification/SubmissionSpec.thy ===== *)
theory SubmissionSpec
  imports Idempotency
begin

text \<open>
  What the idempotent submission of \<^verbatim>\<open>api/app/core/idempotency.py\<close> promises, without tables,
  transactions or races: a registry that gives each pair of application name and idempotency key
  at most one event identifier, with one atomic operation. The refinement theorem says that
  \<open>get_or_create_event\<close>, with other transactions committing between its statements, is that
  operation on the registry of one of the states the database went through.
\<close>

section \<open>The abstract registry\<close>

type_synonym registry = "string \<times> string \<rightharpoonup> uuid"

definition submit_spec :: "uuid \<Rightarrow> string \<times> string \<Rightarrow> registry \<Rightarrow> (uuid \<times> bool) \<times> registry" where
  "submit_spec fresh k r = (case r k of
      Some i \<Rightarrow> ((i, True), r)
    | None \<Rightarrow> ((fresh, False), r(k \<mapsto> fresh)))"

abbreviation submission_key :: "event_create \<Rightarrow> string \<times> string" where
  "submission_key p \<equiv> (ec_application_name p, ec_idempotency_key p)"

text \<open>The abstraction function joins the two tables on the foreign key.\<close>

definition registry_entries :: "db \<Rightarrow> ((string \<times> string) \<times> uuid) list" where
  "registry_entries d = concat (map (\<lambda>e. map (\<lambda>a. ((app_name a, ev_idempotency_key e), ev_id e))
     (filter (\<lambda>a. app_id a = ev_application_id e) (applications d))) (events d))"

definition registry_of :: "db \<Rightarrow> registry" where
  "registry_of d = map_of (registry_entries d)"

lemma mem_registry_entries:
  "(k, i) \<in> set (registry_entries d) \<longleftrightarrow> (\<exists>e \<in> set (events d). \<exists>a \<in> set (applications d).
     app_id a = ev_application_id e \<and> k = (app_name a, ev_idempotency_key e) \<and> i = ev_id e)"
  by (auto simp: registry_entries_def)

lemma registry_entries_functional:
  assumes ok: "schema_ok d"
    and "(k, i) \<in> set (registry_entries d)" and "(k, j) \<in> set (registry_entries d)"
  shows "i = j"
proof -
  have inj: "inj_on app_name (set (applications d))" "inj_on ev_key (set (events d))"
    using ok by (simp_all add: schema_ok_def keys_ok_defs distinct_map)
  from assms(2,3) obtain e a e' a' where m: "e \<in> set (events d)" "a \<in> set (applications d)"
    "e' \<in> set (events d)" "a' \<in> set (applications d)" and
    eq: "app_id a = ev_application_id e" "app_id a' = ev_application_id e'"
      "app_name a = app_name a'" "ev_idempotency_key e = ev_idempotency_key e'" "i = ev_id e" "j = ev_id e'"
    by (auto simp: mem_registry_entries)
  from inj_onD [OF inj(1) eq(3) m(2,4)] eq have "ev_key e = ev_key e'" by simp
  from inj_onD [OF inj(2) this m(1,3)] eq(5,6) show ?thesis by simp
qed

lemma registry_of_Some:
  assumes "schema_ok d"
  shows "registry_of d k = Some i \<longleftrightarrow> (k, i) \<in> set (registry_entries d)"
proof
  show "registry_of d k = Some i \<Longrightarrow> (k, i) \<in> set (registry_entries d)"
    by (simp add: registry_of_def map_of_SomeD)
  assume i: "(k, i) \<in> set (registry_entries d)"
  then obtain j where "registry_of d k = Some j"
    unfolding registry_of_def by (metis map_of_eq_None_iff not_Some_eq imageI fst_conv)
  with registry_entries_functional [OF assms i] show "registry_of d k = Some i"
    by (metis map_of_SomeD registry_of_def)
qed

lemma registry_of_designated:
  assumes "schema_ok d" and "designates p e d"
  shows "registry_of d (submission_key p) = Some (ev_id e)"
  unfolding registry_of_Some [OF assms(1)] mem_registry_entries
  using assms(2) unfolding designates_def by (metis prod.inject)

lemma map_of_append_fresh:
  assumes "k \<notin> fst ` set xs"
  shows "map_of (xs @ [(k, v)]) = (map_of xs)(k \<mapsto> v)"
proof -
  from assms have "map_of xs k = None" by (simp add: map_of_eq_None_iff)
  then show ?thesis by (simp add: map_add_def fun_eq_iff split: option.split)
qed

section \<open>The two effects of a submission\<close>

text \<open>An application nobody refers to is invisible in the registry.\<close>

lemma entries_visible:
  assumes "schema_ok d" and "app_result name app pending d"
  shows "registry_entries (visible pending d) = registry_entries d"
proof (cases pending)
  case None
  then show ?thesis by (simp add: visible_def)
next
  case (Some a)
  have "app_id a \<noteq> ev_application_id e" if "e \<in> set (events d)" for e
  proof -
    from assms(1) that have "ev_application_id e \<in> app_id ` set (applications d)"
      by (simp add: schema_ok_def event_keys_ok_def)
    with Some assms(2) show ?thesis by (auto simp: app_result_def)
  qed
  with Some show ?thesis
    unfolding registry_entries_def visible_def by (auto intro!: arg_cong [of _ _ concat] map_cong)
qed

lemma entries_insert_event:
  assumes "schema_ok d" and "a \<in> set (applications d)" and "app_id a = ev_application_id e"
    and "insert_event e d = Inr d'"
  shows "registry_entries d' = registry_entries d @ [((app_name a, ev_idempotency_key e), ev_id e)]"
proof -
  have "distinct (map app_id (applications d))" using assms(1) by (simp add: schema_ok_def keys_ok_defs)
  from filter_key_distinct [OF this assms(2)] assms(3)
  have "filter (\<lambda>x. app_id x = ev_application_id e) (applications d) = [a]" by simp
  with assms(4) show ?thesis by (auto simp: registry_entries_def insert_event_def split: if_splits option.splits)
qed

lemma takes_effect_refines:
  assumes ok: "schema_ok d0" and eff: "takes_effect E p e dup d0 d'"
  shows "submit_spec (new_event_id E) (submission_key p) (registry_of d0) = ((ev_id e, dup), registry_of d')"
proof (cases dup)
  case True
  with eff have "d' = d0" "designates p e d0" by (simp_all add: takes_effect_def)
  with registry_of_designated [OF ok] True show ?thesis by (simp add: submit_spec_def)
next
  case False
  with eff obtain app pending where app: "app_result (ec_application_name p) app pending d0"
    and e: "e = new_event E (app_id app) p" and ins: "insert_event e (visible pending d0) = Inr d'"
    by (auto simp: takes_effect_def)
  have id: "ev_id e = new_event_id E" and key: "ev_idempotency_key e = ec_idempotency_key p"
    and aid: "app_id app = ev_application_id e" using e by (simp_all add: new_event_def)
  have name: "app_name app = ec_application_name p" using app by (simp add: app_result_def)
  have new: "registry_entries d' = registry_entries d0 @ [(submission_key p, ev_id e)]"
    using entries_insert_event [OF visible_ok [OF ok app] app_in_visible [OF app] aid ins]
      entries_visible [OF ok app] name key by simp
  have free: "registry_of d0 (submission_key p) = None"
  proof (rule ccontr)
    assume "registry_of d0 (submission_key p) \<noteq> None"
    then obtain i where i: "(submission_key p, i) \<in> set (registry_entries d0)"
      by (auto simp: registry_of_Some [OF ok])
    with registry_entries_functional [OF takes_effect_keeps(1) [OF eff ok], of "submission_key p" i "ev_id e"] new
    have "i = ev_id e" by simp
    with i ins show False by (auto simp: mem_registry_entries insert_event_def split: if_splits option.splits)
  qed
  then have "submission_key p \<notin> fst ` set (registry_entries d0)"
    by (simp add: registry_of_def map_of_eq_None_iff)
  then have "registry_of d' = (registry_of d0)(submission_key p \<mapsto> ev_id e)"
    unfolding registry_of_def new by (rule map_of_append_fresh)
  with free id False show ?thesis by (simp add: submit_spec_def)
qed

section \<open>Properties\<close>

text \<open>C12. Refinement: whatever other transactions commit between the statements of a submission, as
  long as they keep the schema and delete nothing, \<open>get_or_create_event\<close> on a payload that fits the
  columns answers and changes the
  database exactly as one atomic look-up-or-insert on the registry of application name and key,
  executed on one of the committed states the database went through.\<close>

theorem submission_refines_registry:
  assumes "schema_ok d" and "benign (env_app E)" and "benign (env_ev E)" and "fresh_ids E p d" and "payload_fits p"
  shows "\<exists>e dup d0 d'. get_or_create_event E p d = (Inr (e, dup), d')
    \<and> d0 \<in> {d, env_app E d, env_ev E d, env_ev E (env_app E d)}
    \<and> submit_spec (new_event_id E) (ec_application_name p, ec_idempotency_key p) (registry_of d0)
      = ((ev_id e, dup), registry_of d')"
proof -
  obtain e dup d0 d' where r: "get_or_create_event E p d = (Inr (e, dup), d')"
    "d0 \<in> committed_states E d" "schema_ok d0" "takes_effect E p e dup d0 d'"
    by (rule get_or_create_event_linearizes [OF assms])
  show ?thesis
    by (intro exI conjI) (fact r(1), fact r(2), fact takes_effect_refines [OF r(3,4)])
qed

text \<open>The witness races with a rival that commits the same key before the flush.\<close>

theorem submission_refines_registry_witness:
  "\<exists>e dup d0 d'. get_or_create_event (ex_env (rival_insert ex_rival) ''e2'') ex_payload ex_db = (Inr (e, dup), d')
    \<and> d0 \<in> {ex_db, ex_db, rival_insert ex_rival ex_db, rival_insert ex_rival ex_db}
    \<and> submit_spec ''e2'' (''demo'', ''k1'') (registry_of d0) = ((ev_id e, dup), registry_of d')"
proof -
  let ?E = "ex_env (rival_insert ex_rival) ''e2''"
  have "benign (env_app ?E)" "benign (env_ev ?E)" by (simp_all add: ex_env_def benign_rival)
  moreover have "fresh_ids ?E ex_payload ex_db"
    by (simp add: fresh_ids_def ex_defs rival_insert_def insert_event_def new_event_def fits_eval)
  ultimately show ?thesis
    using submission_refines_registry [OF ex_db_ok _ _ _ ex_payload_fits, of ?E] by (simp add: ex_env_def ex_payload_def)
qed

end
