(* ===== verification/Convergence.thy ===== *)
theory Convergence
  imports RedisStreams Models
begin

text \<open>
  \<^verbatim>\<open>api/app/core/convergence.py\<close>: the report that says whether the system has reached a stable
  state. The counts come from the database; the four Redis figures are read one after the other
  inside one \<^verbatim>\<open>try\<close>, so a command that raises leaves the remaining figures at zero. The three
  clock readings are arguments. \<open>stable\<close> is the specification: nothing in flight, nothing
  waiting for a retry, no claim of a worker on a missing event, no event with two successes.
\<close>

record convergence_report =
  cr_total_events :: int
  cr_processed_events :: int
  cr_acknowledged_events :: int
  cr_received_events :: int
  cr_queued_events :: int
  cr_processing_events :: int
  cr_retrying_events :: int
  cr_dead_lettered_events :: int
  cr_pending_events :: int
  cr_retry_queue_depth :: int
  cr_retry_stream_depth :: int
  cr_incoming_stream_depth :: int
  cr_stream_backlog :: int
  cr_dlq_events :: int
  cr_orphaned_records :: int
  cr_duplicate_deliveries :: int
  cr_duplicate_side_effects :: int
  cr_recent_failures :: int
  cr_active_workers :: int
  cr_stale_workers :: int
  cr_worker_heartbeat_age_seconds :: "rat option"
  cr_convergence_state :: string
  cr_converged :: bool
  cr_convergence_issues :: "string list"
  cr_verified_at :: time

text \<open>\<^verbatim>\<open>timedelta.total_seconds()\<close>\<close>

definition total_seconds :: "int \<Rightarrow> rat" where
  "total_seconds us = fl (of_int us / 1000000)"

definition worker_heartbeat_age_seconds :: "time \<Rightarrow> worker list \<Rightarrow> rat option" where
  "worker_heartbeat_age_seconds now ws =
     (if ws = [] then None
      else Some (py_round 1 (Max (set (map (\<lambda>w. total_seconds (now - wk_last_heartbeat_at w)) ws)))))"

text \<open>\<^verbatim>\<open>SELECT status, count(id) .. GROUP BY status\<close>, and \<^verbatim>\<open>counts.get(s, 0)\<close>\<close>

definition status_counts :: "event list \<Rightarrow> (string \<times> int) list" where
  "status_counts es = map (\<lambda>s. (s, int (count_where (\<lambda>e. ev_status e = s) es))) (remdups (map ev_status es))"

definition count_of :: "(string \<times> int) list \<Rightarrow> string \<Rightarrow> int" where
  "count_of counts s = (case map_of counts s of None \<Rightarrow> 0 | Some n \<Rightarrow> n)"

definition orphaned_claims :: "db \<Rightarrow> nat" where
  "orphaned_claims d = count_where
     (\<lambda>w. case wk_current_event_id w of None \<Rightarrow> False | Some i \<Rightarrow> get_event i d = None) (workers d)"

definition doubly_succeeded :: "event_attempt list \<Rightarrow> nat" where
  "doubly_succeeded as =
     (let succ = filter (\<lambda>a. at_status a = ''succeeded'') as
      in length (filter (\<lambda>i. count_where (\<lambda>a. at_event_id a = i) succ > 1) (remdups (map at_event_id succ))))"

record redis_figures =
  rf_retry_queue :: int
  rf_incoming :: int
  rf_retry :: int
  rf_pending :: int

definition no_figures :: redis_figures where
  "no_figures = \<lparr>rf_retry_queue = 0, rf_incoming = 0, rf_retry = 0, rf_pending = 0\<rparr>"

definition redis_figures_of :: "'r redis_api \<Rightarrow> 'r \<Rightarrow> redis_figures \<times> 'r" where
  "redis_figures_of R r =
     (case rd_zcard R RETRY_ZSET r of
        (Inl _, r1) \<Rightarrow> (no_figures, r1)
      | (Inr zc, r1) \<Rightarrow>
     (case rd_xlen R STREAM_INCOMING r1 of
        (Inl _, r2) \<Rightarrow> (no_figures\<lparr>rf_retry_queue := zc\<rparr>, r2)
      | (Inr xi, r2) \<Rightarrow>
     (case rd_xlen R STREAM_RETRY r2 of
        (Inl _, r3) \<Rightarrow> (no_figures\<lparr>rf_retry_queue := zc, rf_incoming := xi\<rparr>, r3)
      | (Inr xr, r3) \<Rightarrow>
     (case rd_xpending R STREAM_INCOMING GROUP r3 of
        (Inl _, r4) \<Rightarrow> (no_figures\<lparr>rf_retry_queue := zc, rf_incoming := xi, rf_retry := xr\<rparr>, r4)
      | (Inr p1, r4) \<Rightarrow>
     (case rd_xpending R STREAM_RETRY GROUP r4 of
        (Inl _, r5) \<Rightarrow> (no_figures\<lparr>rf_retry_queue := zc, rf_incoming := xi, rf_retry := xr\<rparr>, r5)
      | (Inr p2, r5) \<Rightarrow>
          (\<lparr>rf_retry_queue = zc, rf_incoming = xi, rf_retry = xr, rf_pending = p1 + p2\<rparr>, r5))))))"

definition issues_of :: "int \<Rightarrow> int \<Rightarrow> int \<Rightarrow> int \<Rightarrow> int \<Rightarrow> int \<Rightarrow> int \<Rightarrow> string list" where
  "issues_of pending retrying received queued processing orphaned dups =
     (if pending > 0 then [show_int pending @ '' pending stream entries''] else [])
     @ (if retrying > 0 then [show_int retrying @ '' events waiting on retry''] else [])
     @ (if queued > 0 \<or> processing > 0 \<or> received > 0
        then [show_int (received + queued + processing) @ '' in-flight database rows''] else [])
     @ (if orphaned > 0 then [show_int orphaned @ '' orphaned worker claim(s)''] else [])
     @ (if dups > 0 then [show_int dups @ '' duplicate side effect(s)''] else [])"

definition build_convergence_report ::
  "'r redis_api \<Rightarrow> time \<times> time \<times> time \<Rightarrow> db \<Rightarrow> 'r \<Rightarrow> convergence_report \<times> 'r" where
  "build_convergence_report R ts d r = (case ts of (t_failures, now, t_age) \<Rightarrow>
     let counts = status_counts (events d);
         total_events = sum_list (map snd counts);
         received_events = count_of counts ''received'';
         queued_events = count_of counts ''queued'';
         processing_events = count_of counts ''processing'';
         retrying_events = count_of counts ''retrying'';
         dead_lettered_events = count_of counts ''dead_lettered'';
         processed_events = length (remdups (map at_event_id (event_attempts d)));
         acknowledged = total_events - (received_events + queued_events + processing_events);
         acknowledged_events = (if acknowledged < 0 then 0 else acknowledged);
         recent_cutoff = t_failures - minutes 15;
         recent_failures = count_where
           (\<lambda>a. at_status a = ''failed'' \<and> (case at_finished_at a of None \<Rightarrow> False | Some f \<Rightarrow> f \<ge> recent_cutoff))
           (event_attempts d);
         (figs, r') = redis_figures_of R r;
         stream_backlog = rf_incoming figs + rf_retry figs + rf_retry_queue figs + rf_pending figs;
         active_workers = count_where (\<lambda>w. wk_status w \<in> {''active'', ''busy''}) (workers d);
         stale_workers = count_where (\<lambda>w. total_seconds (now - wk_last_heartbeat_at w) > 30) (workers d);
         orphaned_records = orphaned_claims d;
         duplicate_deliveries = sum_list (map (\<lambda>e. max (ev_attempt_count e - 1) 0) (events d));
         duplicate_side_effects = doubly_succeeded (event_attempts d);
         convergence_issues = issues_of (rf_pending figs) retrying_events received_events queued_events
           processing_events (int orphaned_records) (int duplicate_side_effects);
         converged = (convergence_issues = []);
         convergence_state = (if converged then ''converged''
           else if orphaned_records > 0 \<or> duplicate_side_effects > 0 then ''degraded'' else ''recovering'')
     in (\<lparr>cr_total_events = total_events, cr_processed_events = int processed_events,
          cr_acknowledged_events = acknowledged_events, cr_received_events = received_events,
          cr_queued_events = queued_events, cr_processing_events = processing_events,
          cr_retrying_events = retrying_events, cr_dead_lettered_events = dead_lettered_events,
          cr_pending_events = rf_pending figs, cr_retry_queue_depth = rf_retry_queue figs,
          cr_retry_stream_depth = rf_retry figs, cr_incoming_stream_depth = rf_incoming figs,
          cr_stream_backlog = stream_backlog, cr_dlq_events = dead_lettered_events,
          cr_orphaned_records = int orphaned_records, cr_duplicate_deliveries = duplicate_deliveries,
          cr_duplicate_side_effects = int duplicate_side_effects, cr_recent_failures = int recent_failures,
          cr_active_workers = int active_workers, cr_stale_workers = int stale_workers,
          cr_worker_heartbeat_age_seconds = worker_heartbeat_age_seconds t_age (workers d),
          cr_convergence_state = convergence_state, cr_converged = converged,
          cr_convergence_issues = convergence_issues, cr_verified_at = now\<rparr>, r'))"

section \<open>Counting\<close>

lemma map_of_status_counts:
  "map_of (status_counts es) s = (if s \<in> ev_status ` set es then Some (int (count_where (\<lambda>e. ev_status e = s) es)) else None)"
proof -
  have "map_of (map (\<lambda>s. (s, f s)) xs) s = (if s \<in> set xs then Some (f s) else None)" for f :: "string \<Rightarrow> int" and xs
    by (induction xs) auto
  from this [of _ "remdups (map ev_status es)"] show ?thesis by (simp add: status_counts_def)
qed

lemma count_where_0_iff: "count_where P xs = 0 \<longleftrightarrow> (\<forall>x \<in> set xs. \<not> P x)"
  by (auto simp: count_where_def filter_empty_conv)

lemma count_of_status: "count_of (status_counts es) s = int (count_where (\<lambda>e. ev_status e = s) es)"
proof (cases "s \<in> ev_status ` set es")
  case False
  then have "count_where (\<lambda>e. ev_status e = s) es = 0" by (auto simp: count_where_0_iff)
  with False show ?thesis by (simp add: count_of_def map_of_status_counts)
qed (simp add: count_of_def map_of_status_counts)

lemma sum_groups:
  "distinct ks \<Longrightarrow> key ` set xs \<subseteq> set ks \<Longrightarrow> sum_list (map (\<lambda>k. int (count_where (\<lambda>x. key x = k) xs)) ks) = int (length xs)"
proof (induction xs)
  case Nil
  then show ?case by (simp add: count_where_def)
next
  case (Cons x xs)
  have "sum_list (map (\<lambda>k. int (count_where (\<lambda>y. key y = k) (x # xs))) ks)
      = sum_list (map (\<lambda>k. (if k = key x then 1 else 0)) ks) + sum_list (map (\<lambda>k. int (count_where (\<lambda>y. key y = k) xs)) ks)"
    by (simp add: count_where_def sum_list_addf [symmetric] cong: map_cong) (intro arg_cong [where f = sum_list] map_cong, auto)
  moreover have "sum_list (map (\<lambda>k. (if k = key x then 1 else 0 :: int)) ks) = 1"
    using Cons.prems by (simp add: sum_list_distinct_conv_sum_set)
  ultimately show ?case using Cons by simp
qed

lemma status_counts_total: "sum_list (map snd (status_counts es)) = int (length es)"
  using sum_groups [of "remdups (map ev_status es)" ev_status es] by (simp add: status_counts_def comp_def)

lemma status_partition:
  "int (count_where (\<lambda>e. ev_status e = ''received'') es) + int (count_where (\<lambda>e. ev_status e = ''queued'') es)
     + int (count_where (\<lambda>e. ev_status e = ''processing'') es)
     + int (count_where (\<lambda>e. ev_status e \<notin> {''received'', ''queued'', ''processing''}) es) = int (length es)"
  by (induction es) (auto simp: count_where_def)

lemma doubly_succeeded_0_iff:
  "doubly_succeeded as = 0 \<longleftrightarrow> (\<forall>i. count_where (\<lambda>a. at_event_id a = i \<and> at_status a = ''succeeded'') as \<le> 1)"
proof -
  let ?succ = "filter (\<lambda>a. at_status a = ''succeeded'') as"
  have eq: "count_where (\<lambda>a. at_event_id a = i) ?succ = count_where (\<lambda>a. at_event_id a = i \<and> at_status a = ''succeeded'') as" for i
    by (simp add: count_where_def conj_commute)
  have out: "count_where (\<lambda>a. at_event_id a = i) ?succ \<le> 1" if "i \<notin> at_event_id ` set ?succ" for i
    using that count_where_0_iff [of "\<lambda>a. at_event_id a = i" ?succ] by auto
  have "doubly_succeeded as = 0 \<longleftrightarrow> (\<forall>i \<in> at_event_id ` set ?succ. count_where (\<lambda>a. at_event_id a = i) ?succ \<le> 1)"
    by (simp only: doubly_succeeded_def Let_def length_0_conv filter_empty_conv set_remdups set_map not_less)
  also have "\<dots> \<longleftrightarrow> (\<forall>i. count_where (\<lambda>a. at_event_id a = i) ?succ \<le> 1)" using out by blast
  finally show ?thesis by (simp add: eq)
qed

lemma orphaned_claims_0_iff:
  "orphaned_claims d = 0 \<longleftrightarrow>
    (\<forall>w \<in> set (workers d). \<forall>i. wk_current_event_id w = Some i \<longrightarrow> i \<in> ev_id ` set (events d))"
  by (auto simp: orphaned_claims_def count_where_0_iff get_event_None_iff split: option.splits)

lemma issues_of_Nil:
  "0 \<le> received \<Longrightarrow> 0 \<le> queued \<Longrightarrow> 0 \<le> processing \<Longrightarrow>
   issues_of pending retrying received queued processing orphaned dups = [] \<longleftrightarrow>
     pending \<le> 0 \<and> retrying \<le> 0 \<and> received = 0 \<and> queued = 0 \<and> processing = 0 \<and> orphaned \<le> 0 \<and> dups \<le> 0"
  by (auto simp: issues_of_def)

text \<open>The database holds nothing unfinished.\<close>

definition stable :: "db \<Rightarrow> bool" where
  "stable d \<longleftrightarrow>
     (\<forall>e \<in> set (events d). ev_status e \<notin> {''received'', ''queued'', ''processing'', ''retrying''})
     \<and> (\<forall>w \<in> set (workers d). \<forall>i. wk_current_event_id w = Some i \<longrightarrow> i \<in> ev_id ` set (events d))
     \<and> (\<forall>i. count_where (\<lambda>a. at_event_id a = i \<and> at_status a = ''succeeded'') (event_attempts d) \<le> 1)"

lemmas report_defs = build_convergence_report_def Let_def count_of_status status_counts_total

lemma report_fields:
  assumes "build_convergence_report R ts d r = (rep, r')" and "redis_figures_of R r = (figs, r2)"
  shows "cr_converged rep \<longleftrightarrow> rf_pending figs \<le> 0 \<and> stable d"
    and "cr_pending_events rep = rf_pending figs"
    and "cr_convergence_state rep = (if cr_converged rep then ''converged''
       else if orphaned_claims d > 0 \<or> doubly_succeeded (event_attempts d) > 0 then ''degraded'' else ''recovering'')"
    and "cr_converged rep \<longleftrightarrow> cr_convergence_issues rep = []"
proof -
  have "stable d \<longleftrightarrow> count_where (\<lambda>e. ev_status e = ''retrying'') (events d) = 0
      \<and> count_where (\<lambda>e. ev_status e = ''received'') (events d) = 0
      \<and> count_where (\<lambda>e. ev_status e = ''queued'') (events d) = 0
      \<and> count_where (\<lambda>e. ev_status e = ''processing'') (events d) = 0
      \<and> orphaned_claims d = 0 \<and> doubly_succeeded (event_attempts d) = 0"
    by (auto simp: stable_def orphaned_claims_0_iff doubly_succeeded_0_iff count_where_0_iff)
  with assms show "cr_converged rep \<longleftrightarrow> rf_pending figs \<le> 0 \<and> stable d"
    by (cases ts) (auto simp: report_defs issues_of_Nil)
qed (use assms in \<open>cases ts; auto simp: report_defs\<close>)+

section \<open>Properties\<close>

text \<open>C22. The report says converged exactly when the pending figure it obtained is not positive and
  the database is stable: no event received, queued, processing or retrying, every claimed
  event exists, and no event succeeded twice. Otherwise it lists at least one issue, and the state is
  degraded exactly when a claim is orphaned or a side effect is duplicated.\<close>

theorem converged_iff_stable:
  assumes "build_convergence_report R ts d r = (rep, r')"
  shows "(cr_converged rep \<longleftrightarrow> cr_pending_events rep \<le> 0 \<and> stable d)
    \<and> (cr_converged rep \<longleftrightarrow> cr_convergence_issues rep = [])
    \<and> (cr_convergence_state rep = ''converged'' \<longleftrightarrow> cr_converged rep)
    \<and> (cr_convergence_state rep = ''degraded'' \<longleftrightarrow>
        (\<exists>w \<in> set (workers d). \<exists>i. wk_current_event_id w = Some i \<and> i \<notin> ev_id ` set (events d))
        \<or> (\<exists>i. count_where (\<lambda>a. at_event_id a = i \<and> at_status a = ''succeeded'') (event_attempts d) > 1))"
proof -
  obtain figs r2 where f: "redis_figures_of R r = (figs, r2)" by force
  note fields = report_fields [OF assms f]
  have o: "orphaned_claims d > 0 \<longleftrightarrow>
      (\<exists>w \<in> set (workers d). \<exists>i. wk_current_event_id w = Some i \<and> i \<notin> ev_id ` set (events d))"
    using orphaned_claims_0_iff [of d] by (cases "orphaned_claims d = 0") auto
  have s: "doubly_succeeded (event_attempts d) > 0 \<longleftrightarrow>
      (\<exists>i. count_where (\<lambda>a. at_event_id a = i \<and> at_status a = ''succeeded'') (event_attempts d) > 1)"
    unfolding neq0_conv [symmetric] doubly_succeeded_0_iff by (simp only: not_all not_le)
  have bad: "orphaned_claims d > 0 \<or> doubly_succeeded (event_attempts d) > 0 \<longleftrightarrow>
      (\<exists>w \<in> set (workers d). \<exists>i. wk_current_event_id w = Some i \<and> i \<notin> ev_id ` set (events d))
      \<or> (\<exists>i. count_where (\<lambda>a. at_event_id a = i \<and> at_status a = ''succeeded'') (event_attempts d) > 1)"
    by (simp only: o s)
  have "cr_converged rep \<Longrightarrow> \<not> (orphaned_claims d > 0 \<or> doubly_succeeded (event_attempts d) > 0)"
    using fields(1) orphaned_claims_0_iff [of d] doubly_succeeded_0_iff [of "event_attempts d"] by (simp add: stable_def)
  then have "cr_convergence_state rep = ''degraded'' \<longleftrightarrow> orphaned_claims d > 0 \<or> doubly_succeeded (event_attempts d) > 0"
    unfolding fields(3) by auto
  then show ?thesis using fields(1,2,4) unfolding bad by (simp add: fields(3))
qed

text \<open>The figures of a report add up: the total is the number of events, the acknowledged ones are
  those past queueing and processing, so the guard against a negative value is never needed, and
  no more events are reported processed than exist.\<close>

theorem report_adds_up:
  assumes "schema_ok d" and "build_convergence_report R ts d r = (rep, r')"
  shows "cr_total_events rep = int (length (events d))
    \<and> cr_acknowledged_events rep
        = int (count_where (\<lambda>e. ev_status e \<notin> {''received'', ''queued'', ''processing''}) (events d))
    \<and> cr_received_events rep + cr_queued_events rep + cr_processing_events rep + cr_acknowledged_events rep
        = cr_total_events rep
    \<and> cr_processed_events rep \<le> cr_total_events rep"
proof -
  have "set (map at_event_id (event_attempts d)) \<subseteq> set (map ev_id (events d))"
    using assms(1) by (auto simp: schema_ok_def attempt_keys_ok_def)
  then have "card (set (map at_event_id (event_attempts d))) \<le> length (events d)"
    by (metis List.finite_set card_length card_mono le_trans length_map)
  then have "length (remdups (map at_event_id (event_attempts d))) \<le> length (events d)"
    by (simp add: length_remdups_card_conv)
  with assms(2) status_partition [of "events d"] show ?thesis
    by (cases ts) (auto simp: report_defs split: prod.splits)
qed


section \<open>Witnesses\<close>

lemma stable_empty: "stable empty_db"
  by (simp add: stable_def empty_db_def count_where_def)

theorem converged_iff_stable_witness:
  "cr_converged (fst (build_convergence_report mem_api (1, 2, 3) empty_db mem_init))"
proof -
  have "cr_pending_events (fst (build_convergence_report mem_api (1, 2, 3) empty_db mem_init)) = 0"
    by (simp add: build_convergence_report_def redis_figures_of_def mem_defs mem_init_def Let_def)
  with converged_iff_stable [OF surjective_pairing, of mem_api "(1, 2, 3)" empty_db mem_init] stable_empty
  show ?thesis by simp
qed

theorem report_adds_up_witness:
  "cr_total_events (fst (build_convergence_report mem_api (1, 2, 3) empty_db mem_init)) = 0"
  using report_adds_up [OF schema_ok_empty surjective_pairing, of mem_api "(1, 2, 3)" mem_init]
  by (simp add: empty_db_def)


end
