(* ===== verification/Metrics.thy ===== *)
theory Metrics
  imports Convergence
begin

text \<open>
  \<^verbatim>\<open>api/app/api/metrics.py\<close>: the dashboard figures. Each of the five Redis figures has its own
  \<^verbatim>\<open>try\<close>, unlike those of the convergence report. Durations and rates are computed in floating
  point; \<^verbatim>\<open>sum\<close> of floats adds from the left, in the order the rows arrive.
  \<open>t\<close> is the clock reading of the endpoint, \<open>ts\<close> those of the convergence report.
\<close>

record metrics_out =
  mo_total_events :: int
  mo_succeeded :: int
  mo_failed :: int
  mo_dead_lettered :: int
  mo_retrying :: int
  mo_queued :: int
  mo_processing :: int
  mo_replay_requeued :: int
  mo_replay_success_rate :: rat
  mo_active_workers :: int
  mo_stale_workers :: int
  mo_acknowledged_events :: int
  mo_pending_events :: int
  mo_stream_backlog :: int
  mo_retrying_events :: int
  mo_dlq_events :: int
  mo_orphaned_records :: int
  mo_duplicate_deliveries :: int
  mo_duplicate_side_effects :: int
  mo_recent_failures :: int
  mo_convergence_state :: string
  mo_converged :: bool
  mo_worker_heartbeat_age_seconds :: "rat option"
  mo_processed_per_sec :: "rat option"
  mo_retry_queue_depth :: int
  mo_incoming_stream_depth :: int
  mo_retry_stream_depth :: int
  mo_incoming_pending :: int
  mo_retry_pending :: int
  mo_replay_latency_ms :: "rat option"
  mo_event_attempt_failures :: int
  mo_avg_attempt_duration_ms :: "rat option"
  mo_p50_attempt_duration_ms :: "rat option"
  mo_p95_attempt_duration_ms :: "rat option"

text \<open>\<^verbatim>\<open>try: n = int(..) except Exception: n = 0\<close>\<close>

definition figure_or_zero :: "(int, 'r) rcall \<Rightarrow> 'r \<Rightarrow> int \<times> 'r" where
  "figure_or_zero call r = (case call r of (Inl _, r') \<Rightarrow> (0, r') | (Inr n, r') \<Rightarrow> (n, r'))"

text \<open>The float literal \<^verbatim>\<open>0.95\<close>.\<close>

definition f095 :: rat where "f095 = fl (95 / 100)"

text \<open>\<^verbatim>\<open>sum\<close> of a list of floats\<close>

definition py_fsum :: "rat list \<Rightarrow> rat" where
  "py_fsum = foldl (\<lambda>acc x. fl (acc + x)) 0"

definition recorded_durations :: "db \<Rightarrow> int list" where
  "recorded_durations d = List.map_filter at_duration_ms (event_attempts d)"

definition p50_index :: "nat \<Rightarrow> nat" where
  "p50_index n = nat (py_int (fl (of_nat n * (1 / 2))))"

definition p95_index :: "nat \<Rightarrow> nat" where
  "p95_index n = min (nat (py_int (fl (of_nat n * f095)))) (n - 1)"

text \<open>Average (not rounded), p50 and p95, all absent without durations.\<close>

definition duration_stats :: "int list \<Rightarrow> rat option \<times> rat option \<times> rat option" where
  "duration_stats durations =
     (if durations = [] then (None, None, None)
      else let sorted_dur = sort durations; n = length sorted_dur
           in (Some (fl (of_int (sum_list sorted_dur) / of_nat n)),
               Some (fl (of_int (sorted_dur ! p50_index n))),
               Some (fl (of_int (sorted_dur ! p95_index n)))))"

definition replay_latencies :: "db \<Rightarrow> rat list" where
  "replay_latencies d = List.map_filter
     (\<lambda>l. map_option (\<lambda>t. fl (of_int (t - dl_created_at l) / 1000)) (dl_replayed_at l)) (dead_letters d)"

definition replay_rate :: "db \<Rightarrow> nat \<times> rat" where
  "replay_rate d =
     (let replayed_count = count_where (\<lambda>l. dl_replayed_at l \<noteq> None) (dead_letters d);
          replayed_succeeded = count_where (\<lambda>l. dl_replayed_at l \<noteq> None
            \<and> (\<exists>e \<in> set (events d). ev_id e = dl_event_id l \<and> ev_status e = ''succeeded'')) (dead_letters d)
      in (replayed_count,
          if replayed_count > 0 then fl (of_nat replayed_succeeded / of_nat replayed_count) else 0))"

definition get_metrics ::
  "'r redis_api \<Rightarrow> time \<times> time \<times> time \<Rightarrow> time \<Rightarrow> db \<Rightarrow> 'r \<Rightarrow> metrics_out \<times> 'r" where
  "get_metrics R ts t d r =
     (let (convergence, r0) = build_convergence_report R ts d r;
          counts = status_counts (events d);
          recent_cutoff = t - minutes 1;
          recent_processed = count_where (\<lambda>a. at_status a = ''succeeded''
            \<and> (case at_finished_at a of None \<Rightarrow> False | Some f \<Rightarrow> f \<ge> recent_cutoff)) (event_attempts d);
          (replayed_count, replay_success_rate) = replay_rate d;
          latencies = replay_latencies d;
          (retry_queue_depth, r1) = figure_or_zero (rd_zcard R RETRY_ZSET) r0;
          (incoming_stream_depth, r2) = figure_or_zero (rd_xlen R STREAM_INCOMING) r1;
          (retry_stream_depth, r3) = figure_or_zero (rd_xlen R STREAM_RETRY) r2;
          (incoming_pending, r4) = figure_or_zero (rd_xpending R STREAM_INCOMING GROUP) r3;
          (retry_pending, r5) = figure_or_zero (rd_xpending R STREAM_RETRY GROUP) r4;
          (avg_dur, p50_dur, p95_dur) = duration_stats (recorded_durations d)
      in (\<lparr>mo_total_events = sum_list (map snd counts),
           mo_succeeded = count_of counts ''succeeded'',
           mo_failed = count_of counts ''failed'',
           mo_dead_lettered = count_of counts ''dead_lettered'',
           mo_retrying = count_of counts ''retrying'',
           mo_queued = count_of counts ''queued'',
           mo_processing = count_of counts ''processing'',
           mo_replay_requeued = int replayed_count,
           mo_replay_success_rate = py_round 3 replay_success_rate,
           mo_active_workers = cr_active_workers convergence,
           mo_stale_workers = cr_stale_workers convergence,
           mo_acknowledged_events = cr_acknowledged_events convergence,
           mo_pending_events = cr_pending_events convergence,
           mo_stream_backlog = cr_stream_backlog convergence,
           mo_retrying_events = cr_retrying_events convergence,
           mo_dlq_events = cr_dlq_events convergence,
           mo_orphaned_records = cr_orphaned_records convergence,
           mo_duplicate_deliveries = cr_duplicate_deliveries convergence,
           mo_duplicate_side_effects = cr_duplicate_side_effects convergence,
           mo_recent_failures = cr_recent_failures convergence,
           mo_convergence_state = cr_convergence_state convergence,
           mo_converged = cr_converged convergence,
           mo_worker_heartbeat_age_seconds = cr_worker_heartbeat_age_seconds convergence,
           mo_processed_per_sec = Some (py_round 3 (fl (of_nat recent_processed / 60))),
           mo_retry_queue_depth = retry_queue_depth,
           mo_incoming_stream_depth = incoming_stream_depth,
           mo_retry_stream_depth = retry_stream_depth,
           mo_incoming_pending = incoming_pending,
           mo_retry_pending = retry_pending,
           mo_replay_latency_ms = (if latencies = [] then None
             else Some (py_round 1 (fl (py_fsum latencies / of_nat (length latencies))))),
           mo_event_attempt_failures = int (count_where (\<lambda>a. at_status a = ''failed'') (event_attempts d)),
           mo_avg_attempt_duration_ms = (case avg_dur of None \<Rightarrow> None
             | Some a \<Rightarrow> if a = 0 then None else Some (py_round 1 a)),
           mo_p50_attempt_duration_ms = p50_dur,
           mo_p95_attempt_duration_ms = p95_dur\<rparr>, r5))"

section \<open>Percentiles\<close>

lemma f095_val: "f095 = 4278419646001971 / 4503599627370496"
  unfolding f095_def by code_simp

lemma py_int_floor: "0 \<le> q \<Longrightarrow> py_int q = \<lfloor>q\<rfloor>"
  by (simp add: py_int_def)

lemma rank_of_index:
  assumes "sorted xs" and "i < length xs"
  shows "i < count_where (\<lambda>x. x \<le> xs ! i) xs"
proof -
  have "filter (\<lambda>x. x \<le> xs ! i) (take (Suc i) xs) = take (Suc i) xs"
    using assms by (auto simp: filter_id_conv in_set_conv_nth intro!: sorted_nth_mono)
  then have "Suc i \<le> count_where (\<lambda>x. x \<le> xs ! i) (take (Suc i) xs)"
    using assms(2) by (simp add: count_where_def)
  also have "\<dots> \<le> count_where (\<lambda>x. x \<le> xs ! i) (take (Suc i) xs @ drop (Suc i) xs)"
    unfolding count_where_def filter_append length_append by simp
  finally show ?thesis by simp
qed

lemma p50_index_val:
  assumes "n \<le> 2 ^ 49"
  shows "p50_index n = n div 2"
proof -
  have "fl (of_int (int n) / 2) = of_int (int n) / 2" by (rule fl_half) (use assms in simp)
  moreover have "\<lfloor>of_int (int n) / (2 :: rat)\<rfloor> = int (n div 2)"
    using floor_divide_of_int_eq [of "int n" 2, where ?'a = rat] by (simp add: zdiv_int)
  ultimately have "\<lfloor>fl (of_nat n / 2)\<rfloor> = int (n div 2)" by (simp only: of_int_of_nat_eq)
  moreover have "0 \<le> fl (of_nat n / 2)" by (simp add: fl_nonneg)
  ultimately show ?thesis by (simp add: p50_index_def py_int_floor)
qed

lemma rank_arith:
  "(19 * int n - 1) div 20 \<le> p \<Longrightarrow> 19 * n \<le> 20 * (nat p + 1)"
  "int n div 2 \<le> p \<Longrightarrow> n div 2 \<le> nat p"
proof -
  assume a: "(19 * int n - 1) div 20 \<le> p"
  then have "19 * int n \<le> 20 * (p + 1)" by presburger
  then have "int (19 * n) \<le> int (20 * (nat p + 1))" by simp
  then show "19 * n \<le> 20 * (nat p + 1)" by (simp only: of_nat_le_iff)
next
  assume "int n div 2 \<le> p"
  then show "n div 2 \<le> nat p" by (simp add: zdiv_int [symmetric] le_nat_iff)
qed

lemma p95_index_val:
  assumes "n \<le> 2 ^ 49" and "0 < n"
  shows "n div 2 \<le> p95_index n" and "p95_index n < n" and "19 * n \<le> 20 * (p95_index n + 1)"
proof -
  let ?q = "of_nat n * f095"
  have n: "of_nat n \<le> (2 ^ 49 :: rat)" using of_nat_mono [OF assms(1), where ?'a = rat] by simp
  have q: "of_nat n / 2 \<le> ?q" by (simp add: f095_val)
  let ?k = "(19 * int n - 1) div 20"
  have "of_int ?k \<le> ?q"
  proof -
    have "20 * ?k + 1 \<le> 19 * int n" by linarith
    then have "of_int (20 * ?k + 1) \<le> (of_int (19 * int n) :: rat)" by (simp only: of_int_le_iff)
    then have "20 * of_int ?k + 1 \<le> (19 * of_nat n :: rat)" by simp
    then show ?thesis using n by (simp add: f095_val)
  qed
  moreover have "\<bar>?k\<bar> \<le> 2 ^ 53" using assms by simp
  ultimately have fk: "of_int ?k \<le> fl ?q" by (rule fl_ge_of_int)
  have "of_int (int n div 2) \<le> ?q" using q by linarith
  moreover have "\<bar>int n div 2\<bar> \<le> 2 ^ 53" using assms by simp
  ultimately have fh: "of_int (int n div 2) \<le> fl ?q" by (rule fl_ge_of_int)
  have "0 \<le> fl ?q" by (rule fl_nonneg) (simp add: f095_val)
  then have i: "py_int (fl ?q) = \<lfloor>fl ?q\<rfloor>" by (rule py_int_floor)
  have "?k \<le> py_int (fl ?q)" "int n div 2 \<le> py_int (fl ?q)"
    using fk fh unfolding i by (simp_all add: le_floor_iff)
  then have "19 * n \<le> 20 * (nat (py_int (fl ?q)) + 1)" "n div 2 \<le> nat (py_int (fl ?q))"
    using rank_arith by blast+
  then show "n div 2 \<le> p95_index n" "p95_index n < n" "19 * n \<le> 20 * (p95_index n + 1)"
    using assms(2) unfolding p95_index_def min_def by auto
qed

lemma metrics_durations:
  "get_metrics R ts t d r = (m, r') \<Longrightarrow>
     (mo_p50_attempt_duration_ms m, mo_p95_attempt_duration_ms m) = snd (duration_stats (recorded_durations d))"
  by (auto simp: get_metrics_def Let_def split: prod.splits)

lemma metrics_counts:
  assumes "get_metrics R ts t d r = (m, r')"
  shows "mo_total_events m = int (length (events d))"
    and "mo_failed m = int (count_where (\<lambda>e. ev_status e = ''failed'') (events d))"
    and "mo_succeeded m = int (count_where (\<lambda>e. ev_status e = ''succeeded'') (events d))"
    and "mo_dead_lettered m = int (count_where (\<lambda>e. ev_status e = ''dead_lettered'') (events d))"
    and "mo_retrying m = int (count_where (\<lambda>e. ev_status e = ''retrying'') (events d))"
    and "mo_queued m = int (count_where (\<lambda>e. ev_status e = ''queued'') (events d))"
    and "mo_processing m = int (count_where (\<lambda>e. ev_status e = ''processing'') (events d))"
  using assms by (auto simp: get_metrics_def Let_def count_of_status status_counts_total split: prod.splits)

section \<open>Properties\<close>


section \<open>Witness\<close>

definition ex_timed_attempt :: "uuid \<Rightarrow> int \<Rightarrow> event_attempt" where
  "ex_timed_attempt i ms = \<lparr>at_id = i, at_event_id = ''e1'', at_attempt_number = 1, at_worker_id = None,
     at_worker_name = None, at_status = ''succeeded'', at_error_message = None, at_metadata_json = [],
     at_started_at = 0, at_finished_at = Some 10, at_duration_ms = Some ms\<rparr>"

definition ex_timed_db :: db where
  "ex_timed_db = empty_db\<lparr>event_attempts := [ex_timed_attempt ''a1'' 40, ex_timed_attempt ''a2'' 5, ex_timed_attempt ''a3'' 12]\<rparr>"


end
