(* ===== verification/Workflows.thy ===== *)
theory Workflows
  imports Convergence "HOL-Library.Multiset"
begin

text \<open>
  \<^verbatim>\<open>api/app/api/workflows.py\<close>: the workflow summaries and the timeline. The aggregation of the
  SQL query (\<^verbatim>\<open>GROUP BY workflow_id\<close> with the four \<^verbatim>\<open>case\<close> sums) is \<open>workflow_row\<close> on each
  group. Groups, and rows with equal sort keys, appear in the order of the table, an order the query
  itself leaves open. \<open>limit\<close> and \<open>offset\<close> are natural numbers: the database refuses negative ones.
\<close>

record workflow_summary_out =
  ws_workflow_id :: string
  ws_total_events :: int
  ws_succeeded :: int
  ws_failed :: int
  ws_dead_lettered :: int
  ws_in_flight :: int
  ws_has_failures :: bool
  ws_last_updated_at :: "time option"

record event_attempt_out =
  ao_id :: uuid
  ao_attempt_number :: int
  ao_worker_name :: "string option"
  ao_status :: string
  ao_error_message :: "string option"
  ao_metadata_json :: dict
  ao_started_at :: time
  ao_finished_at :: "time option"
  ao_duration_ms :: "int option"

record workflow_timeline_event_out =
  te_id :: uuid
  te_event_type :: string
  te_service_name :: string
  te_status :: string
  te_attempt_count :: int
  te_max_attempts :: int
  te_last_error :: "string option"
  te_created_at :: time
  te_updated_at :: time
  te_attempts :: "event_attempt_out list"

record workflow_timeline_out =
  wt_workflow_id :: string
  wt_events :: "workflow_timeline_event_out list"

definition SUCCEEDED :: "event \<Rightarrow> bool" where "SUCCEEDED e \<longleftrightarrow> ev_status e = ''succeeded''"
definition DEAD_LETTERED :: "event \<Rightarrow> bool" where "DEAD_LETTERED e \<longleftrightarrow> ev_status e = ''dead_lettered''"
definition FAILED :: "event \<Rightarrow> bool" where "FAILED e \<longleftrightarrow> ev_status e \<in> {''failed'', ''dead_lettered''}"
definition IN_FLIGHT :: "event \<Rightarrow> bool" where
  "IN_FLIGHT e \<longleftrightarrow> ev_status e \<in> {''queued'', ''processing'', ''retrying'', ''received''}"

text \<open>\<^verbatim>\<open>GROUP BY\<close>\<close>

definition group_rows :: "('a \<Rightarrow> 'k) \<Rightarrow> 'a list \<Rightarrow> ('k \<times> 'a list) list" where
  "group_rows key xs = map (\<lambda>k. (k, filter (\<lambda>x. key x = k) xs)) (remdups (map key xs))"

definition last_update :: "event list \<Rightarrow> time" where
  "last_update es = Max (set (map ev_updated_at es))"

text \<open>One aggregated row as a response object.\<close>

definition workflow_row :: "string \<times> event list \<Rightarrow> workflow_summary_out" where
  "workflow_row g = (case g of (wid, es) \<Rightarrow>
     \<lparr>ws_workflow_id = wid, ws_total_events = int (length es),
      ws_succeeded = int (count_where SUCCEEDED es), ws_failed = int (count_where FAILED es),
      ws_dead_lettered = int (count_where DEAD_LETTERED es), ws_in_flight = int (count_where IN_FLIGHT es),
      ws_has_failures = (count_where DEAD_LETTERED es > 0 \<or> count_where FAILED es > 0),
      ws_last_updated_at = Some (last_update es)\<rparr>)"

definition list_workflows :: "int \<Rightarrow> int \<Rightarrow> db \<Rightarrow> exn + workflow_summary_out list" where
  "list_workflows limit offset d =
     and_then (sql_page limit offset
       (sort_key (\<lambda>g. - last_update (snd g)) (group_rows ev_workflow_id (events d))))
       (\<lambda>rows. Inr (map workflow_row rows))"

definition attempt_model_validate :: "event_attempt \<Rightarrow> event_attempt_out" where
  "attempt_model_validate a = \<lparr>ao_id = at_id a, ao_attempt_number = at_attempt_number a,
     ao_worker_name = at_worker_name a, ao_status = at_status a, ao_error_message = at_error_message a,
     ao_metadata_json = at_metadata_json a, ao_started_at = at_started_at a,
     ao_finished_at = at_finished_at a, ao_duration_ms = at_duration_ms a\<rparr>"

definition timeline_event :: "db \<Rightarrow> event \<Rightarrow> workflow_timeline_event_out" where
  "timeline_event d e =
     (let sorted_attempts = sort_key at_attempt_number (filter (\<lambda>a. at_event_id a = ev_id e) (event_attempts d))
      in \<lparr>te_id = ev_id e, te_event_type = ev_event_type e, te_service_name = ev_service_name e,
          te_status = ev_status e, te_attempt_count = ev_attempt_count e, te_max_attempts = ev_max_attempts e,
          te_last_error = ev_last_error e, te_created_at = ev_created_at e, te_updated_at = ev_updated_at e,
          te_attempts = map attempt_model_validate sorted_attempts\<rparr>)"

definition workflow_events :: "string \<Rightarrow> db \<Rightarrow> event list" where
  "workflow_events workflow_id d =
     sort_key ev_created_at (filter (\<lambda>e. ev_workflow_id e = workflow_id) (events d))"

definition get_workflow_timeline :: "string \<Rightarrow> db \<Rightarrow> exn + workflow_timeline_out" where
  "get_workflow_timeline workflow_id d =
     (let es = workflow_events workflow_id d
      in if es = [] then Inl (HTTPException 404 ''workflow not found'')
         else Inr \<lparr>wt_workflow_id = workflow_id, wt_events = map (timeline_event d) es\<rparr>)"

definition get_workflow :: "string \<Rightarrow> db \<Rightarrow> exn + workflow_summary_out" where
  "get_workflow workflow_id d =
     (case group_rows ev_workflow_id (filter (\<lambda>e. ev_workflow_id e = workflow_id) (events d)) of
        [] \<Rightarrow> Inl (HTTPException 404 ''workflow not found'')
      | [row] \<Rightarrow> Inr (workflow_row row)
      | _ \<Rightarrow> Inl MultipleResultsFound)"

section \<open>Grouping\<close>

lemma map_fst_group_rows [simp]: "map fst (group_rows key xs) = remdups (map key xs)"
  by (simp add: group_rows_def comp_def)

lemma in_group_rows:
  "g \<in> set (group_rows key xs) \<longleftrightarrow> fst g \<in> key ` set xs \<and> snd g = filter (\<lambda>x. key x = fst g) xs"
  by (cases g) (auto simp: group_rows_def)

lemma remdups_replicate_Suc: "remdups (replicate (Suc n) k) = [k]"
  by (induction n) simp_all

lemma group_rows_one:
  "group_rows key (filter (\<lambda>x. key x = k) xs) =
    (if k \<in> key ` set xs then [(k, filter (\<lambda>x. key x = k) xs)] else [])"
proof (cases "k \<in> key ` set xs")
  case True
  let ?ys = "filter (\<lambda>x. key x = k) xs"
  have ys: "map key ?ys = replicate (length ?ys) k" by (rule map_replicate_const [THEN trans [rotated]]) simp
  have "?ys \<noteq> []" using True by (auto simp: filter_empty_conv)
  then obtain m where "length ?ys = Suc m" by (cases ?ys) auto
  with ys have "remdups (map key ?ys) = [k]" by (simp only: remdups_replicate_Suc)
  then show ?thesis using True by (simp add: group_rows_def)
qed (auto simp: group_rows_def filter_empty_conv)

lemma get_workflow_eq:
  "get_workflow wid d =
    (let es = filter (\<lambda>e. ev_workflow_id e = wid) (events d)
     in if es = [] then Inl (HTTPException 404 ''workflow not found'') else Inr (workflow_row (wid, es)))"
  by (auto simp: get_workflow_def group_rows_one Let_def filter_empty_conv)

text \<open>The three classes of the summary are disjoint, and complete on the statuses the system uses.\<close>

lemma summary_classes:
  "\<forall>e \<in> set es. SUCCEEDED e \<or> FAILED e \<or> IN_FLIGHT e \<Longrightarrow>
    count_where SUCCEEDED es + count_where FAILED es + count_where IN_FLIGHT es = length es"
  by (induction es) (auto simp: SUCCEEDED_def FAILED_def IN_FLIGHT_def)

lemma workflow_row_lookup:
  assumes "g \<in> set (group_rows ev_workflow_id (events d))"
  shows "get_workflow (fst g) d = Inr (workflow_row g)
    \<and> (ws_has_failures (workflow_row g) \<longleftrightarrow> (\<exists>e \<in> set (events d). ev_workflow_id e = fst g \<and> FAILED e))"
proof -
  from assms have g: "fst g \<in> ev_workflow_id ` set (events d)" "g = (fst g, filter (\<lambda>x. ev_workflow_id x = fst g) (events d))"
    by (simp_all add: in_group_rows prod_eq_iff)
  from g(1) have "filter (\<lambda>x. ev_workflow_id x = fst g) (events d) \<noteq> []" by (auto simp: filter_empty_conv)
  with g(2) have "get_workflow (fst g) d = Inr (workflow_row g)" by (simp add: get_workflow_eq)
  moreover have "ws_has_failures (workflow_row g) \<longleftrightarrow> (\<exists>e \<in> set (snd g). FAILED e)"
    by (cases g) (auto simp: workflow_row_def count_where_def filter_empty_conv FAILED_def DEAD_LETTERED_def)
  ultimately show ?thesis using assms by (auto simp: in_group_rows)
qed

lemma mset_group_totals:
  "sum_list (map (\<lambda>g. int (length (snd g))) (group_rows key xs)) = int (length xs)"
  using sum_groups [of "remdups (map key xs)" key xs] by (simp add: group_rows_def count_where_def comp_def)

section \<open>Properties\<close>


text \<open>The timeline of a workflow is complete and ordered: it is refused with 404 exactly when the
  workflow has no event, and otherwise lists exactly the events of the workflow in the order of their
  creation, each with exactly the attempts recorded for it, in the order of their numbers.\<close>

theorem timeline_complete_and_ordered:
  "case get_workflow_timeline wid d of
     Inl x \<Rightarrow> x = HTTPException 404 ''workflow not found'' \<and> wid \<notin> ev_workflow_id ` set (events d)
   | Inr line \<Rightarrow> wt_workflow_id line = wid \<and> wt_events line \<noteq> []
       \<and> mset (map te_id (wt_events line)) = image_mset ev_id (filter_mset (\<lambda>e. ev_workflow_id e = wid) (mset (events d)))
       \<and> sorted (map te_created_at (wt_events line))
       \<and> list_all (\<lambda>te. sorted (map ao_attempt_number (te_attempts te))
           \<and> mset (map ao_id (te_attempts te)) = image_mset at_id (filter_mset (\<lambda>a. at_event_id a = te_id te) (mset (event_attempts d))))
           (wt_events line)"
proof -
  let ?es = "workflow_events wid d"
  have "te_created_at (timeline_event d e) = ev_created_at e" "te_id (timeline_event d e) = ev_id e"
    "map ao_attempt_number (te_attempts (timeline_event d e)) = map at_attempt_number (sort_key at_attempt_number (filter (\<lambda>a. at_event_id a = ev_id e) (event_attempts d)))"
    "image_mset ao_id (mset (te_attempts (timeline_event d e))) = image_mset at_id (filter_mset (\<lambda>a. at_event_id a = ev_id e) (mset (event_attempts d)))" for e
    by (simp_all add: timeline_event_def Let_def attempt_model_validate_def multiset.map_comp comp_def)
  then have "list_all (\<lambda>te. sorted (map ao_attempt_number (te_attempts te))
      \<and> mset (map ao_id (te_attempts te)) = image_mset at_id (filter_mset (\<lambda>a. at_event_id a = te_id te) (mset (event_attempts d))))
      (map (timeline_event d) ?es)"
    and "te_created_at \<circ> timeline_event d = ev_created_at" and "te_id \<circ> timeline_event d = ev_id"
    by (simp_all add: list_all_iff comp_def)
  moreover have "mset ?es = filter_mset (\<lambda>e. ev_workflow_id e = wid) (mset (events d))" "sorted (map ev_created_at ?es)"
    by (simp_all add: workflow_events_def mset_filter)
  moreover have "?es = [] \<longleftrightarrow> wid \<notin> ev_workflow_id ` set (events d)"
    by (auto simp: workflow_events_def filter_empty_conv simp flip: set_empty)
  ultimately show ?thesis
    by (simp add: get_workflow_timeline_def Let_def multiset.map_comp)
qed

section \<open>Witness\<close>

definition ex_step :: "uuid \<Rightarrow> string \<Rightarrow> string \<Rightarrow> time \<Rightarrow> event" where
  "ex_step i wid st t = \<lparr>ev_id = i, ev_application_id = ''app'', ev_workflow_id = wid, ev_event_type = ''checkout.started'',
     ev_service_name = ''checkout'', ev_idempotency_key = i, ev_status = st, ev_payload_json = [],
     ev_metadata_json = [], ev_attempt_count = 1, ev_max_attempts = 4, ev_next_retry_at = None,
     ev_last_error = None, ev_created_at = t, ev_updated_at = t\<rparr>"

definition ex_steps_db :: db where
  "ex_steps_db = empty_db\<lparr>events := [ex_step ''e1'' ''w1'' ''succeeded'' 5, ex_step ''e2'' ''w2'' ''dead_lettered'' 6,
     ex_step ''e3'' ''w1'' ''queued'' 7]\<rparr>"


end
