(* ===== verification/Insights.thy ===== *)
theory Insights
  imports Workflows EventBackends
begin

text \<open>
  \<^verbatim>\<open>api/app/api/insights.py\<close>: the aggregate views. \<open>avg\<close> is the \<^verbatim>\<open>avg\<close> of the database
  server, a decimal number (absent for no rows) whose precision is the server's; it is an argument.
  The histogram is the nested loop of the code over the list of upper bounds, with its
  \<^verbatim>\<open>for .. else\<close>; \<open>bin_spec\<close> is its specification.
\<close>

record service_row =
  sr_service :: string
  sr_total :: int
  sr_succeeded :: int
  sr_failed :: int
  sr_retrying :: int
  sr_success_rate :: rat
  sr_avg_duration_ms :: "rat option"

definition has_status :: "string \<Rightarrow> event \<Rightarrow> bool" where
  "has_status s e \<longleftrightarrow> ev_status e = s"

definition service_durations :: "db \<Rightarrow> string \<Rightarrow> int list" where
  "service_durations d svc = List.map_filter at_duration_ms
     (filter (\<lambda>a. \<exists>e \<in> set (events d). ev_id e = at_event_id a \<and> ev_service_name e = svc) (event_attempts d))"

definition services_breakdown :: "(int list \<Rightarrow> rat option) \<Rightarrow> db \<Rightarrow> service_row list" where
  "services_breakdown avg d =
     sort_key (\<lambda>x. - sr_total x)
       (map (\<lambda>(svc, es).
          let avg_dur = avg (service_durations d svc);
              total = length es;
              success = count_where (has_status ''succeeded'') es
          in \<lparr>sr_service = svc, sr_total = int total, sr_succeeded = int success,
              sr_failed = int (count_where (has_status ''dead_lettered'') es),
              sr_retrying = int (count_where (has_status ''retrying'') es),
              sr_success_rate = (if total \<noteq> 0 then py_round 3 (fl (of_nat success / of_nat total)) else 0),
              sr_avg_duration_ms = (case avg_dur of None \<Rightarrow> None
                | Some a \<Rightarrow> if a = 0 then None else Some (py_round 1 (fl a)))\<rparr>)
          (group_rows ev_service_name (events d)))"

record error_row =
  er_error :: string
  er_event_type :: string
  er_count :: int

definition top_errors :: "int \<Rightarrow> db \<Rightarrow> exn + error_row list" where
  "top_errors limit d =
     and_then (sql_page limit 0 (sort_key (\<lambda>g. - int (length (snd g)))
          (group_rows (\<lambda>e. (the (ev_last_error e), ev_event_type e)) (filter (\<lambda>e. ev_last_error e \<noteq> None) (events d)))))
       (\<lambda>rows. Inr (map (\<lambda>((err, ty), es). \<lparr>er_error = err, er_event_type = ty, er_count = int (length es)\<rparr>) rows))"

definition bins :: "int list" where
  "bins = [0, 25, 50, 75, 100, 150, 200, 300, 500, 1000]"

definition labels :: "string list" where
  "labels = [''0-25'', ''25-50'', ''50-75'', ''75-100'', ''100-150'', ''150-200'', ''200-300'', ''300-500'', ''500-1k'', ''1k+'']"

text \<open>The inner loop: the index at which it breaks, none when it runs through.\<close>

fun find_bin :: "int \<Rightarrow> nat \<Rightarrow> int list \<Rightarrow> nat option" where
  "find_bin d i [] = None"
| "find_bin d i (hi # his) = (if d < hi then Some i else find_bin d (Suc i) his)"

definition count_duration :: "int \<Rightarrow> int list \<Rightarrow> int list" where
  "count_duration d counts =
     (case find_bin d 0 (drop 1 bins) of
        Some i \<Rightarrow> counts[i := counts ! i + 1]
      | None \<Rightarrow> counts[length counts - 1 := counts ! (length counts - 1) + 1])"

record histogram =
  hg_bins :: "string list"
  hg_counts :: "int list"
  hg_total :: int

definition latency_histogram :: "db \<Rightarrow> histogram" where
  "latency_histogram d =
     (let durations = List.map_filter at_duration_ms (event_attempts d)
      in \<lparr>hg_bins = labels, hg_counts = fold count_duration durations (replicate (length labels) 0),
          hg_total = int (length durations)\<rparr>)"

record event_type_row =
  et_event_type :: string
  et_total :: int
  et_succeeded :: int
  et_dead_lettered :: int
  et_retrying :: int
  et_avg_attempts :: rat

definition event_type_breakdown :: "(int list \<Rightarrow> rat option) \<Rightarrow> db \<Rightarrow> event_type_row list" where
  "event_type_breakdown avg d =
     map (\<lambda>(ty, es). \<lparr>et_event_type = ty, et_total = int (length es),
         et_succeeded = int (count_where (has_status ''succeeded'') es),
         et_dead_lettered = int (count_where (has_status ''dead_lettered'') es),
         et_retrying = int (count_where (has_status ''retrying'') es),
         et_avg_attempts = py_round 2 (fl (case avg (map ev_attempt_count es) of None \<Rightarrow> 0 | Some a \<Rightarrow> a))\<rparr>)
       (sort_key (\<lambda>g. - int (length (snd g))) (group_rows ev_event_type (events d)))"

record throughput_row =
  tr_minute :: string
  tr_count :: int
  tr_succeeded :: int
  tr_failed :: int

definition date_trunc_minute :: "time \<Rightarrow> time" where
  "date_trunc_minute t = t - t mod minutes 1"

definition throughput_per_minute :: "time \<Rightarrow> int \<Rightarrow> db \<Rightarrow> exn + throughput_row list" where
  "throughput_per_minute now n d =
     and_then (datetime_minus now (minutes n)) (\<lambda>cutoff.
      let rows = filter (\<lambda>a. case at_finished_at a of None \<Rightarrow> False | Some f \<Rightarrow> f \<ge> cutoff) (event_attempts d)
      in Inr (map (\<lambda>(bucket, as). \<lparr>tr_minute = isoformat 0 bucket, tr_count = int (length as),
             tr_succeeded = int (count_where (\<lambda>a. at_status a = ''succeeded'') as),
             tr_failed = int (count_where (\<lambda>a. at_status a = ''failed'') as)\<rparr>)
           (sort_key fst (group_rows (\<lambda>a. date_trunc_minute (the (at_finished_at a))) rows))))"

section \<open>The histogram\<close>

text \<open>The bin a duration belongs to: the first takes everything below 25, the last everything from 1000 on.\<close>

definition bin_spec :: "nat \<Rightarrow> int \<Rightarrow> bool" where
  "bin_spec i d \<longleftrightarrow> (i = 0 \<or> bins ! i \<le> d) \<and> (i = 9 \<or> d < bins ! Suc i)"

definition bin_of :: "int \<Rightarrow> nat" where
  "bin_of d = (case find_bin d 0 (drop 1 bins) of Some j \<Rightarrow> j | None \<Rightarrow> 9)"

lemma bin_of_less: "bin_of d < 10"
  by (auto simp: bin_of_def bins_def)

lemma find_bin_spec: "i < 10 \<Longrightarrow> bin_spec i d \<longleftrightarrow> bin_of d = i"
proof -
  assume "i < 10"
  then have "i = 0 \<or> i = 1 \<or> i = 2 \<or> i = 3 \<or> i = 4 \<or> i = 5 \<or> i = 6 \<or> i = 7 \<or> i = 8 \<or> i = 9"
    by presburger
  then show ?thesis by (elim disjE) (auto simp: bin_spec_def bin_of_def bins_def)
qed

lemma count_duration_nth:
  assumes "length counts = 10"
  shows "length (count_duration d counts) = 10"
    and "i < 10 \<Longrightarrow> count_duration d counts ! i = counts ! i + (if bin_spec i d then 1 else 0)"
proof -
  have e: "count_duration d counts = counts[bin_of d := counts ! bin_of d + 1]"
    using assms by (simp add: count_duration_def bin_of_def split: option.split)
  then show "length (count_duration d counts) = 10" using assms by simp
  show "count_duration d counts ! i = counts ! i + (if bin_spec i d then 1 else 0)" if "i < 10"
    using that assms find_bin_spec [OF that, of d] by (auto simp: e nth_list_update)
qed

lemma histogram_fold:
  "length counts = 10 \<Longrightarrow> length (fold count_duration ds counts) = 10
    \<and> (\<forall>i < 10. fold count_duration ds counts ! i = counts ! i + int (count_where (bin_spec i) ds))"
proof (induction ds arbitrary: counts)
  case (Cons d ds)
  from count_duration_nth [OF Cons.prems] Cons.IH [of "count_duration d counts"] show ?case by simp
qed simp

section \<open>Properties\<close>

text \<open>The latency histogram is exact: it has ten labels and ten counts, the count at each position
  is the number of recorded durations in that bin (the first bin takes everything below 25 ms, the
  last everything from 1000 ms on, the others are closed below and open above), every
  duration is in exactly one bin, and the counts add up to the reported total.\<close>

theorem histogram_exact:
  "length (hg_counts (latency_histogram d)) = length (hg_bins (latency_histogram d))
    \<and> map (\<lambda>i. hg_counts (latency_histogram d) ! i) [0..<10]
        = map (\<lambda>i. int (count_where (bin_spec i) (List.map_filter at_duration_ms (event_attempts d)))) [0..<10]
    \<and> (\<exists>!i. i < 10 \<and> bin_spec i x)
    \<and> sum_list (hg_counts (latency_histogram d)) = hg_total (latency_histogram d)"
proof -
  let ?ds = "List.map_filter at_duration_ms (event_attempts d)"
  let ?c = "hg_counts (latency_histogram d)"
  have l: "length labels = 10" by (simp add: labels_def)
  have c: "length ?c = 10" "i < 10 \<Longrightarrow> ?c ! i = int (count_where (bin_spec i) ?ds)" for i
    using histogram_fold [of "replicate (length labels) 0" ?ds] l by (simp_all add: latency_histogram_def Let_def)
  have spec: "bin_spec i = (\<lambda>x. bin_of x = i)" if "i < 10" for i
    using find_bin_spec [OF that] by (intro ext)
  have one: "\<exists>!i. i < 10 \<and> bin_spec i x" by (rule ex1I [of _ "bin_of x"]) (auto simp: find_bin_spec bin_of_less)
  have "sum_list ?c = sum_list (map (\<lambda>i. ?c ! i) [0..<10])" by (metis c(1) map_nth)
  also have "map (\<lambda>i. ?c ! i) [0..<10] = map (\<lambda>i. int (count_where (\<lambda>x. bin_of x = i) ?ds)) [0..<10]"
    by (rule map_cong) (use c(2) spec in \<open>simp_all\<close>)
  also have "sum_list (map (\<lambda>i. int (count_where (\<lambda>x. bin_of x = i) ?ds)) [0..<10]) = int (length ?ds)"
    by (rule sum_groups) (use bin_of_less in auto)
  finally show ?thesis using c one
    by (simp add: latency_histogram_def Let_def l)
qed

end
