(* ===== verification/IncidentSummary.thy ===== *)
theory IncidentSummary
  imports Workflows Config
begin

text \<open>
  \<^verbatim>\<open>api/app/core/incident_summary.py\<close> and \<^verbatim>\<open>api/app/api/incidents.py\<close>: a summary of a
  workflow, kept in the database and reused for a minute. The language-model client is an argument
  \<open>ask\<close>: from the data put into the prompt it returns the text of the answer or raises.
  \<open>now\<close> is the clock reading of the cache query, \<open>i\<close> and \<open>t\<close> the id and creation time of a new row.
\<close>

definition template_summarize :: "event list \<Rightarrow> string" where
  "template_summarize es = (case es of
      [] \<Rightarrow> ''No events found for this workflow.''
    | e0 # _ \<Rightarrow>
      (let n = length es;
           fails = filter (\<lambda>e. ev_status e = ''dead_lettered'') es;
           retried = filter (\<lambda>e. ev_attempt_count e > 1) es
       in case fails of
            [] \<Rightarrow> ''Workflow '' @ ev_workflow_id e0 @ '': '' @ show_nat n @ '' event(s), all completed successfully.''
          | f # _ \<Rightarrow>
            (let extra = (if retried \<noteq> [] then '' ('' @ show_nat (length retried) @ '' event(s) required retries.)'' else [])
             in ''Workflow '' @ ev_workflow_id e0 @ '': '' @ show_nat n @ '' event(s), '' @ show_nat (length fails)
                @ '' dead-lettered. First failure at '' @ [CHR 0x27] @ ev_event_type f @ [CHR 0x27] @ '' after ''
                @ show_int (ev_attempt_count f) @ '' attempt(s). Last error: ''
                @ (case ev_last_error f of None \<Rightarrow> ''unknown'' | Some m \<Rightarrow> if m = [] then ''unknown'' else m)
                @ ''.'' @ extra)))"

record event_brief =
  eb_event_type :: string
  eb_status :: string
  eb_attempts :: int
  eb_last_error :: "string option"

definition brief :: "event \<Rightarrow> event_brief" where
  "brief e = \<lparr>eb_event_type = ev_event_type e, eb_status = ev_status e,
     eb_attempts = ev_attempt_count e, eb_last_error = ev_last_error e\<rparr>"

type_synonym summary_client = "string \<Rightarrow> string \<times> event_brief list \<Rightarrow> exn + string"

definition CLAUDE_MODEL :: string where "CLAUDE_MODEL = ''claude-haiku-4-5''"

text \<open>With no events the index \<^verbatim>\<open>events[0]\<close> raises inside the \<^verbatim>\<open>try\<close>, so the template answers.\<close>

definition claude_summarize :: "summary_client \<Rightarrow> event list \<Rightarrow> string \<Rightarrow> string \<times> string option" where
  "claude_summarize ask es api_key = (case es of
      [] \<Rightarrow> (template_summarize es, None)
    | e0 # _ \<Rightarrow> (case ask api_key (ev_workflow_id e0, map brief (take 50 es)) of
        Inl _ \<Rightarrow> (template_summarize es, None)
      | Inr answer \<Rightarrow> (answer, Some CLAUDE_MODEL)))"

text \<open>The workflow id has its column's width; the text has none, but no NUL either.\<close>

definition summary_columns :: "incident_summary \<Rightarrow> (nat \<times> string) list" where
  "summary_columns s = [(255, is_workflow_id s), (length (is_summary_text s), is_summary_text s)]"

definition insert_incident_summary :: "incident_summary \<Rightarrow> db \<Rightarrow> exn + db" where
  "insert_incident_summary s d = (case column_error (summary_columns s) of
     Some x \<Rightarrow> Inl x
   | None \<Rightarrow>
       if is_id s \<in> is_id ` set (incident_summaries d) then Inl IntegrityError
       else Inr (d\<lparr>incident_summaries := incident_summaries d @ [s]\<rparr>))"

definition cached_summary :: "time \<Rightarrow> string \<Rightarrow> db \<Rightarrow> incident_summary option" where
  "cached_summary now workflow_id d =
     (case sort_key (\<lambda>s. - is_created_at s)
         (filter (\<lambda>s. is_workflow_id s = workflow_id \<and> is_created_at s > now - seconds 60) (incident_summaries d)) of
        [] \<Rightarrow> None
      | s # _ \<Rightarrow> Some s)"

definition summarize_workflow ::
  "settings \<Rightarrow> summary_client \<Rightarrow> time \<Rightarrow> uuid \<Rightarrow> time \<Rightarrow> string \<Rightarrow> db \<Rightarrow> (exn + incident_summary) \<times> db" where
  "summarize_workflow S ask now i t workflow_id d =
     (case cached_summary now workflow_id d of
        Some s \<Rightarrow> (Inr s, d)
      | None \<Rightarrow>
          (let es = workflow_events workflow_id d;
               (answer, model_name) = (if anthropic_api_key S \<noteq> [] then claude_summarize ask es (anthropic_api_key S)
                                    else (template_summarize es, None));
               summary = \<lparr>is_id = i, is_workflow_id = workflow_id, is_summary_text = answer,
                          is_model_name = model_name, is_created_at = t\<rparr>
           in case insert_incident_summary summary d of
                Inl x \<Rightarrow> (Inl x, d)
              | Inr d' \<Rightarrow> (Inr summary, d')))"

record incident_summary_out =
  io_id :: uuid
  io_workflow_id :: string
  io_summary_text :: string
  io_model_name :: "string option"
  io_created_at :: time

definition summarize_incident ::
  "settings \<Rightarrow> summary_client \<Rightarrow> time \<Rightarrow> uuid \<Rightarrow> time \<Rightarrow> string \<Rightarrow> db \<Rightarrow> (exn + incident_summary_out) \<times> db" where
  "summarize_incident S ask now i t workflow_id d =
     (case summarize_workflow S ask now i t workflow_id d of
        (Inl x, d') \<Rightarrow> (Inl x, d')
      | (Inr s, d') \<Rightarrow> (Inr \<lparr>io_id = is_id s, io_workflow_id = is_workflow_id s, io_summary_text = is_summary_text s,
           io_model_name = is_model_name s, io_created_at = is_created_at s\<rparr>, d'))"

section \<open>Lemmas\<close>

lemma cached_summary_None:
  "cached_summary now wid d = None \<longleftrightarrow>
    (\<forall>s \<in> set (incident_summaries d). is_workflow_id s = wid \<longrightarrow> is_created_at s \<le> now - seconds 60)"
proof -
  have "(case sort_key f xs of [] \<Rightarrow> None | s # _ \<Rightarrow> Some s) = None \<longleftrightarrow> xs = []" for f :: "incident_summary \<Rightarrow> int" and xs
    using length_sort [of f xs] by (cases "sort_key f xs") auto
  then show ?thesis unfolding cached_summary_def by (simp add: filter_empty_conv not_less)
qed

lemma cached_summary_newest:
  assumes "s \<in> set (incident_summaries d)" and "is_workflow_id s = wid" and "now < is_created_at s + seconds 60"
    and "\<And>s'. s' \<in> set (incident_summaries d) \<Longrightarrow> is_workflow_id s' = wid \<Longrightarrow> s' \<noteq> s \<Longrightarrow> is_created_at s' < is_created_at s"
  shows "cached_summary now wid d = Some s"
proof -
  let ?xs = "filter (\<lambda>s. is_workflow_id s = wid \<and> is_created_at s > now - seconds 60) (incident_summaries d)"
  have s: "s \<in> set (sort_key (\<lambda>s. - is_created_at s) ?xs)" using assms(1-3) by simp
  then have "sort_key (\<lambda>s. - is_created_at s) ?xs \<noteq> []" by (metis empty_iff empty_set)
  then obtain y ys where y: "sort_key (\<lambda>s. - is_created_at s) ?xs = y # ys" by (meson neq_Nil_conv)
  have "sorted (map (\<lambda>s. - is_created_at s) (y # ys))" unfolding y [symmetric] by simp
  then have "is_created_at s \<le> is_created_at y" using s unfolding y by auto
  moreover have "y \<in> set (sort_key (\<lambda>s. - is_created_at s) ?xs)" unfolding y by simp
  ultimately have "y = s" using assms(4) [of y] by (cases "y = s") auto
  then show ?thesis unfolding cached_summary_def y by simp
qed

section \<open>Properties\<close>

text \<open>A summary is computed at most once a minute: when the workflow has no summary younger than 60
  seconds, a request that succeeds stores exactly one new summary and returns it, one that fails
  stores nothing, and every request until 60 seconds after the creation of the summary, with
  whatever settings and client, returns that same summary and leaves the database as it is.\<close>

theorem summary_cached_for_a_minute:
  assumes "\<forall>s \<in> set (incident_summaries d). is_workflow_id s = wid \<longrightarrow> is_created_at s \<le> now - seconds 60"
    and "now \<le> t" and "summarize_workflow S ask now i t wid d = (res, d')"
  shows "case res of Inl x \<Rightarrow> d' = d
    | Inr s \<Rightarrow> is_workflow_id s = wid \<and> is_created_at s = t \<and> d' = d\<lparr>incident_summaries := incident_summaries d @ [s]\<rparr>
        \<and> (\<forall>now2 < t + seconds 60. \<forall>S2 ask2 i2 t2. summarize_workflow S2 ask2 now2 i2 t2 wid d' = (Inr s, d'))"
proof (cases res)
  case (Inl x)
  then show ?thesis using assms(3)
    by (auto simp: summarize_workflow_def Let_def split: option.splits prod.splits sum.splits)
next
  case (Inr s)
  have none: "cached_summary now wid d = None" using assms(1) by (simp only: cached_summary_None)
  from assms(3) Inr none have s: "is_workflow_id s = wid" "is_created_at s = t"
    and d': "d' = d\<lparr>incident_summaries := incident_summaries d @ [s]\<rparr>"
    by (auto simp: summarize_workflow_def insert_incident_summary_def Let_def split: prod.splits sum.splits option.splits if_splits)
  have "cached_summary now2 wid d' = Some s" if "now2 < t + seconds 60" for now2
    by (rule cached_summary_newest) (use assms(1,2) that in \<open>auto simp: s d'\<close>)
  with Inr s d' show ?thesis by (simp add: summarize_workflow_def)
qed

text \<open>A workflow that is still running is summarised as a success: as soon as it has an event and none
  of its events is dead-lettered, the template says that all events completed successfully, even
  while events are queued, processing or waiting for a retry.\<close>

theorem unfinished_workflow_summarized_as_success:
  assumes "e \<in> set (events d)" and "ev_workflow_id e = wid" and "IN_FLIGHT e"
    and "\<forall>e' \<in> set (events d). ev_workflow_id e' = wid \<longrightarrow> \<not> DEAD_LETTERED e'"
  shows "template_summarize (workflow_events wid d)
    = ''Workflow '' @ wid @ '': '' @ show_nat (length (workflow_events wid d)) @ '' event(s), all completed successfully.''"
proof -
  have set: "set (workflow_events wid d) = {e \<in> set (events d). ev_workflow_id e = wid}"
    by (auto simp: workflow_events_def)
  with assms obtain e0 es where w: "workflow_events wid d = e0 # es" by (cases "workflow_events wid d") auto
  have "ev_workflow_id e0 = wid" using set w by auto
  moreover have "filter (\<lambda>e. ev_status e = ''dead_lettered'') (workflow_events wid d) = []"
    using assms(4) set by (auto simp: filter_empty_conv DEAD_LETTERED_def)
  ultimately show ?thesis by (simp add: template_summarize_def w Let_def)
qed

section \<open>Witnesses\<close>

definition ex_summary_client :: summary_client where
  "ex_summary_client key p = Inr ''text''"

theorem summary_cached_for_a_minute_witness:
  "\<exists>s. summarize_workflow (default_settings None ''host'') ex_summary_client 100 ''s1'' 101 ''w9'' ex_steps_db
        = (Inr s, ex_steps_db\<lparr>incident_summaries := [s]\<rparr>)
    \<and> summarize_workflow (default_settings None ''host'') ex_summary_client 200 ''s2'' 201 ''w9'' (ex_steps_db\<lparr>incident_summaries := [s]\<rparr>)
        = (Inr s, ex_steps_db\<lparr>incident_summaries := [s]\<rparr>)"
proof -
  have e: "incident_summaries ex_steps_db = []" by (simp add: ex_steps_db_def empty_db_def)
  have "\<exists>s d'. summarize_workflow (default_settings None ''host'') ex_summary_client 100 ''s1'' 101 ''w9'' ex_steps_db = (Inr s, d')"
    by (simp add: summarize_workflow_def cached_summary_def ex_steps_db_def ex_step_def empty_db_def workflow_events_def
        default_settings_def template_summarize_def insert_incident_summary_def summary_columns_def column_error_def Let_def)
  then obtain s d' where r: "summarize_workflow (default_settings None ''host'') ex_summary_client 100 ''s1'' 101 ''w9'' ex_steps_db = (Inr s, d')"
    by blast
  have "\<forall>s \<in> set (incident_summaries ex_steps_db). is_workflow_id s = ''w9'' \<longrightarrow> is_created_at s \<le> 100 - seconds 60"
    by (simp add: e)
  from summary_cached_for_a_minute [OF this _ r] r show ?thesis by (auto simp: e)
qed

theorem unfinished_workflow_summarized_as_success_witness:
  "template_summarize (workflow_events ''w1'' ex_steps_db)
    = ''Workflow '' @ ''w1'' @ '': '' @ show_nat (length (workflow_events ''w1'' ex_steps_db)) @ '' event(s), all completed successfully.''"
  by (rule unfinished_workflow_summarized_as_success [of "ex_step ''e3'' ''w1'' ''queued'' 7"])
    (auto simp: ex_steps_db_def ex_step_def IN_FLIGHT_def DEAD_LETTERED_def)

end
