(* ===== verification/AiInsights.thy ===== *)
theory AiInsights
  imports Metrics Insights IncidentSummary
begin

text \<open>
  \<^verbatim>\<open>api/app/core/ai_insights.py\<close>: anomaly detection, retry-policy recommendations and root-cause
  analysis. Rates and thresholds are floating-point, with the literals of the code; messages use
  Python's fixed-point formats. The \<^verbatim>\<open>avg\<close> and \<^verbatim>\<open>LIKE\<close> of the database server and the
  language-model client are arguments.
\<close>

text \<open>The formats \<^verbatim>\<open>:.nf\<close> and \<^verbatim>\<open>:.1%\<close> of a float.\<close>

definition fmt_fixed :: "nat \<Rightarrow> rat \<Rightarrow> string" where
  "fmt_fixed n q =
     (let m = rne (\<bar>q\<bar> * 10 ^ n)
      in (if q < 0 then ''-'' else []) @ show_int (m div 10 ^ n) @ (if n = 0 then [] else ''.'' @ pad n (m mod 10 ^ n)))"

definition fmt_percent :: "rat \<Rightarrow> string" where
  "fmt_percent q = fmt_fixed 1 (fl (q * 100)) @ ''%''"

section \<open>Anomaly detection\<close>

record window_stats =
  wst_total :: int
  wst_fail_rate :: rat
  wst_avg_ms :: rat
  wst_p95_ms :: int

definition stats_of :: "event_attempt list \<Rightarrow> window_stats option" where
  "stats_of rows =
     (let durations = List.map_filter at_duration_ms rows;
          total = length rows;
          failed = count_where (\<lambda>a. at_status a = ''failed'') rows
      in if durations = [] \<or> total = 0 then None
         else let durations_sorted = sort durations
              in Some \<lparr>wst_total = int total, wst_fail_rate = fl (of_nat failed / of_nat total),
                   wst_avg_ms = fl (fl (of_int (sum_list durations)) / of_nat (length durations)),
                   wst_p95_ms = durations_sorted ! p95_index (length durations_sorted)\<rparr>)"

datatype anomaly =
    ErrorRateSpike string rat rat
  | LatencyDegradation string int int
  | ThroughputDrop string rat rat
  | ServiceOutlier string string rat

fun severity :: "anomaly \<Rightarrow> string" where
  "severity (ErrorRateSpike _ _ _) = ''high''"
| "severity (LatencyDegradation _ _ _) = ''medium''"
| "severity (ThroughputDrop _ _ _) = ''high''"
| "severity (ServiceOutlier _ _ _) = ''medium''"

definition window_anomalies :: "int \<Rightarrow> window_stats \<Rightarrow> window_stats \<Rightarrow> anomaly list" where
  "window_anomalies lookback base rec =
     (let minutes_half = max (fl (of_int lookback / 2)) 1;
          base_rate = fl (of_int (wst_total base) / minutes_half);
          rec_rate = fl (of_int (wst_total rec) / minutes_half)
      in (if wst_fail_rate rec > fl (5 / 100) \<and> wst_fail_rate rec > fl (wst_fail_rate base * 2)
          then [ErrorRateSpike (''Error rate jumped from '' @ fmt_percent (wst_fail_rate base) @ '' to '' @ fmt_percent (wst_fail_rate rec))
                 (py_round 3 (wst_fail_rate base)) (py_round 3 (wst_fail_rate rec))] else [])
       @ (if of_int (wst_p95_ms rec) > fl (fl (of_int (wst_p95_ms base)) * 2) \<and> wst_p95_ms rec > 200
          then [LatencyDegradation (''p95 latency jumped from '' @ show_int (wst_p95_ms base) @ ''ms to '' @ show_int (wst_p95_ms rec) @ ''ms'')
                 (wst_p95_ms base) (wst_p95_ms rec)] else [])
       @ (if base_rate > 5 \<and> rec_rate < fl (base_rate * (1 / 2))
          then [ThroughputDrop (''Throughput dropped from '' @ fmt_fixed 0 base_rate @ ''/min to '' @ fmt_fixed 0 rec_rate @ ''/min'')
                 (py_round 1 base_rate) (py_round 1 rec_rate)] else []))"

definition dlq_rate :: "event list \<Rightarrow> rat" where
  "dlq_rate es = fl (of_nat (count_where (has_status ''dead_lettered'') es) / of_nat (length es))"

text \<open>A service is an outlier when its rate exceeds three times the average over the services.\<close>

definition service_anomalies :: "(string \<times> event list) list \<Rightarrow> anomaly list" where
  "service_anomalies svc_stats =
     (if svc_stats = [] then []
      else
        let with_total = filter (\<lambda>g. length (snd g) \<noteq> 0) svc_stats;
            avg_dlq_rate = fl (py_fsum (map (\<lambda>g. dlq_rate (snd g)) with_total) / of_nat (length with_total))
        in concat (map (\<lambda>(svc, es).
             if length es > 10 then
               let rate = dlq_rate es
               in if rate > fl (avg_dlq_rate * 3) \<and> rate > fl (5 / 100)
                  then [ServiceOutlier (svc @ '' has '' @ fmt_percent rate @ '' DLQ rate (3x fleet avg)'') svc (py_round 3 rate)]
                  else []
             else []) svc_stats))"

record anomaly_report =
  an_checked_at :: string
  an_lookback_minutes :: int
  an_baseline :: "window_stats option"
  an_current :: "window_stats option"
  an_anomalies :: "anomaly list"
  an_anomaly_count :: nat
  an_status :: string

definition finished_in :: "(time \<Rightarrow> bool) \<Rightarrow> event_attempt \<Rightarrow> bool" where
  "finished_in P a = (case at_finished_at a of None \<Rightarrow> False | Some f \<Rightarrow> P f)"

definition detect_anomalies :: "time \<Rightarrow> int \<Rightarrow> db \<Rightarrow> exn + anomaly_report" where
  "detect_anomalies now lookback_minutes d =
     and_then (datetime_minus now (minutes lookback_minutes)) (\<lambda>cutoff.
     and_then (datetime_minus now (minutes (lookback_minutes div 2))) (\<lambda>half.
      let base = stats_of (filter (finished_in (\<lambda>f. cutoff \<le> f \<and> f < half)) (event_attempts d));
          rec = stats_of (filter (finished_in (\<lambda>f. half \<le> f)) (event_attempts d));
          anomalies = (case (base, rec) of (Some b, Some c) \<Rightarrow> window_anomalies lookback_minutes b c | _ \<Rightarrow> [])
            @ service_anomalies (group_rows ev_service_name (filter (\<lambda>e. ev_created_at e \<ge> cutoff) (events d)))
      in Inr \<lparr>an_checked_at = isoformat 0 now, an_lookback_minutes = lookback_minutes, an_baseline = base,
          an_current = rec, an_anomalies = anomalies, an_anomaly_count = length anomalies,
          an_status = (if anomalies \<noteq> [] then ''anomaly'' else ''normal'')\<rparr>))"

section \<open>Retry-policy recommendations\<close>

record recommendation =
  rc_event_type :: string
  rc_total :: int
  rc_success_rate :: rat
  rc_dead_letter_rate :: rat
  rc_avg_attempts :: rat
  rc_recommendation :: string
  rc_suggested_max_attempts :: int
  rc_rationale :: string

text \<open>The em dash of the rationale texts, as its UTF-8 bytes.\<close>

definition em_dash :: string where
  "em_dash = [CHR 0xE2, CHR 0x80, CHR 0x94]"

definition policy_decision :: "rat \<Rightarrow> rat \<Rightarrow> string \<times> int \<times> string" where
  "policy_decision dead_rate avg_att =
     (if dead_rate < fl (2 / 100) \<and> avg_att < fl (13 / 10)
      then (''reduce_attempts'', 2, ''Failures are rare and most events succeed on first attempt '' @ em_dash @ '' reducing max_attempts saves DB load.'')
      else if dead_rate > fl (10 / 100)
      then (''increase_backoff'', 6, ''High dead-letter rate ('' @ fmt_percent dead_rate @ '') suggests downstream is slow to recover '' @ em_dash @ '' extend backoff window.'')
      else if avg_att > fl (25 / 10)
      then (''investigate_root_cause'', 4, ''Most events need many retries '' @ em_dash @ '' fix the underlying flakiness rather than tuning retries.'')
      else (''keep_current'', 4, ''Current retry policy is well-tuned for this event type.''))"

definition recommend_retry_policy :: "(int list \<Rightarrow> rat option) \<Rightarrow> db \<Rightarrow> recommendation list" where
  "recommend_retry_policy avg d =
     sort_key (\<lambda>x. - rc_dead_letter_rate x)
       (concat (map (\<lambda>(ty, es).
          let total = length es in
          if total < 10 then []
          else
            let ok = count_where (has_status ''succeeded'') es;
                dead = count_where (has_status ''dead_lettered'') es;
                avg_att = fl (case avg (map ev_attempt_count es) of None \<Rightarrow> 0 | Some a \<Rightarrow> a);
                success_rate = fl (of_nat ok / of_nat total);
                dead_rate = fl (of_nat dead / of_nat total);
                (name, suggested, rationale) = policy_decision dead_rate avg_att
            in [\<lparr>rc_event_type = ty, rc_total = int total, rc_success_rate = py_round 3 success_rate,
                 rc_dead_letter_rate = py_round 3 dead_rate, rc_avg_attempts = py_round 2 avg_att,
                 rc_recommendation = name, rc_suggested_max_attempts = suggested, rc_rationale = rationale\<rparr>])
          (group_rows ev_event_type (events d))))"

section \<open>Root-cause analysis\<close>

definition any_of :: "string list \<Rightarrow> string \<Rightarrow> bool" where
  "any_of words s = list_ex (\<lambda>w. str_contains w s) words"

definition classify_error :: "string \<Rightarrow> string \<times> string" where
  "classify_error err_lower =
     (if any_of [''timeout'', ''timed out''] err_lower
      then (''timeout'', ''Downstream service is slow or unreachable. Check service health and connection limits.'')
      else if any_of [''crash'', ''killed''] err_lower
      then (''process_crash'', ''Worker process died mid-execution. Check OOM, deploy events, or simulated crash injections.'')
      else if any_of [''connection'', ''refused''] err_lower
      then (''connectivity'', ''Network or service unavailability. Verify dependency endpoints and DNS.'')
      else if any_of [''auth'', ''permission'', ''forbidden''] err_lower
      then (''auth'', ''Credentials or permissions issue. Rotate keys and verify IAM roles.'')
      else if any_of [''not found'', ''404''] err_lower
      then (''resource_missing'', ''A referenced resource doesn'' @ [CHR 0x27] @ ''t exist. Check upstream order-of-operations.'')
      else if any_of [''simulated''] err_lower
      then (''simulated_failure'', ''Synthetic failure injected by the demo workload generator (expected).'')
      else (''unknown'', ''Could not classify error pattern automatically.''))"

text \<open>\<^verbatim>\<open>s.split()[0] if s.split() else ""\<close>\<close>

definition first_word :: "string \<Rightarrow> string" where
  "first_word s = takeWhile (\<lambda>c. \<not> is_space c) (dropWhile is_space s)"

text \<open>\<^verbatim>\<open>Counter(xs).most_common(n)\<close>: by count, ties in the order of first occurrence.\<close>

definition most_common :: "nat \<Rightarrow> string list \<Rightarrow> (string \<times> nat) list" where
  "most_common n xs = take n (sort_key (\<lambda>kc. - int (snd kc))
     (map (\<lambda>k. (k, count_where (\<lambda>x. x = k) xs)) (rev (remdups (rev xs)))))"

record root_prompt =
  rp_workflow :: string
  rp_failed_steps :: "event_brief list"
  rp_top_errors :: "(string \<times> nat) list"
  rp_recovered :: nat
  rp_similar :: nat

record root_cause =
  rt_workflow_id :: string
  rt_primary_event_type :: string
  rt_primary_service :: string
  rt_primary_status :: string
  rt_primary_attempts :: int
  rt_primary_error :: string
  rt_category :: string
  rt_likely_cause :: string
  rt_ai_summary :: "string option"
  rt_model :: "string option"
  rt_similar_count :: nat
  rt_similar_recovered :: nat
  rt_similar_dead_lettered :: nat
  rt_recovery_rate :: rat
  rt_top_error_patterns :: "(string \<times> nat) list"
  rt_events_total :: nat
  rt_events_failed :: nat

datatype analysis =
    WorkflowNotFound string
  | NoFailures string nat
  | RootCause root_cause

definition similar_failures :: "(string \<Rightarrow> string \<Rightarrow> bool) \<Rightarrow> event \<Rightarrow> string \<Rightarrow> string \<Rightarrow> db \<Rightarrow> event list" where
  "similar_failures like primary error_msg workflow_id d =
     take 20 (sort_key (\<lambda>e. - ev_updated_at e)
       (filter (\<lambda>e. ev_event_type e = ev_event_type primary \<and> ev_workflow_id e \<noteq> workflow_id
          \<and> (case ev_last_error e of None \<Rightarrow> False | Some m \<Rightarrow> like m (''%'' @ first_word error_msg @ ''%'')))
        (events d)))"

definition root_cause_analysis ::
  "(string \<Rightarrow> string \<Rightarrow> bool) \<Rightarrow> settings \<Rightarrow> (string \<Rightarrow> root_prompt \<Rightarrow> exn + string) \<Rightarrow> string \<Rightarrow> db \<Rightarrow> analysis" where
  "root_cause_analysis like S ask workflow_id d =
     (let es = workflow_events workflow_id d;
          failed = filter (\<lambda>e. ev_status e \<in> {''failed'', ''dead_lettered'', ''retrying''}) es
      in if es = [] then WorkflowNotFound workflow_id
         else (case failed of
           [] \<Rightarrow> NoFailures workflow_id (length es)
         | primary # _ \<Rightarrow>
           (let error_msg = (case ev_last_error primary of None \<Rightarrow> ''unknown error'' | Some m \<Rightarrow> if m = [] then ''unknown error'' else m);
                similar = similar_failures like primary error_msg workflow_id d;
                top = most_common 5 (filter (\<lambda>m. m \<noteq> []) (List.map_filter ev_last_error similar));
                similar_dlq = count_where (\<lambda>e. ev_status e = ''dead_lettered'') similar;
                similar_recovered = length similar - similar_dlq;
                (category, likely_cause) = classify_error (py_lower error_msg);
                answer = (if anthropic_api_key S = [] then Inl (ValueError [])
                  else ask (anthropic_api_key S) \<lparr>rp_workflow = workflow_id, rp_failed_steps = map brief (take 5 failed),
                     rp_top_errors = take 3 top, rp_recovered = similar_recovered, rp_similar = length similar\<rparr>)
            in RootCause \<lparr>rt_workflow_id = workflow_id, rt_primary_event_type = ev_event_type primary,
                 rt_primary_service = ev_service_name primary, rt_primary_status = ev_status primary,
                 rt_primary_attempts = ev_attempt_count primary, rt_primary_error = error_msg,
                 rt_category = category, rt_likely_cause = likely_cause,
                 rt_ai_summary = (case answer of Inl _ \<Rightarrow> None | Inr s \<Rightarrow> Some s),
                 rt_model = (case answer of Inl _ \<Rightarrow> None | Inr _ \<Rightarrow> Some CLAUDE_MODEL),
                 rt_similar_count = length similar, rt_similar_recovered = similar_recovered,
                 rt_similar_dead_lettered = similar_dlq,
                 rt_recovery_rate = (if similar \<noteq> [] then py_round 3 (fl (of_nat similar_recovered / of_nat (length similar))) else 0),
                 rt_top_error_patterns = top, rt_events_total = length es, rt_events_failed = length failed\<rparr>)))"

section \<open>Outliers\<close>

lemma dlq_rate_float: "0 \<le> dlq_rate es" "fl (dlq_rate es) = dlq_rate es" "fl (dlq_rate es / 2) = dlq_rate es / 2"
  by (simp_all add: dlq_rate_def fl_float fl_nonneg)

text \<open>With at most two services three times the average is at least every rate.\<close>

lemma two_rates:
  assumes "0 \<le> p" "fl p = p" "0 \<le> q" "fl q = q" and half: "fl (p / 2) = p / 2" "fl (q / 2) = q / 2"
  shows "p \<le> fl (fl (py_fsum [p] / 1) * 3)"
    and "p \<le> fl (fl (py_fsum [p, q] / 2) * 3)" and "q \<le> fl (fl (py_fsum [p, q] / 2) * 3)"
proof -
  have s: "py_fsum [p] = p" "py_fsum [p, q] = fl (p + q)" using assms by (simp_all add: py_fsum_def)
  have "fl p \<le> fl (p * 3)" using assms(1) by (intro fl_mono) simp
  then show "p \<le> fl (fl (py_fsum [p] / 1) * 3)" using assms(2) s by simp
  have "x \<le> fl (fl (fl (p + q) / 2) * 3)" if x: "x \<in> {p, q}" for x
  proof -
    have fx: "fl x = x" "0 \<le> x" "fl (x / 2) = x / 2" using x assms by auto
    have "fl x \<le> fl (p + q)" using x assms by (intro fl_mono) auto
    then have "fl (x / 2) \<le> fl (fl (p + q) / 2)" using fx by (intro fl_mono) simp
    then have "fl x \<le> fl (fl (fl (p + q) / 2) * 3)" using fx by (intro fl_mono) simp
    then show ?thesis using fx by simp
  qed
  then show "p \<le> fl (fl (py_fsum [p, q] / 2) * 3)" "q \<le> fl (fl (py_fsum [p, q] / 2) * 3)" using s by simp_all
qed

lemma service_anomalies_two:
  assumes "length gs \<le> 2" and "\<forall>g \<in> set gs. snd g \<noteq> []"
  shows "service_anomalies gs = []"
proof -
  consider "gs = []" | g where "gs = [g]" | g h where "gs = [g, h]"
    using assms(1) by (cases gs; cases "List.tl gs") auto
  then show ?thesis
  proof cases
    case 2
    then show ?thesis using assms(2) two_rates(1) [OF dlq_rate_float(1,2,1,2,3,3), of "snd g"]
      by (cases g) (simp add: service_anomalies_def Let_def not_less)
  next
    case 3
    then show ?thesis using assms(2) two_rates(2) [OF dlq_rate_float(1,2,1,2,3,3), of "snd g" "snd h"]
        two_rates(3) [OF dlq_rate_float(1,2,1,2,3,3), of "snd h" "snd g"]
      by (cases g; cases h) (simp add: service_anomalies_def Let_def not_less)
  qed (simp add: service_anomalies_def)
qed

section \<open>Properties\<close>

text \<open>The service-outlier check cannot fire in a fleet of one or two services: three times the
  average of the rates, computed in floating point, is never below either rate, so a service whose
  every event is dead-lettered goes unreported beside a healthy one. The report fails only when the
  requested window begins before the year 1 or ends after the year 9999.\<close>

theorem two_services_have_no_outlier:
  assumes "card (ev_service_name ` {e \<in> set (events d). now - minutes lookback \<le> ev_created_at e}) \<le> 2"
  shows "case detect_anomalies now lookback d of
      Inl x \<Rightarrow> x = OverflowError \<and> (\<not> datetime_ok (now - minutes lookback) \<or> \<not> datetime_ok (now - minutes (lookback div 2)))
    | Inr rep \<Rightarrow> (\<forall>msg svc rate. ServiceOutlier msg svc rate \<notin> set (an_anomalies rep))"
proof -
  let ?es = "filter (\<lambda>e. ev_created_at e \<ge> now - minutes lookback) (events d)"
  have "length (group_rows ev_service_name ?es) = card (ev_service_name ` set ?es)"
    by (simp add: group_rows_def length_remdups_card_conv)
  with assms have "length (group_rows ev_service_name ?es) \<le> 2" by simp
  moreover have "\<forall>g \<in> set (group_rows ev_service_name ?es). snd g \<noteq> []"
    by (auto simp: in_group_rows filter_empty_conv)
  ultimately have "service_anomalies (group_rows ev_service_name ?es) = []" by (rule service_anomalies_two)
  then show ?thesis
    by (auto simp: detect_anomalies_def datetime_minus_def Let_def window_anomalies_def split: option.splits)
qed

section \<open>Witness\<close>

definition ex_fleet_db :: db where
  "ex_fleet_db = empty_db\<lparr>events := ex_step ''e1'' ''w1'' ''succeeded'' 5
     # replicate 11 ((ex_step ''e2'' ''w2'' ''dead_lettered'' 6)\<lparr>ev_service_name := ''payment''\<rparr>)\<rparr>"

theorem two_services_have_no_outlier_witness:
  "\<exists>rep. detect_anomalies 10 30 ex_fleet_db = Inr rep \<and> (\<forall>msg svc rate. ServiceOutlier msg svc rate \<notin> set (an_anomalies rep))"
proof -
  have "ev_service_name ` {e \<in> set (events ex_fleet_db). 10 - minutes 30 \<le> ev_created_at e} \<subseteq> {''checkout'', ''payment''}"
    by (auto simp: ex_fleet_db_def ex_step_def)
  then have "card (ev_service_name ` {e \<in> set (events ex_fleet_db). 10 - minutes 30 \<le> ev_created_at e}) \<le> card {''checkout'', ''payment''}"
    by (rule card_mono [rotated]) simp
  then have "card (ev_service_name ` {e \<in> set (events ex_fleet_db). 10 - minutes 30 \<le> ev_created_at e}) \<le> 2" by simp
  from two_services_have_no_outlier [OF this] show ?thesis by (simp add: datetime_ok_def split: sum.splits)
qed

end
