(* ===== verification/Health.thy ===== *)
theory Health
  imports EventBackends
begin

text \<open>
  \<^verbatim>\<open>api/app/api/health.py\<close>, and the start-up hook and exception handlers of
  \<^verbatim>\<open>api/app/main.py\<close>. The outcome of \<^verbatim>\<open>SELECT 1\<close> and the four readings of
  \<^verbatim>\<open>time.perf_counter()\<close> are arguments of the readiness probe.
\<close>

definition health :: "(string \<times> string) list" where
  "health = [(''status'', ''ok''), (''version'', ''0.1.0'')]"

definition liveness :: "settings \<Rightarrow> (string \<times> string) list" where
  "liveness S = [(''status'', ''ok''), (''service'', ''converge-backend''), (''env'', environment S)]"

definition backend_status :: "'h http_api \<Rightarrow> settings \<Rightarrow> 'h \<Rightarrow> json \<times> 'h" where
  "backend_status H S h = backend_health H S h"

definition backend_status_stats :: "'h http_api \<Rightarrow> settings \<Rightarrow> 'h \<Rightarrow> json \<times> 'h" where
  "backend_status_stats H S h = backend_stats H S h"

datatype probe = ProbeOk rat | ProbeDown string

fun probe_status :: "probe \<Rightarrow> string" where
  "probe_status (ProbeOk ms) = ''ok''"
| "probe_status (ProbeDown err) = ''down''"

definition probe_of :: "rat \<Rightarrow> rat \<Rightarrow> exn + 'a \<Rightarrow> probe" where
  "probe_of t0 t1 res = (case res of
     Inr _ \<Rightarrow> ProbeOk (py_round 1 (fl (fl (t1 - t0) * 1000)))
   | Inl x \<Rightarrow> ProbeDown (take 120 (exn_str x)))"

record readiness_out =
  ro_status_code :: int
  ro_status :: string
  ro_checks :: "(string \<times> probe) list"
  ro_env :: string

definition readiness ::
  "'r redis_api \<Rightarrow> settings \<Rightarrow> exn + unit \<Rightarrow> rat \<times> rat \<times> rat \<times> rat \<Rightarrow> 'r \<Rightarrow> readiness_out \<times> 'r" where
  "readiness R S select_1 clock r = (case clock of (t0, t1, t2, t3) \<Rightarrow>
     let postgres = probe_of t0 t1 select_1;
         (ping, r') = rd_ping R r;
         deps = [(''postgres'', postgres), (''redis'', probe_of t2 t3 ping)];
         all_ok = list_all (\<lambda>kv. probe_status (snd kv) = ''ok'') deps
     in (\<lparr>ro_status_code = (if all_ok then 200 else 503), ro_status = (if all_ok then ''ok'' else ''degraded''),
          ro_checks = deps, ro_env = environment S\<rparr>, r'))"

text \<open>The start-up hook: both groups are created, and a Redis that is not ready is tolerated.\<close>

definition lifespan_startup :: "'r redis_api \<Rightarrow> 'r \<Rightarrow> 'r" where
  "lifespan_startup R r =
     (case ensure_consumer_group R STREAM_INCOMING r of
        (Inl _, r1) \<Rightarrow> r1
      | (Inr _, r1) \<Rightarrow> snd (ensure_consumer_group R STREAM_RETRY r1))"

text \<open>\<open>rid\<close> is \<^verbatim>\<open>request.state.request_id\<close>, absent when the logging middleware did not run.\<close>

definition validation_handler :: "string option \<Rightarrow> json list \<Rightarrow> int \<times> dict" where
  "validation_handler rid errs = (422, [(''error'', JStr ''validation_error''), (''details'', JList errs),
     (''request_id'', opt_str rid)])"

definition http_exception_handler :: "string option \<Rightarrow> int \<Rightarrow> string \<Rightarrow> int \<times> dict" where
  "http_exception_handler rid status_code detail = (status_code, [(''error'', JStr detail), (''request_id'', opt_str rid)])"

section \<open>Readiness\<close>

text \<open>The probe answers 200 exactly when both dependencies answered.\<close>

lemma ready_iff:
  assumes "readiness R S q clock r = (rep, r')"
  shows "ro_status_code rep = 200 \<longleftrightarrow> (\<exists>u. q = Inr u) \<and> (\<exists>u r1. rd_ping R r = (Inr u, r1))"
    and "ro_status_code rep \<in> {200, 503}"
    and "ro_status rep = ''ok'' \<longleftrightarrow> ro_status_code rep = 200"
  using assms by (cases clock; auto simp: readiness_def probe_of_def Let_def split: prod.splits sum.splits if_splits)+


end
