(* ===== verification/Security.thy ===== *)
theory Security
  imports EventBackends "HOL-Library.AList"
begin

text \<open>
  \<^verbatim>\<open>api/app/core/security.py\<close> and the middleware of \<^verbatim>\<open>api/app/main.py\<close>: the API-key check, the
  sliding-window rate limiter, the security headers, the body-size cap, and the order in which
  \<^verbatim>\<open>add_middleware\<close> stacks them (the last one added is the outermost).

  SHA-256 is a parameter \<open>H\<close>; Starlette's \<^verbatim>\<open>CORSMiddleware\<close> and the routed application are
  parameters of the stack. A handler takes the request and the state it works on, the Redis
  server and the rest, and returns a response or an exception. The locale \<open>redis_limiter\<close> extends
  the Redis contract by the commands only the limiter uses.
\<close>

record http_request =
  rq_method :: string
  rq_path :: string
  rq_headers :: "(string \<times> string) list"
  rq_client :: "string option"

record http_response =
  hr_status :: int
  hr_headers :: "(string \<times> string) list"
  hr_body :: string

type_synonym ('r, 's) handler = "http_request \<Rightarrow> 'r \<times> 's \<Rightarrow> (exn + http_response) \<times> 'r \<times> 's"

definition header_of :: "http_request \<Rightarrow> string \<Rightarrow> string option" where
  "header_of rq n = map_of (rq_headers rq) n"

text \<open>\<^verbatim>\<open>headers[n] = v\<close> and \<^verbatim>\<open>headers.setdefault(n, v)\<close>\<close>

definition set_header :: "string \<Rightarrow> string \<Rightarrow> http_response \<Rightarrow> http_response" where
  "set_header n v rs = rs\<lparr>hr_headers := AList.update n v (hr_headers rs)\<rparr>"

definition setdefault_header :: "string \<Rightarrow> string \<Rightarrow> http_response \<Rightarrow> http_response" where
  "setdefault_header n v rs =
     (if map_of (hr_headers rs) n = None then rs\<lparr>hr_headers := hr_headers rs @ [(n, v)]\<rparr> else rs)"

section \<open>API keys\<close>

definition hash_key :: "(string \<Rightarrow> string) \<Rightarrow> string \<Rightarrow> string" where
  "hash_key H key = H key"

definition PUBLIC_PATHS :: "string list" where
  "PUBLIC_PATHS = [''/health'', ''/health/live'', ''/health/ready'', ''/docs'', ''/redoc'', ''/openapi.json'']"

definition require_api_key :: "(string \<Rightarrow> string) \<Rightarrow> settings \<Rightarrow> string option \<Rightarrow> exn + unit" where
  "require_api_key H S x_api_key =
     (if \<not> is_production S then Inr ()
      else if \<not> api_keys_set S then Inl (HTTPException 500 ''API keys not configured'')
      else (case x_api_key of
         None \<Rightarrow> Inl (HTTPException 401 ''missing X-API-Key header'')
       | Some k \<Rightarrow>
           if k = [] then Inl (HTTPException 401 ''missing X-API-Key header'')
           else (let provided_hash = hash_key H k;
                     valid = list_ex (\<lambda>c. provided_hash = hash_key H c) (api_keys_list S)
                 in if \<not> valid then Inl (HTTPException 403 ''invalid api key'') else Inr ())))"

definition client_ip :: "http_request \<Rightarrow> string" where
  "client_ip rq = (case header_of rq ''x-forwarded-for'' of
     Some fwd \<Rightarrow> if fwd \<noteq> [] then py_strip (hd (py_split (CHR '','') fwd))
                  else (case rq_client rq of Some h \<Rightarrow> h | None \<Rightarrow> ''unknown'')
   | None \<Rightarrow> (case rq_client rq of Some h \<Rightarrow> h | None \<Rightarrow> ''unknown''))"

section \<open>The rate limiter\<close>

text \<open>
  \<^verbatim>\<open>str(x)\<close> of a non-negative float in the range Python writes without exponent: the fewest
  fractional digits that round back to \<open>x\<close>.
\<close>

definition frac_digits :: "rat \<Rightarrow> nat" where
  "frac_digits x = (case find (\<lambda>k. fl (of_int (rne (x * 10 ^ k)) / 10 ^ k) = x) [0..<25] of Some k \<Rightarrow> k | None \<Rightarrow> 25)"

definition py_float_str :: "rat \<Rightarrow> string" where
  "py_float_str x =
     (let k = frac_digits x; m = rne (x * 10 ^ k)
      in show_int (m div 10 ^ k) @ ''.'' @ (if k = 0 then ''0'' else pad k (m mod 10 ^ k)))"

record rate_limits =
  rl_write :: int
  rl_read :: int
  rl_window :: int

definition rate_pipeline :: "'r redis_api \<Rightarrow> string \<Rightarrow> int \<Rightarrow> rat \<Rightarrow> (int, 'r) rcall" where
  "rate_pipeline R key window now r =
     (case rd_zremrangebyscore R key 0 (fl (now - of_int window)) r of
        (Inl x, r1) \<Rightarrow> (Inl x, r1)
      | (Inr _, r1) \<Rightarrow>
     (case rd_zadd R key (py_float_str now) now r1 of
        (Inl x, r2) \<Rightarrow> (Inl x, r2)
      | (Inr _, r2) \<Rightarrow>
     (case rd_zcard R key r2 of
        (Inl x, r3) \<Rightarrow> (Inl x, r3)
      | (Inr count, r3) \<Rightarrow>
     (case rd_expire R key (window + 1) r3 of
        (Inl x, r4) \<Rightarrow> (Inl x, r4)
      | (Inr _, r4) \<Rightarrow> (Inr count, r4)))))"

definition is_write :: "http_request \<Rightarrow> bool" where
  "is_write rq \<longleftrightarrow> rq_method rq \<in> {''POST'', ''PUT'', ''DELETE'', ''PATCH''}"

definition rate_key :: "http_request \<Rightarrow> string" where
  "rate_key rq = ''rl:'' @ (if is_write rq then ''w'' else ''r'') @ '':'' @ client_ip rq"

definition exempt :: "string \<Rightarrow> bool" where
  "exempt path \<longleftrightarrow> path \<in> set PUBLIC_PATHS \<or> starts_with ''/health'' path"

definition too_many :: "int \<Rightarrow> int \<Rightarrow> http_response" where
  "too_many limit reset_at = \<lparr>hr_status = 429, hr_headers = [
       (''Content-Type'', ''application/json''), (''Retry-After'', ''60''),
       (''X-RateLimit-Limit'', show_int limit), (''X-RateLimit-Remaining'', ''0''),
       (''X-RateLimit-Reset'', show_int reset_at)],
     hr_body = ''{\"error\":\"rate limit exceeded\",\"retry_after\":60}''\<rparr>"

definition rate_limit_dispatch ::
  "'r redis_api \<Rightarrow> rate_limits \<Rightarrow> rat \<Rightarrow> ('r, 's) handler \<Rightarrow> ('r, 's) handler" where
  "rate_limit_dispatch R L now call_next rq st =
     (if exempt (rq_path rq) then call_next rq st
      else
      (let limit = (if is_write rq then rl_write L else rl_read L) in
       case rate_pipeline R (rate_key rq) (rl_window L) now (fst st) of
         (Inl _, r1) \<Rightarrow> call_next rq (r1, snd st)
       | (Inr count, r1) \<Rightarrow>
           (let remaining = max 0 (limit - count);
                reset_at = py_int (fl (now + of_int (rl_window L)))
            in if count > limit then (Inr (too_many limit reset_at), r1, snd st)
               else (case call_next rq (r1, snd st) of
                  (Inl x, st') \<Rightarrow> (Inl x, st')
                | (Inr rs, st') \<Rightarrow>
                    (Inr (set_header ''X-RateLimit-Reset'' (show_int reset_at)
                           (set_header ''X-RateLimit-Remaining'' (show_int remaining)
                             (set_header ''X-RateLimit-Limit'' (show_int limit) rs))), st')))))"

section \<open>Headers and body size\<close>

definition security_headers_dispatch :: "settings \<Rightarrow> ('r, 's) handler \<Rightarrow> ('r, 's) handler" where
  "security_headers_dispatch S call_next rq st =
     (case call_next rq st of
        (Inl x, st') \<Rightarrow> (Inl x, st')
      | (Inr rs, st') \<Rightarrow>
          (let rs1 = setdefault_header ''Permissions-Policy'' ''geolocation=(),microphone=(),camera=()''
                 (setdefault_header ''Referrer-Policy'' ''strict-origin-when-cross-origin''
                   (setdefault_header ''X-Frame-Options'' ''DENY''
                     (setdefault_header ''X-Content-Type-Options'' ''nosniff'' rs)))
           in (Inr (if is_production S
                    then setdefault_header ''Strict-Transport-Security'' ''max-age=31536000; includeSubDomains'' rs1
                    else rs1), st')))"

text \<open>
  \<^verbatim>\<open>cl.isdigit()\<close> also accepts the superscripts one, two and three of Latin-1, on which
  \<^verbatim>\<open>int(cl)\<close> raises, as it does on more than 4300 digits.
\<close>

definition is_digit_char :: "char \<Rightarrow> bool" where
  "is_digit_char c \<longleftrightarrow> is_dec_digit c \<or> (of_char c :: nat) \<in> {178, 179, 185}"

definition py_isdigit :: "string \<Rightarrow> bool" where
  "py_isdigit s \<longleftrightarrow> s \<noteq> [] \<and> list_all is_digit_char s"

definition py_int_of_digits :: "string \<Rightarrow> exn + nat" where
  "py_int_of_digits s =
     (if list_all is_dec_digit s \<and> length s \<le> 4300 then Inr (read_nat s)
      else Inl (ValueError ''invalid literal for int()''))"

definition max_body_dispatch :: "int \<Rightarrow> ('r, 's) handler \<Rightarrow> ('r, 's) handler" where
  "max_body_dispatch limit call_next rq st =
     (case header_of rq ''content-length'' of
        None \<Rightarrow> call_next rq st
      | Some cl \<Rightarrow>
          if cl \<noteq> [] \<and> py_isdigit cl then
            (case py_int_of_digits cl of
               Inl x \<Rightarrow> (Inl x, st)
             | Inr n \<Rightarrow>
                 if int n > limit
                 then (Inr \<lparr>hr_status = 413, hr_headers = [(''Content-Type'', ''application/json'')],
                        hr_body = ''{\"error\":\"payload too large\",\"max_bytes\":'' @ show_int limit @ ''}''\<rparr>, st)
                 else call_next rq st)
          else call_next rq st)"

section \<open>The stack of main.py\<close>

text \<open>\<open>fresh_rid\<close> and \<open>duration\<close> are what \<^verbatim>\<open>make_request_id()\<close> and the two timer readings give.\<close>

definition request_logging ::
  "string \<Rightarrow> rat \<Rightarrow> ('r, 's) handler \<Rightarrow> http_request \<Rightarrow> 'r \<times> 's \<Rightarrow> http_response \<times> 'r \<times> 's" where
  "request_logging fresh_rid duration call_next rq st =
     (let rid = (case header_of rq ''x-request-id'' of
                   Some v \<Rightarrow> if v \<noteq> [] then v else fresh_rid | None \<Rightarrow> fresh_rid);
          (res, st') = call_next rq st;
          rs = (case res of
             Inr rs \<Rightarrow> rs
           | Inl _ \<Rightarrow> \<lparr>hr_status = 500, hr_headers = [(''Content-Type'', ''application/json'')],
               hr_body = ''{\"error\":\"internal server error\",\"request_id\":\"'' @ rid @ ''\"}''\<rparr>)
      in (set_header ''X-Response-Time-Ms'' (py_float_str (py_round 1 (fl (duration * 1000))))
            (set_header ''X-Request-ID'' rid rs), st'))"

definition app_stack ::
  "'r redis_api \<Rightarrow> settings \<Rightarrow> rat \<Rightarrow> string \<Rightarrow> rat
    \<Rightarrow> (('r, 's) handler \<Rightarrow> ('r, 's) handler) \<Rightarrow> ('r, 's) handler
    \<Rightarrow> http_request \<Rightarrow> 'r \<times> 's \<Rightarrow> http_response \<times> 'r \<times> 's" where
  "app_stack R S now fresh_rid duration cors routed =
     request_logging fresh_rid duration
       (cors
         (max_body_dispatch (max_request_body_bytes S)
           (rate_limit_dispatch R \<lparr>rl_write = rate_limit_write_per_min S, rl_read = rate_limit_read_per_min S,
                rl_window = 60\<rparr> now
             (security_headers_dispatch S routed))))"

section \<open>The limiter's Redis contract\<close>

locale redis_limiter = redis_service R up zs fresh pend slen
  for R :: "'r redis_api"
    and up :: "'r \<Rightarrow> bool"
    and zs :: "'r \<Rightarrow> string \<Rightarrow> string \<Rightarrow> rat option"
    and fresh :: "'r \<Rightarrow> string \<Rightarrow> message list"
    and pend :: "'r \<Rightarrow> string \<Rightarrow> message list"
    and slen :: "'r \<Rightarrow> string \<Rightarrow> nat" +
  assumes zremrange_up: "up r \<Longrightarrow> \<exists>cnt r'. rd_zremrangebyscore R k lo hi r = (Inr cnt, r') \<and> up r'"
    and zremrange_zs: "rd_zremrangebyscore R k lo hi r = (Inr cnt, r') \<Longrightarrow>
      zs r' k = (\<lambda>m. case zs r k m of None \<Rightarrow> None | Some sc \<Rightarrow> if lo \<le> sc \<and> sc \<le> hi then None else Some sc)"
    and zcard_up: "up r \<Longrightarrow> \<exists>cnt r'. rd_zcard R k r = (Inr cnt, r') \<and> up r'"
    and zcard_reply: "rd_zcard R k r = (Inr cnt, r') \<Longrightarrow> cnt = int (card (dom (zs r k))) \<and> zs r' = zs r"
    and expire_up: "up r \<Longrightarrow> 0 < n \<Longrightarrow> \<exists>r'. rd_expire R k n r = (Inr (), r') \<and> up r'"
    and expire_zs: "rd_expire R k n r = (Inr (), r') \<Longrightarrow> 0 < n \<Longrightarrow> zs r' = zs r"
begin

lemma rate_pipeline_reply:
  assumes "up r" and "0 \<le> w"
  obtains r' where "rate_pipeline R key w now r = (Inr (int (card (dom (zs r' key)))), r')" and "up r'"
    and "zs r' key = (\<lambda>m. case zs r key m of None \<Rightarrow> None
        | Some sc \<Rightarrow> if 0 \<le> sc \<and> sc \<le> fl (now - of_int w) then None else Some sc)(py_float_str now := Some now)"
proof -
  obtain c1 r1 where r1: "rd_zremrangebyscore R key 0 (fl (now - of_int w)) r = (Inr c1, r1)" "up r1"
    using zremrange_up [OF assms(1)] by blast
  obtain r2 where r2: "rd_zadd R key (py_float_str now) now r1 = (Inr (), r2)" "up r2" using zadd_up [OF r1(2)] by blast
  obtain c3 r3 where r3: "rd_zcard R key r2 = (Inr c3, r3)" "up r3" using zcard_up [OF r2(2)] by blast
  have w: "0 < w + 1" using assms(2) by simp
  obtain r4 where r4: "rd_expire R key (w + 1) r3 = (Inr (), r4)" "up r4" using expire_up [OF r3(2) w] by blast
  have z: "zs r4 = zs r2" using expire_zs [OF r4(1) w] zcard_reply [OF r3(1)] by simp
  show thesis
  proof (rule that [OF _ r4(2)])
    show "rate_pipeline R key w now r = (Inr (int (card (dom (zs r4 key)))), r4)"
      using zcard_reply [OF r3(1)] by (simp add: rate_pipeline_def r1(1) r2(1) r3(1) r4(1) z)
    show "zs r4 key = (\<lambda>m. case zs r key m of None \<Rightarrow> None
        | Some sc \<Rightarrow> if 0 \<le> sc \<and> sc \<le> fl (now - of_int w) then None else Some sc)(py_float_str now := Some now)"
      unfolding z using zadd_zs [OF r2(1)] zremrange_zs [OF r1(1)] by simp
  qed
qed

end

lemma mem_members_all: "set (mem_members z lo hi) = {m. \<exists>sc. map_of z m = Some sc \<and> lo \<le> sc \<and> sc \<le> hi}"
  by (rule mem_members_props)

lemma map_of_filter_notin: "map_of (filter (\<lambda>p. fst p \<notin> A) z) m = (if m \<in> A then None else map_of z m)"
  by (induction z) auto

interpretation mem_limiter: redis_limiter mem_api mr_up mem_zs mr_new mem_pend mem_slen
proof (unfold_locales, goal_cases)
  case (2 k lo hi r cnt r')
  then have r': "mem_zs r' k m = (if m \<in> set (mem_members (mr_zset r k) lo hi) then None else mem_zs r k m)" for m
    by (auto simp: mem_defs Let_def map_of_filter_notin split: if_splits)
  show ?case unfolding fun_eq_iff r' mem_members_all by (auto simp: mem_zs_def split: option.splits)
next
  case (4 k r cnt r')
  then show ?case
    by (auto simp: mem_defs length_remdups_card_conv dom_map_of_conv_image_fst split: if_splits)
qed (auto simp: mem_defs Let_def split: if_splits)

section \<open>The sliding window\<close>

text \<open>The requests of one client at successive instants, each with the limiter's decision.\<close>

fun limiter_run :: "'r redis_api \<Rightarrow> string \<Rightarrow> int \<Rightarrow> int \<Rightarrow> rat list \<Rightarrow> 'r \<Rightarrow> (rat \<times> bool) list" where
  "limiter_run R key limit w [] r = []"
| "limiter_run R key limit w (now # nows) r =
     (case rate_pipeline R key w now r of
        (Inl _, r') \<Rightarrow> (now, True) # limiter_run R key limit w nows r'
      | (Inr count, r') \<Rightarrow> (now, \<not> count > limit) # limiter_run R key limit w nows r')"

lemma limiter_run_times: "map fst (limiter_run R key limit w nows r) = nows"
  by (induction nows arbitrary: r) (auto split: prod.split sum.split)

text \<open>Every request at or before \<open>now\<close> that lies in its window is on record.\<close>

definition window_of :: "int \<Rightarrow> rat \<Rightarrow> rat set \<Rightarrow> rat set" where
  "window_of w now ts = {t \<in> ts. t \<le> now \<and> fl (now - of_int w) < t}"

context redis_limiter
begin

lemma limiter_run_window:
  assumes "up r" and "0 \<le> w" and "finite (dom (zs r key))"
    and "sorted_wrt (<) (past @ nows)" and "inj_on py_float_str (set (past @ nows))"
    and "\<And>t now. t \<in> set past \<Longrightarrow> now \<in> set nows \<Longrightarrow> fl (now - of_int w) < t \<Longrightarrow> zs r key (py_float_str t) = Some t"
    and "(now, True) \<in> set (limiter_run R key limit w nows r)"
  shows "int (card (window_of w now (set (past @ nows)))) \<le> limit"
  using assms
proof (induction nows arbitrary: past r)
  case Nil
  then show ?case by simp
next
  case (Cons t nows)
  obtain r' where r': "rate_pipeline R key w t r = (Inr (int (card (dom (zs r' key)))), r')" "up r'"
    and z: "zs r' key = (\<lambda>m. case zs r key m of None \<Rightarrow> None
        | Some sc \<Rightarrow> if 0 \<le> sc \<and> sc \<le> fl (t - of_int w) then None else Some sc)(py_float_str t := Some t)"
    by (rule rate_pipeline_reply [OF Cons.prems(1,2)])
  have fin: "finite (dom (zs r' key))"
  proof (rule finite_subset)
    show "dom (zs r' key) \<subseteq> insert (py_float_str t) (dom (zs r key))"
      unfolding z by (auto split: option.splits if_splits)
  qed (use Cons.prems(3) in simp)
  have later: "t < u" "fl (t - of_int w) \<le> fl (u - of_int w)" if "u \<in> set nows" for u
    using Cons.prems(4) that by (auto simp: sorted_wrt_append intro!: fl_mono)
  have kept: "zs r' key (py_float_str s) = Some s"
    if "s \<in> set (past @ [t])" "u \<in> set (t # nows)" "fl (u - of_int w) < s" for s u
  proof (cases "s = t")
    case False
    with that have s: "s \<in> set past" by simp
    have "fl (t - of_int w) < s" using that(2,3) later(2) [of u] by (cases "u = t") auto
    with Cons.prems(6) [OF s, of t] have "zs r key (py_float_str s) = Some s" by simp
    moreover have "py_float_str s \<noteq> py_float_str t"
      using inj_onD [OF Cons.prems(5), of s t] s False by auto
    ultimately show ?thesis unfolding z using \<open>fl (t - of_int w) < s\<close> by simp
  qed (simp add: z)
  show ?case
  proof (cases "now = t")
    case True
    have notin: "(t, True) \<notin> set (limiter_run R key limit w nows r')"
    proof
      assume "(t, True) \<in> set (limiter_run R key limit w nows r')"
      then have "t \<in> set (map fst (limiter_run R key limit w nows r'))" by force
      then have "t \<in> set nows" by (simp only: limiter_run_times)
      with later(1) show False by blast
    qed
    have "py_float_str ` window_of w t (set (past @ t # nows)) \<subseteq> dom (zs r' key)"
      using kept [of _ t] later(1) by (fastforce simp: window_of_def)
    then have "card (py_float_str ` window_of w t (set (past @ t # nows))) \<le> card (dom (zs r' key))"
      using fin by (rule card_mono [rotated])
    moreover have "inj_on py_float_str (window_of w t (set (past @ t # nows)))"
      using Cons.prems(5) by (rule inj_on_subset) (auto simp: window_of_def)
    ultimately have "card (window_of w t (set (past @ t # nows))) \<le> card (dom (zs r' key))"
      by (simp add: card_image)
    with Cons.prems(7) r'(1) notin True show ?thesis by auto
  next
    case False
    have "int (card (window_of w now (set ((past @ [t]) @ nows)))) \<le> limit"
    proof (rule Cons.IH [OF r'(2) Cons.prems(2) fin])
      show "(now, True) \<in> set (limiter_run R key limit w nows r')" using Cons.prems(7) r'(1) False by simp
      show "zs r' key (py_float_str s) = Some s" if "s \<in> set (past @ [t])" "u \<in> set nows" "fl (u - of_int w) < s" for s u
        using kept [OF that(1) _ that(3)] that(2) by simp
    qed (use Cons.prems(4,5) in simp_all)
    then show ?thesis by simp
  qed
qed

end

section \<open>Properties\<close>


text \<open>The limiter's decision per request: an exempt path and a Redis failure let the request through
  unchanged, a count above the limit answers 429 without calling the application, and an
  admitted request carries the remaining quota, which is never negative.\<close>

theorem rate_limit_decision:
  "(exempt (rq_path rq) \<longrightarrow> rate_limit_dispatch R L now next rq (r, s) = next rq (r, s))
   \<and> (\<not> exempt (rq_path rq) \<and> rate_pipeline R (rate_key rq) (rl_window L) now r = (Inl x, r1) \<longrightarrow>
        rate_limit_dispatch R L now next rq (r, s) = next rq (r1, s))
   \<and> (\<not> exempt (rq_path rq) \<and> rate_pipeline R (rate_key rq) (rl_window L) now r = (Inr count, r1)
        \<and> count > (if is_write rq then rl_write L else rl_read L) \<longrightarrow>
        (\<exists>rs. rate_limit_dispatch R L now next rq (r, s) = (Inr rs, r1, s) \<and> hr_status rs = 429))
   \<and> (\<not> exempt (rq_path rq) \<and> rate_pipeline R (rate_key rq) (rl_window L) now r = (Inr count, r1)
        \<and> count \<le> (if is_write rq then rl_write L else rl_read L) \<and> next rq (r1, s) = (Inr rs0, st') \<longrightarrow>
        (\<exists>rs. rate_limit_dispatch R L now next rq (r, s) = (Inr rs, st') \<and> hr_status rs = hr_status rs0
           \<and> hr_body rs = hr_body rs0
           \<and> map_of (hr_headers rs) ''X-RateLimit-Remaining''
               = Some (show_int ((if is_write rq then rl_write L else rl_read L) - count))))"
  by (auto simp: rate_limit_dispatch_def Let_def too_many_def set_header_def update_conv')

text \<open>The API-key check as a decision table. Outside production every request passes, with or
  without a key. In production a configured key passes, and the hash being injective on the
  keys involved, nothing else does: no keys configured gives 500, no key sent 401, a wrong key 403.\<close>

theorem api_key_decision:
  assumes "inj_on H (insert k (set (api_keys_list S)))" and "k \<noteq> []"
  shows "(\<not> is_production S \<longrightarrow> require_api_key H S key = Inr ())
    \<and> (is_production S \<and> api_keys_list S = [] \<longrightarrow> require_api_key H S key = Inl (HTTPException 500 ''API keys not configured''))
    \<and> (is_production S \<and> api_keys_list S \<noteq> [] \<longrightarrow>
         require_api_key H S None = Inl (HTTPException 401 ''missing X-API-Key header'')
       \<and> require_api_key H S (Some []) = Inl (HTTPException 401 ''missing X-API-Key header'')
       \<and> require_api_key H S (Some k)
           = (if k \<in> set (api_keys_list S) then Inr () else Inl (HTTPException 403 ''invalid api key'')))"
proof -
  have "(\<exists>c \<in> set (api_keys_list S). H k = H c) \<longleftrightarrow> k \<in> set (api_keys_list S)"
    using assms(1) by (auto dest: inj_onD)
  then show ?thesis using assms(2)
    by (auto simp: require_api_key_def api_keys_set_def hash_key_def list_ex_iff Let_def)
qed

text \<open>Where the body cap applies: a declared decimal length above the cap is answered 413 without
  reaching the rest of the stack; a length within it, and a request that declares none, pass
  unchanged, so a chunked body is not capped.\<close>

theorem body_cap_decision:
  assumes "length (show_nat n) \<le> 4300"
  shows "(header_of rq ''content-length'' = Some (show_nat n) \<longrightarrow>
      (if int n > limit then \<exists>rs. max_body_dispatch limit next rq st = (Inr rs, st) \<and> hr_status rs = 413
       else max_body_dispatch limit next rq st = next rq st))
    \<and> (header_of rq ''content-length'' = None \<longrightarrow> max_body_dispatch limit next rq st = next rq st)"
proof -
  have "list_all is_dec_digit (show_nat n)" by (simp add: list_all_iff show_nat_digits)
  moreover have "show_nat n \<noteq> []" by (rule show_nat_not_Nil)
  ultimately have "py_isdigit (show_nat n)" "py_int_of_digits (show_nat n) = Inr n"
    by (simp_all add: py_isdigit_def py_int_of_digits_def is_digit_char_def list_all_iff read_show_nat assms)
  with \<open>show_nat n \<noteq> []\<close> show ?thesis by (simp add: max_body_dispatch_def)
qed

text \<open>The security headers reach only the responses of the application itself: they are on every
  response of the routed application, whatever it set, but not on the 413 of the body cap nor on
  the 429 of the limiter, which are produced outside that layer.\<close>

theorem security_headers_coverage:
  assumes "security_headers_dispatch S routed rq st = (Inr rs, st')"
  shows "(\<forall>n \<in> {''X-Content-Type-Options'', ''X-Frame-Options'', ''Referrer-Policy'', ''Permissions-Policy''}.
           map_of (hr_headers rs) n \<noteq> None)
    \<and> (is_production S \<longrightarrow> map_of (hr_headers rs) ''Strict-Transport-Security'' \<noteq> None)
    \<and> map_of (hr_headers (too_many l a)) ''X-Frame-Options'' = None
    \<and> (header_of rq2 ''content-length'' = Some ''999999'' \<and> limit < 999999 \<longrightarrow>
        (\<exists>rs2. max_body_dispatch limit next rq2 st2 = (Inr rs2, st2) \<and> hr_status rs2 = 413
          \<and> map_of (hr_headers rs2) ''X-Frame-Options'' = None))"
proof -
  have get: "map_of (hr_headers (setdefault_header n v q)) m =
      (if m = n \<and> map_of (hr_headers q) n = None then Some v else map_of (hr_headers q) m)" for n v q m
    by (auto simp: setdefault_header_def map_add_def split: option.splits)
  have digits: "py_isdigit ''999999''" "py_int_of_digits ''999999'' = Inr 999999"
    by (simp_all add: py_isdigit_def py_int_of_digits_def is_digit_char_def is_dec_digit_def read_nat_def digit_val_def)
  from assms show ?thesis
    by (auto simp: security_headers_dispatch_def Let_def get too_many_def max_body_dispatch_def digits
        split: prod.splits sum.splits)
qed

section \<open>Witnesses\<close>

definition ex_times :: "rat list" where
  "ex_times = [1, 5 / 2, 30, 62]"

lemma ex_times_str: "map py_float_str ex_times = [''1.0'', ''2.5'', ''30.0'', ''62.0'']"
  by code_simp


definition ex_request :: http_request where
  "ex_request = \<lparr>rq_method = ''POST'', rq_path = ''/api/events'', rq_headers = [(''content-length'', ''12'')],
     rq_client = Some ''10.0.0.1''\<rparr>"

definition ex_next :: "(mem_redis, unit) handler" where
  "ex_next rq st = (Inr \<lparr>hr_status = 200, hr_headers = [], hr_body = []\<rparr>, st)"

theorem rate_limit_decision_witness:
  "rate_limit_dispatch mem_api \<lparr>rl_write = 60, rl_read = 600, rl_window = 60\<rparr> 1 ex_next ex_request (mem_init\<lparr>mr_up := False\<rparr>, ())
    = ex_next ex_request (mem_init\<lparr>mr_up := False\<rparr>, ())"
proof -
  have "rate_pipeline mem_api (rate_key ex_request) (rl_window \<lparr>rl_write = 60, rl_read = 600, rl_window = 60\<rparr>) 1 (mem_init\<lparr>mr_up := False\<rparr>)
      = (Inl (RedisError ''connection refused''), mem_init\<lparr>mr_up := False\<rparr>)"
    by (simp add: rate_pipeline_def mem_defs)
  moreover have "\<not> exempt (rq_path ex_request)"
    by (simp add: exempt_def ex_request_def PUBLIC_PATHS_def starts_with_def)
  ultimately show ?thesis by (intro rate_limit_decision [THEN conjunct2, THEN conjunct1, rule_format]) simp
qed

theorem api_key_decision_witness:
  "require_api_key id ((default_settings None [])\<lparr>environment := ''Production'', api_keys := ''k1, k2''\<rparr>) (Some ''k2'') = Inr ()
   \<and> require_api_key id ((default_settings None [])\<lparr>environment := ''Production'', api_keys := ''k1, k2''\<rparr>) (Some ''k3'')
     = Inl (HTTPException 403 ''invalid api key'')"
proof -
  let ?S = "(default_settings None [])\<lparr>environment := ''Production'', api_keys := ''k1, k2''\<rparr>"
  have "is_production ?S" "api_keys_list ?S = [''k1'', ''k2'']" by code_simp+
  with api_key_decision [of id "''k2''" ?S] api_key_decision [of id "''k3''" ?S] show ?thesis by simp
qed

theorem body_cap_decision_witness:
  "max_body_dispatch 262144 ex_next ex_request (mem_init, ()) = ex_next ex_request (mem_init, ())"
proof -
  have "show_nat 12 = ''12''" by code_simp
  with body_cap_decision [of 12 ex_request 262144 ex_next "(mem_init, ())"] show ?thesis
    by (simp add: header_of_def ex_request_def)
qed

theorem security_headers_coverage_witness:
  "\<exists>rs. security_headers_dispatch (default_settings None []) ex_next ex_request (mem_init, ()) = (Inr rs, mem_init, ())
    \<and> map_of (hr_headers rs) ''X-Frame-Options'' \<noteq> None"
proof -
  obtain rs where rs: "security_headers_dispatch (default_settings None []) ex_next ex_request (mem_init, ()) = (Inr rs, mem_init, ())"
    by (simp add: security_headers_dispatch_def ex_next_def Let_def)
  with security_headers_coverage [OF rs] show ?thesis by blast
qed

end
