(* ===== verification/JsonText.thy ===== *)
theory JsonText
  imports Security "HOL-Library.Multiset" "HOL-Library.List_Lexorder" "HOL-Library.Char_ord"
begin

text \<open>
  The JSON text the program writes and reads: \<^verbatim>\<open>json.dumps\<close> of the benchmark scripts
  (\<^verbatim>\<open>indent=2, sort_keys=True\<close>) and of the log formatter (one line), and \<^verbatim>\<open>json.loads\<close> of the
  recovery agent. Characters are code points below 256, so an escape above \<^verbatim>\<open>\u00ff\<close> is refused here; so are
  \<^verbatim>\<open>NaN\<close> and the infinities. Floats are written without exponent, which is what \<^verbatim>\<open>repr\<close> does
  between 0.0001 and ten to the sixteenth. The round trip holds for every style whose padding is white space.
\<close>

section \<open>Encoding\<close>

definition hex_digit :: "nat \<Rightarrow> char" where
  "hex_digit d = (if d < 10 then char_of (48 + d) else char_of (87 + d))"

definition escape_char :: "char \<Rightarrow> string" where
  "escape_char c =
     (let n = (of_char c :: nat) in
      if c = CHR 0x5C then [CHR 0x5C, CHR 0x5C]
      else if c = CHR 0x22 then [CHR 0x5C, CHR 0x22]
      else if c = CHR 0x08 then [CHR 0x5C, CHR ''b'']
      else if c = CHR 0x0C then [CHR 0x5C, CHR ''f'']
      else if c = CHR 0x0A then [CHR 0x5C, CHR ''n'']
      else if c = CHR 0x0D then [CHR 0x5C, CHR ''r'']
      else if c = CHR 0x09 then [CHR 0x5C, CHR ''t'']
      else if 32 \<le> n \<and> n \<le> 126 then [c]
      else [CHR 0x5C, CHR ''u'', CHR ''0'', CHR ''0'', hex_digit (n div 16), hex_digit (n mod 16)])"

definition encode_string :: "string \<Rightarrow> string" where
  "encode_string s = CHR 0x22 # concat (map escape_char s) @ [CHR 0x22]"

definition float_repr :: "rat \<Rightarrow> string" where
  "float_repr x = (if x < 0 then CHR ''-'' # py_float_str (- x) else py_float_str x)"

text \<open>What stands around the items of a container at a depth, between them, and after a colon.\<close>

record style =
  st_pad :: "nat \<Rightarrow> string"
  st_gap :: "nat \<Rightarrow> string"
  st_space :: string

definition indent2 :: style where
  "indent2 = \<lparr>st_pad = (\<lambda>l. CHR 0x0A # replicate (2 * l) (CHR '' '')),
     st_gap = (\<lambda>l. CHR 0x0A # replicate (2 * l) (CHR '' '')), st_space = '' ''\<rparr>"

definition one_line :: style where
  "one_line = \<lparr>st_pad = (\<lambda>_. []), st_gap = (\<lambda>_. '' ''), st_space = '' ''\<rparr>"

fun joined :: "string \<Rightarrow> string list \<Rightarrow> string" where
  "joined sep [] = []"
| "joined sep [x] = x"
| "joined sep (x # y # xs) = x @ sep @ joined sep (y # xs)"

definition bracketed :: "style \<Rightarrow> nat \<Rightarrow> char \<Rightarrow> char \<Rightarrow> string list \<Rightarrow> string" where
  "bracketed st l a b items =
     (if items = [] then [a, b]
      else a # st_pad st (l + 1) @ joined (CHR '','' # st_gap st (l + 1)) items @ st_pad st l @ [b])"

fun render :: "style \<Rightarrow> nat \<Rightarrow> json \<Rightarrow> string" where
  "render st l JNull = ''null''"
| "render st l (JBool b) = (if b then ''true'' else ''false'')"
| "render st l (JInt i) = show_int i"
| "render st l (JFloat x) = float_repr x"
| "render st l (JStr s) = encode_string s"
| "render st l (JList js) = bracketed st l (CHR ''['') (CHR '']'') (map (render st (l + 1)) js)"
| "render st l (JObj kvs) = bracketed st l (CHR ''{'') (CHR ''}'')
     (map (\<lambda>kv. encode_string (fst kv) @ CHR '':'' # st_space st @ render st (l + 1) (snd kv)) kvs)"

text \<open>\<^verbatim>\<open>sort_keys=True\<close>\<close>

fun sorted_keys :: "json \<Rightarrow> json" where
  "sorted_keys (JList js) = JList (map sorted_keys js)"
| "sorted_keys (JObj kvs) = JObj (sort_key fst (map (\<lambda>kv. (fst kv, sorted_keys (snd kv))) kvs))"
| "sorted_keys j = j"

definition dumps_indented :: "json \<Rightarrow> string" where
  "dumps_indented j = render indent2 0 (sorted_keys j)"

definition dumps_line :: "json \<Rightarrow> string" where
  "dumps_line j = render one_line 0 j"

section \<open>Decoding\<close>

definition is_ws :: "char \<Rightarrow> bool" where
  "is_ws c \<longleftrightarrow> c = CHR '' '' \<or> c = CHR 0x09 \<or> c = CHR 0x0A \<or> c = CHR 0x0D"

definition skip_ws :: "string \<Rightarrow> string" where
  "skip_ws s = dropWhile is_ws s"

definition unhex :: "char \<Rightarrow> nat option" where
  "unhex c = (let n = (of_char c :: nat) in
     if 48 \<le> n \<and> n \<le> 57 then Some (n - 48)
     else if 97 \<le> n \<and> n \<le> 102 then Some (n - 87)
     else if 65 \<le> n \<and> n \<le> 70 then Some (n - 55)
     else None)"

definition unescape :: "char \<Rightarrow> char option" where
  "unescape c = map_of [(CHR 0x22, CHR 0x22), (CHR 0x5C, CHR 0x5C), (CHR ''/'', CHR ''/''), (CHR ''b'', CHR 0x08),
     (CHR ''f'', CHR 0x0C), (CHR ''n'', CHR 0x0A), (CHR ''r'', CHR 0x0D), (CHR ''t'', CHR 0x09)] c"

definition unicode_escape :: "char \<Rightarrow> char \<Rightarrow> char \<Rightarrow> char \<Rightarrow> char option" where
  "unicode_escape a b c d = (case (unhex a, unhex b, unhex c, unhex d) of
     (Some i, Some j, Some k, Some m) \<Rightarrow> if i = 0 \<and> j = 0 then Some (char_of (16 * k + m)) else None
   | _ \<Rightarrow> None)"

definition push_char :: "char \<Rightarrow> (string \<times> string) option \<Rightarrow> (string \<times> string) option" where
  "push_char c res = map_option (\<lambda>(t, r). (c # t, r)) res"

text \<open>The characters of a string up to its closing quote.\<close>

fun scan_string :: "string \<Rightarrow> (string \<times> string) option" where
  "scan_string [] = None"
| "scan_string (c # s) =
     (if c = CHR 0x22 then Some ([], s)
      else if c = CHR 0x5C then
        (case s of
           [] \<Rightarrow> None
         | e # s1 \<Rightarrow>
             if e = CHR ''u'' then
               (case s1 of
                  h1 # h2 # h3 # h4 # s2 \<Rightarrow>
                    (case unicode_escape h1 h2 h3 h4 of None \<Rightarrow> None | Some ch \<Rightarrow> push_char ch (scan_string s2))
                | _ \<Rightarrow> None)
             else (case unescape e of None \<Rightarrow> None | Some ch \<Rightarrow> push_char ch (scan_string s1)))
      else if (of_char c :: nat) < 32 then None
      else push_char c (scan_string s))"

text \<open>\<^verbatim>\<open>(-?(?:0|[1-9][0-9]*))(\.[0-9]+)?([eE][-+]?[0-9]+)?\<close>\<close>

definition int_part :: "string \<Rightarrow> string" where
  "int_part s = (case s of [] \<Rightarrow> [] | c # _ \<Rightarrow> if c = CHR ''0'' then [c] else takeWhile is_dec_digit s)"

definition frac_part :: "string \<Rightarrow> string" where
  "frac_part s = (case s of [] \<Rightarrow> [] | c # t \<Rightarrow> if c = CHR ''.'' then takeWhile is_dec_digit t else [])"

definition exp_part :: "string \<Rightarrow> (int \<times> string) option" where
  "exp_part s = (case s of
     [] \<Rightarrow> None
   | c # t \<Rightarrow>
       if c = CHR ''e'' \<or> c = CHR ''E'' then
         (let (sg, t1) = (case t of
                [] \<Rightarrow> (1, [])
              | d # u \<Rightarrow> if d = CHR ''-'' then (- 1, u) else if d = CHR ''+'' then (1, u) else (1, t));
              ds = takeWhile is_dec_digit t1
          in if ds = [] then None else Some (sg * int (read_nat ds), drop (length ds) t1))
       else None)"

definition number_sign :: "string \<Rightarrow> int \<times> string" where
  "number_sign s = (case s of [] \<Rightarrow> (1, []) | c # t \<Rightarrow> if c = CHR ''-'' then (- 1, t) else (1, s))"

definition scan_number :: "string \<Rightarrow> (json \<times> string) option" where
  "scan_number s =
     (let (sg, s1) = number_sign s;
          ip = int_part s1; s2 = drop (length ip) s1;
          fp = frac_part s2; s3 = (if fp = [] then s2 else drop (Suc (length fp)) s2);
          m = sg * int (read_nat (ip @ fp))
      in if ip = [] then None
         else (case exp_part s3 of
             None \<Rightarrow> Some (if fp = [] then JInt m else JFloat (fl (of_int m / 10 ^ length fp)), s3)
           | Some (ex, s4) \<Rightarrow>
               Some (JFloat (fl (of_int m / 10 ^ length fp * (if 0 \<le> ex then 10 ^ nat ex else 1 / 10 ^ nat (- ex)))), s4)))"

text \<open>A repeated key keeps its place and takes the last value.\<close>

definition to_dict :: "dict \<Rightarrow> dict" where
  "to_dict kvs = fold (\<lambda>(k, v) d. AList.update k v d) kvs []"

text \<open>The tests of the lengths always succeed, by the lemmas on lengths below; they make the recursion end.\<close>

function (sequential)
  parse_value :: "string \<Rightarrow> (json \<times> string) option" and
  parse_items :: "string \<Rightarrow> (json list \<times> string) option" and
  parse_members :: "string \<Rightarrow> (dict \<times> string) option" where
  "parse_value [] = None"
| "parse_value (c # s) =
     (if c = CHR 0x22 then map_option (\<lambda>(t, r). (JStr t, r)) (scan_string s)
      else if c = CHR ''{'' then
        (case skip_ws s of
           [] \<Rightarrow> None
         | d # r \<Rightarrow> if d = CHR ''}'' then Some (JObj [], r)
                    else if length (d # r) \<le> length s
                    then map_option (\<lambda>(kvs, q). (JObj (to_dict kvs), q)) (parse_members (d # r)) else None)
      else if c = CHR ''['' then
        (case skip_ws s of
           [] \<Rightarrow> None
         | d # r \<Rightarrow> if d = CHR '']'' then Some (JList [], r)
                    else if length (d # r) \<le> length s
                    then map_option (\<lambda>(js, q). (JList js, q)) (parse_items (d # r)) else None)
      else if starts_with ''null'' (c # s) then Some (JNull, drop 3 s)
      else if starts_with ''true'' (c # s) then Some (JBool True, drop 3 s)
      else if starts_with ''false'' (c # s) then Some (JBool False, drop 4 s)
      else scan_number (c # s))"
| "parse_items s =
     (case parse_value s of
        None \<Rightarrow> None
      | Some (v, r) \<Rightarrow>
          (case skip_ws r of
             [] \<Rightarrow> None
           | d # q \<Rightarrow>
               if d = CHR '']'' then Some ([v], q)
               else if d = CHR '','' \<and> length (skip_ws q) < length s
               then map_option (\<lambda>(vs, q'). (v # vs, q')) (parse_items (skip_ws q))
               else None))"
| "parse_members [] = None"
| "parse_members (c # s) =
     (if c \<noteq> CHR 0x22 then None
      else
        (case scan_string s of
           None \<Rightarrow> None
         | Some (k, r) \<Rightarrow>
             (case skip_ws r of
                [] \<Rightarrow> None
              | e # r1 \<Rightarrow>
                  if e = CHR '':'' \<and> length (skip_ws r1) \<le> length s then
                    (case parse_value (skip_ws r1) of
                       None \<Rightarrow> None
                     | Some (v, r2) \<Rightarrow>
                         (case skip_ws r2 of
                            [] \<Rightarrow> None
                          | d # q \<Rightarrow>
                              if d = CHR ''}'' then Some ([(k, v)], q)
                              else if d = CHR '','' \<and> length (skip_ws q) \<le> length s
                              then map_option (\<lambda>(kvs, q'). ((k, v) # kvs, q')) (parse_members (skip_ws q))
                              else None))
                  else None)))"
  by pat_completeness auto
termination
  by (relation "measure (\<lambda>x. case x of Inl s \<Rightarrow> 2 * length s | Inr (Inl s) \<Rightarrow> 2 * length s + 1 | Inr (Inr s) \<Rightarrow> 2 * length s + 1)") auto

declare parse_value.simps [simp del] parse_items.simps [simp del] parse_members.simps [simp del]

definition loads :: "string \<Rightarrow> exn + json" where
  "loads s = (case parse_value (skip_ws s) of
     None \<Rightarrow> Inl (ValueError ''Expecting value'')
   | Some (v, r) \<Rightarrow> if skip_ws r = [] then Inr v else Inl (ValueError ''Extra data''))"

section \<open>Lengths\<close>

lemma length_skip_ws: "length (skip_ws s) \<le> length s"
  by (simp add: skip_ws_def length_dropWhile_le)

lemma scan_string_length: "scan_string s = Some (t, r) \<Longrightarrow> length r < length s"
proof (induction s arbitrary: t rule: scan_string.induct)
  case (2 c s)
  then show ?case
    by (fastforce simp: push_char_def split: if_splits list.splits option.splits)
qed simp

lemma exp_part_length: "exp_part s = Some (ex, r) \<Longrightarrow> length r \<le> length s"
  by (auto simp: exp_part_def Let_def split: list.splits if_splits prod.splits)

lemma scan_number_length: "scan_number s = Some (v, r) \<Longrightarrow> length r < length s"
proof -
  assume r: "scan_number s = Some (v, r)"
  obtain sg s1 where s1: "number_sign s = (sg, s1)" by force
  then have le: "length s1 \<le> length s" by (auto simp: number_sign_def split: list.splits if_splits)
  define s2 where "s2 = drop (length (int_part s1)) s1"
  define s3 where "s3 = (if frac_part s2 = [] then s2 else drop (Suc (length (frac_part s2))) s2)"
  from r have ip: "int_part s1 \<noteq> []" and "r = s3 \<or> (\<exists>ex. exp_part s3 = Some (ex, r))"
    by (auto simp: scan_number_def s1 Let_def s2_def s3_def split: if_splits option.splits)
  then have "length r \<le> length s3" using exp_part_length by blast
  moreover have "length s3 \<le> length s2" by (simp add: s3_def)
  moreover from ip have "s1 \<noteq> []" by (auto simp: int_part_def)
  with ip have "length s2 < length s1" by (simp add: s2_def)
  ultimately show ?thesis using le by linarith
qed

lemma skip_ws_tail: "skip_ws s = d # q \<Longrightarrow> length q < length s"
  using length_skip_ws [of s] by simp

lemma parse_lengths:
  "parse_value s = Some (v, r) \<Longrightarrow> length r < length s"
  "parse_items s' = Some (js, r) \<Longrightarrow> length r < length s'"
  "parse_members s'' = Some (kvs, r) \<Longrightarrow> length r < length s''"
proof (induction s and s' and s'' arbitrary: v r and js r and kvs r rule: parse_value_parse_items_parse_members.induct)
  case (2 c s)
  have "length r \<le> length s" if "skip_ws s = d # q" "length r < length (d # q)" for d q
    using that length_skip_ws [of s] by simp
  with 2 show ?case
    by (auto simp: parse_value.simps split: if_splits list.splits dest!: scan_string_length scan_number_length)
      (fastforce dest: skip_ws_tail)+
next
  case (3 s)
  then obtain v r0 d q where p: "parse_value s = Some (v, r0)" "skip_ws r0 = d # q"
    by (auto simp: parse_items.simps [of s] split: option.splits list.splits)
  then have "length q < length s" using "3.IH"(1) skip_ws_tail [of r0 d q] by fastforce
  with 3 p show ?case
    using length_skip_ws [of q] by (fastforce simp: parse_items.simps [of s] split: if_splits)
next
  case (5 c s)
  then obtain k r0 e r1 v r2 d q where p: "scan_string s = Some (k, r0)" "skip_ws r0 = e # r1"
      "parse_value (skip_ws r1) = Some (v, r2)" "skip_ws r2 = d # q"
      and g: "c = CHR 0x22" "e = CHR '':'' \<and> length (skip_ws r1) \<le> length s"
    by (auto simp: parse_members.simps split: option.splits list.splits if_splits)
  then have "length r2 < length (skip_ws r1)" using "5.IH"(1) by blast
  then have "length q < length s"
    using scan_string_length [OF p(1)] skip_ws_tail [OF p(2)] skip_ws_tail [OF p(4)] length_skip_ws [of r1] by linarith
  with 5 p show ?case
    using length_skip_ws [of q] by (fastforce simp: parse_members.simps split: if_splits)
qed (simp_all add: parse_value.simps parse_members.simps)

section \<open>White space\<close>

lemma skip_ws_append: "list_all is_ws w \<Longrightarrow> skip_ws (w @ s) = skip_ws s"
  by (simp add: skip_ws_def list_all_iff dropWhile_append1 [symmetric] dropWhile_append2)

lemma skip_ws_Cons: "\<not> is_ws c \<Longrightarrow> skip_ws (c # s) = c # s"
  by (simp add: skip_ws_def)

definition ws_style :: "style \<Rightarrow> bool" where
  "ws_style st \<longleftrightarrow> (\<forall>l. list_all is_ws (st_pad st l) \<and> list_all is_ws (st_gap st l)) \<and> list_all is_ws (st_space st)"

lemma ws_styles: "ws_style indent2" "ws_style one_line"
  by (simp_all add: ws_style_def indent2_def one_line_def list_all_iff is_ws_def)

section \<open>Strings\<close>

lemma unhex_hex_digit: "d < 16 \<Longrightarrow> unhex (hex_digit d) = Some d"
  by (auto simp: unhex_def hex_digit_def Let_def)

lemma unicode_escape_hex:
  "unicode_escape (CHR ''0'') (CHR ''0'') (hex_digit (of_char c div 16)) (hex_digit (of_char c mod 16)) = Some c"
proof -
  have "(of_char c :: nat) div 16 < 16" using nat_of_char_less_256 [of c] by linarith
  moreover have "unhex (CHR ''0'') = Some 0" by (simp add: unhex_def)
  moreover have "16 * (of_char c div 16) + of_char c mod 16 = (of_char c :: nat)" by simp
  ultimately show ?thesis by (simp add: unicode_escape_def unhex_hex_digit)
qed

lemma scan_escaped: "scan_string (escape_char c @ s) = push_char c (scan_string s)"
  by (auto simp: escape_char_def Let_def unescape_def unicode_escape_hex)

lemma scan_encoded: "scan_string (concat (map escape_char t) @ CHR 0x22 # s) = Some (t, s)"
  by (induction t) (simp_all add: scan_escaped push_char_def del: scan_string.simps(2), simp)

section \<open>Numbers\<close>

text \<open>What may follow a number without being taken for a part of it.\<close>

definition ends_number :: "string \<Rightarrow> bool" where
  "ends_number s \<longleftrightarrow> (case s of [] \<Rightarrow> True | c # _ \<Rightarrow> \<not> is_dec_digit c \<and> c \<noteq> CHR ''.'' \<and> c \<noteq> CHR ''e'' \<and> c \<noteq> CHR ''E'')"

lemma takeWhile_digits:
  "list_all is_dec_digit ds \<Longrightarrow> (case s of [] \<Rightarrow> True | c # _ \<Rightarrow> \<not> is_dec_digit c) \<Longrightarrow> takeWhile is_dec_digit (ds @ s) = ds"
  by (induction ds) (auto split: list.splits)

lemma show_nat_first: "\<exists>c t. show_nat n = c # t \<and> is_dec_digit c \<and> (c = CHR ''0'' \<longrightarrow> n = 0 \<and> t = [])"
proof (induction n rule: show_nat.induct)
  case (1 n)
  show ?case
  proof (cases "n < 10")
    case True
    then have "show_nat n = [digit_char n]" by (simp add: show_nat.simps [of n])
    moreover have "digit_char n = CHR ''0'' \<Longrightarrow> n = 0"
      using True digit_val_digit_char [of n] by (simp add: digit_val_def)
    ultimately show ?thesis using show_nat_digits [of "digit_char n" n] by auto
  next
    case False
    with "1.IH" obtain c t where "show_nat (n div 10) = c # t" "is_dec_digit c" "c = CHR ''0'' \<longrightarrow> n div 10 = 0" by blast
    moreover have "n div 10 \<noteq> 0" using False by simp
    ultimately show ?thesis using False by (auto simp: show_nat.simps [of n])
  qed
qed

lemma digits_show_nat: "list_all is_dec_digit (show_nat n)"
  using show_nat_digits by (auto simp: list_all_iff)

lemma int_part_show_nat:
  assumes "case s of [] \<Rightarrow> True | c # _ \<Rightarrow> \<not> is_dec_digit c"
  shows "int_part (show_nat n @ s) = show_nat n"
proof -
  obtain c t where c: "show_nat n = c # t" "is_dec_digit c" "c = CHR ''0'' \<longrightarrow> n = 0 \<and> t = []"
    using show_nat_first by blast
  have "takeWhile is_dec_digit (show_nat n @ s) = show_nat n" by (rule takeWhile_digits [OF digits_show_nat assms])
  with c show ?thesis by (auto simp: int_part_def)
qed

lemma show_nat_no_sign: "show_nat n @ s = c # t \<Longrightarrow> c \<noteq> CHR ''-''"
  using show_nat_first [of n] by (auto simp: is_dec_digit_def)

definition signed :: "bool \<Rightarrow> string \<Rightarrow> string" where
  "signed neg s = (if neg then CHR ''-'' # s else s)"

lemma scan_decimal:
  assumes "ends_number s" and "list_all is_dec_digit fp"
  shows "scan_number (signed neg (show_nat n @ (if fp = [] then [] else CHR ''.'' # fp) @ s)) =
    Some (if fp = [] then JInt ((if neg then - 1 else 1) * int n)
          else JFloat (fl (of_int ((if neg then - 1 else 1) * int (read_nat (show_nat n @ fp))) / 10 ^ length fp)), s)"
proof -
  define s2 where "s2 = (if fp = [] then [] else CHR ''.'' # fp) @ s"
  have nd: "case s of [] \<Rightarrow> True | c # _ \<Rightarrow> \<not> is_dec_digit c" using assms(1) by (auto simp: ends_number_def split: list.splits)
  then have ip: "int_part (show_nat n @ s2) = show_nat n"
    by (intro int_part_show_nat) (auto simp: s2_def is_dec_digit_def)
  have fp: "frac_part s2 = fp"
    using assms(1) takeWhile_digits [OF assms(2) nd] by (auto simp: s2_def frac_part_def ends_number_def split: list.splits)
  have ex: "exp_part s = None" using assms(1) by (auto simp: exp_part_def ends_number_def split: list.splits)
  obtain c t where "show_nat n @ s2 = c # t" "c \<noteq> CHR ''-''"
    using show_nat_first [of n] show_nat_no_sign by (metis append_Cons)
  then have sg: "number_sign (signed neg (show_nat n @ s2)) = (if neg then - 1 else 1, show_nat n @ s2)"
    by (simp add: number_sign_def signed_def)
  show ?thesis
  proof (cases "fp = []")
    case True
    with s2_def have "s2 = s" by simp
    with True sg ip fp ex show ?thesis
      unfolding scan_number_def by (simp add: Let_def read_show_nat)
  next
    case False
    with s2_def have "s2 = CHR ''.'' # fp @ s" by simp
    with False sg ip fp ex show ?thesis
      unfolding scan_number_def by (simp add: Let_def)
  qed
qed

lemma read_nat_append: "read_nat (s @ t) = read_nat s * 10 ^ length t + read_nat t"
proof (induction t rule: rev_induct)
  case (snoc c t)
  then show ?case by (simp add: read_nat_snoc algebra_simps flip: append_assoc)
qed (simp add: read_nat_def)

lemma read_nat_zeros: "read_nat (replicate j (CHR ''0'')) = 0"
  by (induction j) (simp_all add: read_nat_def digit_val_def)

lemma length_show_nat: "0 < k \<Longrightarrow> n < 10 ^ k \<Longrightarrow> length (show_nat n) \<le> k"
proof (induction n arbitrary: k rule: show_nat.induct)
  case (1 n)
  show ?case
  proof (cases "n < 10")
    case True
    with "1.prems" show ?thesis by (simp add: show_nat.simps [of n])
  next
    case False
    with "1.prems" obtain k' where k: "k = Suc k'" "0 < k'" by (cases k; cases "k - 1") auto
    with "1.prems" have "n div 10 < 10 ^ k'" by (simp add: less_mult_imp_div_less mult.commute)
    with "1.IH" False k have "length (show_nat (n div 10)) \<le> k'" by blast
    with False k show ?thesis by (simp add: show_nat.simps [of n])
  qed
qed

lemma pad_digits:
  assumes "0 < k" and "n < 10 ^ k"
  shows "list_all is_dec_digit (pad k (int n))" and "length (pad k (int n)) = k" and "read_nat (pad k (int n)) = n"
proof -
  have p: "pad k (int n) = replicate (k - length (show_nat n)) (CHR ''0'') @ show_nat n"
    by (simp add: pad_def show_int_def Let_def)
  show "length (pad k (int n)) = k" using length_show_nat [OF assms] by (simp add: p)
  show "read_nat (pad k (int n)) = n" by (simp add: p read_nat_append read_nat_zeros read_show_nat)
  have "is_dec_digit (CHR ''0'')" by (simp add: is_dec_digit_def)
  then show "list_all is_dec_digit (pad k (int n))" using digits_show_nat [of n] by (auto simp: p list_all_iff)
qed

text \<open>A float whose decimal digits, cut where \<^verbatim>\<open>repr\<close> cuts them, round back to it.\<close>

definition plain_float :: "rat \<Rightarrow> bool" where
  "plain_float x \<longleftrightarrow> (let y = \<bar>x\<bar>; k = frac_digits y in fl (of_int (rne (y * 10 ^ k)) / 10 ^ k) = y)"

lemma rne_nonneg: "0 \<le> q \<Longrightarrow> 0 \<le> rne q"
  using rne_mono [of 0 q] rne_of_int [of 0] by simp

lemma float_text:
  assumes "0 \<le> y"
  obtains n fp where "py_float_str y = show_nat n @ CHR ''.'' # fp" and "fp \<noteq> []" and "list_all is_dec_digit fp"
    and "(of_nat (read_nat (show_nat n @ fp)) :: rat) / 10 ^ length fp
      = of_int (rne (y * 10 ^ frac_digits y)) / 10 ^ frac_digits y"
proof -
  define k where "k = frac_digits y"
  define m where "m = nat (rne (y * 10 ^ k))"
  have m: "rne (y * 10 ^ k) = int m" using assms rne_nonneg [of "y * 10 ^ k"] by (simp add: m_def)
  have div: "rne (y * 10 ^ k) div 10 ^ k = int (m div 10 ^ k)" "rne (y * 10 ^ k) mod 10 ^ k = int (m mod 10 ^ k)"
    by (simp_all add: m zdiv_int zmod_int)
  define fp where "fp = (if k = 0 then ''0'' else pad k (int (m mod 10 ^ k)))"
  have repr: "py_float_str y = show_nat (m div 10 ^ k) @ CHR ''.'' # fp"
    by (simp add: py_float_str_def Let_def div fp_def show_int_def flip: k_def)
  have dig: "list_all is_dec_digit fp" "fp \<noteq> []" 
    using pad_digits [of k "m mod 10 ^ k"] by (auto simp: fp_def is_dec_digit_def)
  have val: "(of_nat (read_nat (show_nat (m div 10 ^ k) @ fp)) :: rat) / 10 ^ length fp = of_nat m / 10 ^ k"
  proof (cases "k = 0")
    case True
    then show ?thesis by (simp add: fp_def read_nat_append read_show_nat) (simp add: read_nat_def digit_val_def)
  next
    case False
    then have "read_nat (show_nat (m div 10 ^ k) @ fp) = m"
      using pad_digits [of k "m mod 10 ^ k"] div_mult_mod_eq [of m "10 ^ k"]
      by (simp add: fp_def read_nat_append read_show_nat)
    with False show ?thesis using pad_digits [of k "m mod 10 ^ k"] by (simp add: fp_def)
  qed
  show thesis by (rule that [OF repr dig(2,1)]) (simp add: val m flip: k_def)
qed

lemma scan_float:
  assumes "plain_float x" and "ends_number s"
  shows "scan_number (float_repr x @ s) = Some (JFloat x, s)"
proof -
  obtain n fp where t: "py_float_str \<bar>x\<bar> = show_nat n @ CHR ''.'' # fp" "fp \<noteq> []" "list_all is_dec_digit fp"
    and v: "(of_nat (read_nat (show_nat n @ fp)) :: rat) / 10 ^ length fp
      = of_int (rne (\<bar>x\<bar> * 10 ^ frac_digits \<bar>x\<bar>)) / 10 ^ frac_digits \<bar>x\<bar>"
    using float_text [of "\<bar>x\<bar>"] by auto
  have fl: "fl (of_nat (read_nat (show_nat n @ fp)) / 10 ^ length fp) = \<bar>x\<bar>"
    unfolding v using assms(1) by (simp add: plain_float_def Let_def)
  have "float_repr x @ s = signed (x < 0) (show_nat n @ (if fp = [] then [] else CHR ''.'' # fp) @ s)"
    using t by (cases "x < 0") (simp_all add: float_repr_def signed_def)
  then show ?thesis
    using t(2) fl fl_uminus [of "of_nat (read_nat (show_nat n @ fp)) / 10 ^ length fp"]
      scan_decimal [OF assms(2) t(3), of "x < 0" n]
    by (cases "x < 0") simp_all
qed

lemma scan_int: "ends_number s \<Longrightarrow> scan_number (show_int i @ s) = Some (JInt i, s)"
  using scan_decimal [of s "[]" "i < 0" "nat \<bar>i\<bar>"] by (simp add: show_int_def signed_def split: if_splits)

text \<open>What \<^verbatim>\<open>round(x, n)\<close> returns is plain, up to fifty bits of scaled value.\<close>

lemma rne_error: "\<bar>of_int (rne q) - q\<bar> \<le> 1 / 2"
proof -
  have "of_int \<lfloor>q\<rfloor> \<le> q" "q < of_int \<lfloor>q\<rfloor> + 1" by linarith+
  then show ?thesis by (auto simp: rne_def Let_def)
qed

lemma rne_unique: "\<bar>q - of_int m\<bar> < 1 / 2 \<Longrightarrow> rne q = m"
proof -
  assume "\<bar>q - of_int m\<bar> < 1 / 2"
  with rne_error [of q] have "\<bar>of_int (rne q - m) :: rat\<bar> < 1" unfolding of_int_diff by linarith
  then show "rne q = m" by linarith
qed

lemma fl_error: "0 < q \<Longrightarrow> \<bar>fl q - q\<bar> \<le> q / 2 ^ 53"
proof -
  assume q: "0 < q"
  define u where "u = pow2 (ilog2 q - 52)"
  have u: "0 < u" by (simp add: u_def)
  have "2 ^ 52 * u = pow2 (ilog2 q)" using pow2_add_nat [of "ilog2 q - 52" 52] by (simp add: u_def)
  with ilog2_bounds [OF q] have ule: "u \<le> q / 2 ^ 52" by (simp add: field_simps)
  have "fl q - q = (of_int (rne (q / u)) - q / u) * u" using q u by (simp add: fl_def fl_pos_def Let_def left_diff_distrib flip: u_def)
  then have "\<bar>fl q - q\<bar> \<le> 1 / 2 * u" using rne_error [of "q / u"] u by (simp only: abs_mult) (intro mult_mono, auto)
  with ule show ?thesis by simp
qed

lemma rounded_plain:
  assumes "0 \<le> q" and "rne (q * 10 ^ n) < 2 ^ 50" and "n < 25"
  shows "plain_float (py_round n q)"
proof -
  define m where "m = rne (q * 10 ^ n)"
  define x where "x = py_round n q"
  have m: "0 \<le> m" "m < 2 ^ 50" using assms rne_nonneg [of "q * 10 ^ n"] by (simp_all add: m_def)
  have x: "x = fl (of_int m / 10 ^ n)" "0 \<le> x" using m by (simp_all add: x_def m_def py_round_def fl_nonneg)
  have "rne (x * 10 ^ n) = m"
  proof (cases "m = 0")
    case False
    then have p: "0 < (of_int m :: rat) / 10 ^ n" using m by simp
    have "x * 10 ^ n - of_int m = (x - of_int m / 10 ^ n) * 10 ^ n" by (simp add: field_simps)
    also have "\<bar>\<dots>\<bar> \<le> of_int m / 10 ^ n / 2 ^ 53 * 10 ^ n"
      using fl_error [OF p] by (simp only: abs_mult x(1)) (intro mult_mono, auto)
    also have "\<dots> = of_int m / 2 ^ 53" by simp
    also have "\<dots> < 1 / 2" using m by (simp add: field_simps)
    finally show ?thesis by (rule rne_unique)
  qed (use x in \<open>simp add: rne_def\<close>)
  then have "fl (of_int (rne (x * 10 ^ n)) / 10 ^ n) = x" using x(1) by simp
  then have "find (\<lambda>k. fl (of_int (rne (x * 10 ^ k)) / 10 ^ k) = x) [0..<25] \<noteq> None"
    using assms(3) by (auto simp: find_None_iff)
  then obtain k where k: "find (\<lambda>k. fl (of_int (rne (x * 10 ^ k)) / 10 ^ k) = x) [0..<25] = Some k" by blast
  then have "fl (of_int (rne (x * 10 ^ k)) / 10 ^ k) = x" by (auto simp: find_Some_iff)
  with k x(2) show ?thesis by (simp add: plain_float_def frac_digits_def flip: x_def)
qed

section \<open>The round trip\<close>

text \<open>What a Python value is that this text carries: dictionaries have one value per key.\<close>

fun json_ok :: "json \<Rightarrow> bool" where
  "json_ok (JFloat x) = plain_float x"
| "json_ok (JList js) = list_all json_ok js"
| "json_ok (JObj kvs) = (distinct (map fst kvs) \<and> list_all (\<lambda>kv. json_ok (snd kv)) kvs)"
| "json_ok _ = True"

lemma update_fresh: "k \<notin> fst ` set xs \<Longrightarrow> AList.update k v xs = xs @ [(k, v)]"
  by (induction xs) auto

lemma to_dict_distinct: "distinct (map fst kvs) \<Longrightarrow> to_dict kvs = kvs"
proof (induction kvs rule: rev_induct)
  case (snoc kv kvs)
  then show ?case by (cases kv) (simp add: to_dict_def update_fresh)
qed (simp add: to_dict_def)

text \<open>The first character of a rendered value says which kind it is.\<close>

definition number_start :: "char \<Rightarrow> bool" where
  "number_start c \<longleftrightarrow> c = CHR ''-'' \<or> is_dec_digit c"

lemma number_text: "\<exists>c t. show_int i = c # t \<and> number_start c" "\<exists>c t. float_repr x = c # t \<and> number_start c"
proof -
  show "\<exists>c t. show_int i = c # t \<and> number_start c"
    using show_nat_first [of "nat i"] by (auto simp: show_int_def number_start_def)
  show "\<exists>c t. float_repr x = c # t \<and> number_start c"
  proof (cases "x < 0")
    case False
    then obtain n fp where "py_float_str x = show_nat n @ CHR ''.'' # fp" by (metis float_text not_less)
    with False show ?thesis using show_nat_first [of n] by (auto simp: float_repr_def number_start_def)
  qed (simp add: float_repr_def number_start_def)
qed

lemma render_start: "\<exists>c t. render st l j = c # t \<and> \<not> is_ws c \<and> c \<noteq> CHR '']'' \<and> c \<noteq> CHR ''}''"
proof -
  have "\<not> is_ws c \<and> c \<noteq> CHR '']'' \<and> c \<noteq> CHR ''}''" if "number_start c" for c
    using that by (auto simp: number_start_def is_ws_def is_dec_digit_def)
  with number_text show ?thesis
    by (cases j) (fastforce simp: is_ws_def encode_string_def bracketed_def)+
qed

lemma skip_render: "skip_ws (render st l j @ s) = render st l j @ s"
  using render_start [of st l j] by (auto simp: skip_ws_Cons)

lemma parse_number:
  assumes "\<exists>c t. u = c # t \<and> number_start c"
  shows "parse_value (u @ s) = scan_number (u @ s)"
  using assms by (auto simp: parse_value.simps number_start_def is_dec_digit_def starts_with_def)

definition ends_value :: "string \<Rightarrow> bool" where
  "ends_value s \<longleftrightarrow> (case s of [] \<Rightarrow> True | c # _ \<Rightarrow> is_ws c \<or> c = CHR '','' \<or> c = CHR '']'' \<or> c = CHR ''}'')"

lemma ends_value_number: "ends_value s \<Longrightarrow> ends_number s"
  by (auto simp: ends_value_def ends_number_def is_ws_def is_dec_digit_def split: list.splits)

lemma ends_value_ws: "list_all is_ws w \<Longrightarrow> ends_value (c # s) \<Longrightarrow> ends_value (w @ c # s)"
  by (cases w) (auto simp: ends_value_def)

lemma parse_scalar:
  assumes "json_ok j" and "ends_value s" and "\<And>js. j \<noteq> JList js" and "\<And>kvs. j \<noteq> JObj kvs"
  shows "parse_value (render st l j @ s) = Some (j, s)"
proof (cases j)
  case (JInt i)
  then show ?thesis
    by (simp add: parse_number [OF number_text(1)] scan_int [OF ends_value_number [OF assms(2)]])
next
  case (JFloat x)
  with assms(1) show ?thesis
    by (simp add: parse_number [OF number_text(2)] scan_float [OF _ ends_value_number [OF assms(2)]])
next
  case (JStr t)
  then show ?thesis by (simp add: encode_string_def scan_encoded parse_value.simps)
qed (use assms in \<open>auto simp: starts_with_def parse_value.simps\<close>)

lemma joined_start: "\<exists>u. joined sep (x # xs) = x @ u"
  by (cases xs) auto

lemma skip_joined:
  "\<exists>c t. x = c # t \<and> \<not> is_ws c \<Longrightarrow> skip_ws (joined sep (x # xs) @ s) = joined sep (x # xs) @ s"
  using joined_start [of sep x xs] by (auto simp: skip_ws_Cons)

lemma not_ws [simp]: "\<not> is_ws (CHR '','')" "\<not> is_ws (CHR '']'')" "\<not> is_ws (CHR ''}'')" "\<not> is_ws (CHR '':'')" "\<not> is_ws (CHR 0x22)"
  by (simp_all add: is_ws_def)

text \<open>A value the parser gives back, wherever it stands.\<close>

definition parses :: "style \<Rightarrow> nat \<Rightarrow> json \<Rightarrow> bool" where
  "parses st l j \<longleftrightarrow> (\<forall>s. ends_value s \<longrightarrow> parse_value (render st l j @ s) = Some (j, s))"

lemma ends_after: "list_all is_ws w \<Longrightarrow> c \<in> {CHR '','', CHR '']'', CHR ''}''} \<Longrightarrow> ends_value (w @ c # s)"
  by (rule ends_value_ws) (auto simp: ends_value_def)

lemma parse_items_joined:
  assumes "ws_style st" and "list_all is_ws w" and "js \<noteq> []" and "\<forall>j \<in> set js. parses st l j"
  shows "parse_items (joined (CHR '','' # st_gap st l) (map (render st l) js) @ w @ CHR '']'' # s) = Some (js, s)"
  using assms(3,4)
proof (induction js rule: induct_list012)
  case (2 j)
  then have "parse_value (render st l j @ w @ CHR '']'' # s) = Some (j, w @ CHR '']'' # s)"
    using ends_after [OF assms(2)] by (simp add: parses_def)
  then show ?case
    by (simp add: parse_items.simps skip_ws_append [OF assms(2)] skip_ws_Cons)
next
  case (3 j j' js)
  let ?rest = "joined (CHR '','' # st_gap st l) (map (render st l) (j' # js)) @ w @ CHR '']'' # s"
  have gap: "list_all is_ws (st_gap st l)" using assms(1) by (simp add: ws_style_def)
  have "parse_value (render st l j @ CHR '','' # st_gap st l @ ?rest) = Some (j, CHR '','' # st_gap st l @ ?rest)"
    using "3.prems" ends_after [of "[]"] by (simp add: parses_def)
  moreover have "skip_ws ?rest = ?rest"
    using skip_joined [of "render st l j'"] render_start [of st l j'] by auto
  moreover have "parse_items ?rest = Some (j' # js, s)" using "3.IH"(2) "3.prems" by simp
  ultimately show ?case
    by (simp add: parse_items.simps [of "render st l j @ t" for t] skip_ws_append [OF gap] skip_ws_Cons)
qed simp

abbreviation member_text :: "style \<Rightarrow> nat \<Rightarrow> string \<times> json \<Rightarrow> string" where
  "member_text st l kv \<equiv> encode_string (fst kv) @ CHR '':'' # st_space st @ render st l (snd kv)"

text \<open>One member, up to what stands behind its value.\<close>

lemma parse_member:
  assumes "ws_style st" and "parses st l v" and "ends_value s"
  shows "parse_members (member_text st l (k, v) @ s) =
    (case skip_ws s of
       [] \<Rightarrow> None
     | d # q \<Rightarrow>
         if d = CHR ''}'' then Some ([(k, v)], q)
         else if d = CHR '','' \<and> length (skip_ws q) < length (member_text st l (k, v) @ s)
         then map_option (\<lambda>(kvs, q'). ((k, v) # kvs, q')) (parse_members (skip_ws q))
         else None)"
proof -
  have sp: "list_all is_ws (st_space st)" using assms(1) by (simp add: ws_style_def)
  have "parse_value (render st l v @ s) = Some (v, s)" using assms(2,3) by (simp add: parses_def)
  then show ?thesis
    by (simp add: encode_string_def parse_members.simps scan_encoded skip_ws_append [OF sp] skip_ws_Cons skip_render
        less_Suc_eq_le split: list.splits)
qed

lemma parse_members_joined:
  assumes "ws_style st" and "list_all is_ws w" and "kvs \<noteq> []" and "\<forall>kv \<in> set kvs. parses st l (snd kv)"
  shows "parse_members (joined (CHR '','' # st_gap st l) (map (member_text st l) kvs) @ w @ CHR ''}'' # s) = Some (kvs, s)"
  using assms(3,4)
proof (induction kvs rule: induct_list012)
  case (2 kv)
  then show ?case
    using parse_member [OF assms(1) _ ends_after [OF assms(2)], of l "snd kv" "CHR ''}''" "fst kv" s]
    by (simp add: skip_ws_append [OF assms(2)] skip_ws_Cons)
next
  case (3 kv kv' kvs)
  let ?rest = "joined (CHR '','' # st_gap st l) (map (member_text st l) (kv' # kvs)) @ w @ CHR ''}'' # s"
  have gap: "list_all is_ws (st_gap st l)" using assms(1) by (simp add: ws_style_def)
  have "skip_ws ?rest = ?rest" using skip_joined [of "member_text st l kv'"] by (simp add: encode_string_def)
  moreover have "parse_members ?rest = Some (kv' # kvs, s)" using "3.IH"(2) "3.prems" by simp
  ultimately show ?case
    using parse_member [OF assms(1) _ ends_after [of "[]"], of l "snd kv" "CHR '',''" "fst kv" "st_gap st l @ ?rest"] "3.prems"
    by (simp add: skip_ws_append [OF gap] skip_ws_Cons)
qed simp

lemma parse_bracketed:
  assumes "ws_style st" and "items \<noteq> []" and "\<exists>c t. hd items = c # t \<and> \<not> is_ws c"
  shows "\<exists>t. bracketed st l a b items @ s = a # t
    \<and> skip_ws t = joined (CHR '','' # st_gap st (l + 1)) items @ st_pad st l @ b # s
    \<and> length (skip_ws t) \<le> length t"
proof -
  have pad: "list_all is_ws (st_pad st (Suc l))" using assms(1) by (simp add: ws_style_def)
  have "skip_ws (joined (CHR '','' # st_gap st (l + 1)) items @ st_pad st l @ b # s)
      = joined (CHR '','' # st_gap st (l + 1)) items @ st_pad st l @ b # s"
    using assms(2,3) by (cases items) (auto intro!: skip_joined)
  then show ?thesis
    using assms(2) by (auto simp: bracketed_def skip_ws_append [OF pad])
qed

lemma parses_list:
  assumes "ws_style st" and "\<forall>j \<in> set js. parses st (l + 1) j"
  shows "parses st l (JList js)"
proof -
  have "parse_value (render st l (JList js) @ s) = Some (JList js, s)" if "ends_value s" for s
  proof (cases "js = []")
    case True
    then show ?thesis by (simp add: bracketed_def parse_value.simps skip_ws_Cons)
  next
    case False
    then obtain j js' where js: "js = j # js'" by (cases js) auto
    obtain c u where c: "render st (l + 1) j = c # u" "\<not> is_ws c" "c \<noteq> CHR '']''" using render_start by blast
    then have "\<exists>c t. hd (map (render st (l + 1)) js) = c # t \<and> \<not> is_ws c" by (simp add: js)
    from parse_bracketed [OF assms(1) _ this, of l "CHR ''[''" "CHR '']''" s] False obtain t where
      t: "render st l (JList js) @ s = CHR ''['' # t" "length (skip_ws t) \<le> length t"
         "skip_ws t = joined (CHR '','' # st_gap st (l + 1)) (map (render st (l + 1)) js) @ st_pad st l @ CHR '']'' # s"
      by auto
    have "list_all is_ws (st_pad st l)" using assms(1) by (simp add: ws_style_def)
    then have p: "parse_items (skip_ws t) = Some (js, s)"
      unfolding t(3) using False assms(1) by (intro parse_items_joined) (simp_all add: assms(2) del: One_nat_def)
    obtain u' where "skip_ws t = c # u'"
      using joined_start [of "CHR '','' # st_gap st (l + 1)" "render st (l + 1) j" "map (render st (l + 1)) js'"] c
      by (auto simp: t(3) js)
    with t(1,2) p c show ?thesis by (simp add: parse_value.simps)
  qed
  then show ?thesis by (simp add: parses_def)
qed

lemma parses_object:
  assumes "ws_style st" and "\<forall>kv \<in> set kvs. parses st (l + 1) (snd kv)" and "distinct (map fst kvs)"
  shows "parses st l (JObj kvs)"
proof -
  have "parse_value (render st l (JObj kvs) @ s) = Some (JObj kvs, s)" if "ends_value s" for s
  proof (cases "kvs = []")
    case True
    then show ?thesis by (simp add: bracketed_def parse_value.simps skip_ws_Cons)
  next
    case False
    then obtain kv kvs' where kvs: "kvs = kv # kvs'" by (cases kvs) auto
    then have "\<exists>c t. hd (map (member_text st (l + 1)) kvs) = c # t \<and> \<not> is_ws c" by (simp add: encode_string_def)
    from parse_bracketed [OF assms(1) _ this, of l "CHR ''{''" "CHR ''}''" s] False obtain t where
      t: "render st l (JObj kvs) @ s = CHR ''{'' # t" "length (skip_ws t) \<le> length t"
         "skip_ws t = joined (CHR '','' # st_gap st (l + 1)) (map (member_text st (l + 1)) kvs) @ st_pad st l @ CHR ''}'' # s"
      by auto
    have "list_all is_ws (st_pad st l)" using assms(1) by (simp add: ws_style_def)
    then have p: "parse_members (skip_ws t) = Some (kvs, s)"
      unfolding t(3) using False assms(1) by (intro parse_members_joined) (simp_all add: assms(2) del: One_nat_def)
    obtain u' where "skip_ws t = CHR 0x22 # u'"
      using joined_start [of "CHR '','' # st_gap st (l + 1)" "member_text st (l + 1) kv" "map (member_text st (l + 1)) kvs'"]
      by (auto simp: t(3) kvs encode_string_def)
    with t(1,2) p assms(3) show ?thesis by (simp add: parse_value.simps to_dict_distinct)
  qed
  then show ?thesis by (simp add: parses_def)
qed

lemma parse_render: "ws_style st \<Longrightarrow> json_ok j \<Longrightarrow> parses st l j"
proof (induction st l j rule: render.induct)
  case (6 st l js)
  then show ?case by (intro parses_list) (simp_all add: list_all_iff)
next
  case (7 st l kvs)
  then show ?case by (intro parses_object) (simp_all add: list_all_iff)
qed (auto simp: parses_def intro!: parse_scalar simp del: render.simps)

lemma loads_render:
  assumes "ws_style st" and "json_ok j" and "list_all is_ws w"
  shows "loads (render st l j @ w) = Inr j"
proof -
  have "ends_value w" using assms(3) by (cases w) (simp_all add: ends_value_def)
  with parse_render [OF assms(1,2)] have "parse_value (render st l j @ w) = Some (j, w)" by (simp add: parses_def)
  moreover have "skip_ws w = []" using skip_ws_append [OF assms(3), of "[]"] by (simp add: skip_ws_def)
  ultimately show ?thesis by (simp add: loads_def skip_render)
qed

lemma sorted_keys_ok: "json_ok j \<Longrightarrow> json_ok (sorted_keys j)"
proof (induction j rule: sorted_keys.induct)
  case (2 kvs)
  have "mset (map fst (sort_key fst (map (\<lambda>kv. (fst kv, sorted_keys (snd kv))) kvs))) = mset (map fst kvs)"
    by (simp add: multiset.map_comp comp_def)
  from mset_eq_imp_distinct_iff [OF this] "2.prems"
  have "distinct (map fst (sort_key fst (map (\<lambda>kv. (fst kv, sorted_keys (snd kv))) kvs)))" by simp
  with 2 show ?case by (auto simp: list_all_iff)
qed (auto simp: list_all_iff)

section \<open>One line\<close>

definition printable :: "char \<Rightarrow> bool" where
  "printable c \<longleftrightarrow> 32 \<le> (of_char c :: nat) \<and> (of_char c :: nat) \<le> 126"

lemma digit_printable: "is_dec_digit c \<Longrightarrow> printable c"
  by (simp add: is_dec_digit_def printable_def Let_def)

lemma hex_printable: "d < 16 \<Longrightarrow> printable (hex_digit d)"
  by (auto simp: hex_digit_def printable_def)

lemma escape_printable: "list_all printable (escape_char c)"
proof -
  have "(of_char c :: nat) div 16 < 16" using nat_of_char_less_256 [of c] by linarith
  then have "printable (hex_digit (of_char c div 16))" "printable (hex_digit (of_char c mod 16))"
    by (simp_all add: hex_printable)
  moreover have "list_all printable [CHR 0x5C, CHR 0x22, CHR ''b'', CHR ''f'', CHR ''n'', CHR ''r'', CHR ''t'', CHR ''u'', CHR ''0'']"
    by (simp add: printable_def)
  ultimately show ?thesis by (simp add: escape_char_def Let_def) (simp add: printable_def)
qed

lemma encode_printable: "list_all printable (encode_string t)"
proof -
  have "printable (CHR 0x22)" by (simp add: printable_def)
  then show ?thesis using escape_printable by (auto simp: encode_string_def list_all_iff)
qed

lemma nat_printable: "list_all printable (show_nat n)"
  using digits_show_nat [of n] digit_printable by (auto simp: list_all_iff)

lemma int_printable: "list_all printable (show_int i)"
  using nat_printable by (auto simp: show_int_def) (simp_all add: printable_def)

lemma float_printable: "list_all printable (float_repr x)"
proof -
  have "list_all printable (py_float_str y)" if "0 \<le> y" for y
  proof -
    obtain n fp where "py_float_str y = show_nat n @ CHR ''.'' # fp" "list_all is_dec_digit fp"
      using float_text [OF \<open>0 \<le> y\<close>] by metis
    moreover have "printable (CHR ''.'')" by (simp add: printable_def)
    ultimately show ?thesis using nat_printable [of n] digit_printable by (auto simp: list_all_iff)
  qed
  moreover have "printable (CHR ''-'')" by (simp add: printable_def)
  ultimately show ?thesis by (simp add: float_repr_def)
qed

lemma joined_printable: "list_all printable sep \<Longrightarrow> \<forall>x \<in> set xs. list_all printable x \<Longrightarrow> list_all printable (joined sep xs)"
  by (induction sep xs rule: joined.induct) auto

lemma bracketed_printable:
  assumes "\<forall>x \<in> set items. list_all printable x" and "printable a" and "printable b"
  shows "list_all printable (bracketed one_line l a b items)"
proof -
  have "list_all printable '', ''" by (simp add: printable_def)
  with assms joined_printable [of "'', ''" items] show ?thesis by (simp add: bracketed_def one_line_def)
qed

lemma render_printable: "list_all printable (render one_line l j)"
proof (induction one_line l j rule: render.induct)
  case (6 l js)
  then show ?case by (auto intro!: bracketed_printable) (simp_all add: printable_def)
next
  case (7 l kvs)
  have "list_all printable '': ''" "st_space one_line = '' ''" by (simp_all add: printable_def one_line_def)
  with 7 show ?case
    by (auto intro!: bracketed_printable simp: encode_printable) (simp_all add: printable_def)
qed (simp_all add: int_printable float_printable encode_printable, simp_all add: printable_def)

lemma line_has_no_break: "CHR 0x0A \<notin> set (dumps_line j)" "CHR 0x0D \<notin> set (dumps_line j)"
  using render_printable [of 0 j] by (auto simp: dumps_line_def list_all_iff printable_def)

section \<open>Properties\<close>

text \<open>What the scripts write, the agent reads: the indented text of any value, followed by the
  newline the scripts add, decodes to the value with its keys sorted, and the one-line text of
  the log formatter decodes to the value itself and contains no line break, whatever characters the
  strings hold.\<close>

theorem json_roundtrip:
  assumes "json_ok j"
  shows "loads (dumps_indented j @ [CHR 0x0A]) = Inr (sorted_keys j) \<and> loads (dumps_line j) = Inr j
    \<and> CHR 0x0A \<notin> set (dumps_line j) \<and> CHR 0x0D \<notin> set (dumps_line j)"
  using loads_render [OF ws_styles(1) sorted_keys_ok [OF assms], of "[CHR 0x0A]" 0] loads_render [OF ws_styles(2) assms, of "[]" 0]
    line_has_no_break [of j]
  by (simp add: dumps_indented_def dumps_line_def is_ws_def)

section \<open>Witness\<close>

definition ex_json :: json where
  "ex_json = JObj [(''status'', JStr ''a \<newline>b''), (''events'', JList [JInt (- 12), JNull, JFloat (5 / 2)])]"

theorem json_roundtrip_witness:
  "loads (dumps_indented ex_json @ [CHR 0x0A]) = Inr (JObj [(''events'', JList [JInt (- 12), JNull, JFloat (5 / 2)]), (''status'', JStr ''a \<newline>b'')])
    \<and> CHR 0x0A \<notin> set (dumps_line ex_json)"
proof -
  have "json_ok ex_json" by code_simp
  moreover have "sorted_keys ex_json = JObj [(''events'', JList [JInt (- 12), JNull, JFloat (5 / 2)]), (''status'', JStr ''a \<newline>b'')]"
    by code_simp
  ultimately show ?thesis using json_roundtrip by metis
qed

end
