(* ===== verification/Logging.thy ===== *)
theory Logging
  imports JsonText
begin

text \<open>
  \<^verbatim>\<open>api/app/core/logging.py\<close>: the replacement of \<^verbatim>\<open>Logger.makeRecord\<close> that renames caller
  supplied fields, the formatter of JSON lines, and the set-up of
  the root logger. The attributes of a fresh \<^verbatim>\<open>LogRecord\<close> are those of Python 3.11, which the
  images of the repository pin; a dict is an association list updated in place, as Python orders it.
\<close>

definition RESERVED_LOGRECORD_ATTRS :: "string list" where
  "RESERVED_LOGRECORD_ATTRS = [''name'', ''msg'', ''args'', ''levelname'', ''levelno'', ''pathname'', ''filename'',
     ''module'', ''exc_info'', ''exc_text'', ''stack_info'', ''lineno'', ''funcName'', ''created'', ''msecs'',
     ''relativeCreated'', ''thread'', ''threadName'', ''processName'', ''process'', ''message'']"

text \<open>What \<^verbatim>\<open>LogRecord.__init__\<close> sets.\<close>

definition logrecord_attrs :: "string list" where
  "logrecord_attrs = filter (\<lambda>k. k \<noteq> ''message'') RESERVED_LOGRECORD_ATTRS"

text \<open>A record: the attributes the formatter reads, and the fields merged into \<^verbatim>\<open>__dict__\<close>.\<close>

record log_record =
  rc_name :: string
  rc_levelname :: string
  rc_message :: string
  rc_exception :: "string option"
  rc_extra :: dict

section \<open>Making a record\<close>

definition overwrite_error :: "string \<Rightarrow> exn" where
  "overwrite_error k = KeyError (''Attempt to overwrite '' @ [CHR 0x27] @ k @ [CHR 0x27] @ '' in LogRecord'')"

text \<open>The loop of the library's \<^verbatim>\<open>makeRecord\<close> over \<^verbatim>\<open>extra\<close>.\<close>

fun merge_extra :: "dict \<Rightarrow> dict \<Rightarrow> exn + dict" where
  "merge_extra attrs [] = Inr attrs"
| "merge_extra attrs ((k, v) # extra) =
     (if k \<in> {''message'', ''asctime''} \<or> k \<in> set logrecord_attrs \<or> k \<in> fst ` set attrs
      then Inl (overwrite_error k)
      else merge_extra (attrs @ [(k, v)]) extra)"

definition make_record_orig :: "log_record \<Rightarrow> dict \<Rightarrow> exn + log_record" where
  "make_record_orig rc extra = and_then (merge_extra [] extra) (\<lambda>attrs. Inr (rc\<lparr>rc_extra := attrs\<rparr>))"

definition rename_key :: "string \<Rightarrow> string" where
  "rename_key k = (if k \<in> set RESERVED_LOGRECORD_ATTRS then ''x_'' @ k else k)"

definition clean_extra :: "dict \<Rightarrow> dict" where
  "clean_extra extra = fold (\<lambda>(k, v) clean. AList.update (rename_key k) v clean) extra []"

definition safe_make_record :: "log_record \<Rightarrow> dict \<Rightarrow> exn + log_record" where
  "safe_make_record rc extra = make_record_orig rc (if extra \<noteq> [] then clean_extra extra else extra)"

section \<open>Formatting\<close>

definition isoformat_ms :: "int \<Rightarrow> string" where
  "isoformat_ms wall =
     (let us = wall mod 1000000; secs = wall div 1000000; days = secs div 86400; sod = secs mod 86400;
          (y, m, d) = civil_from_days days
      in pad 4 y @ ''-'' @ pad 2 m @ ''-'' @ pad 2 d @ ''T'' @ pad 2 (sod div 3600) @ '':''
         @ pad 2 (sod div 60 mod 60) @ '':'' @ pad 2 (sod mod 60) @ ''.'' @ pad 3 (us div 1000) @ iso_offset 0)"

definition json_envelope :: "settings \<Rightarrow> string \<Rightarrow> time \<Rightarrow> log_record \<Rightarrow> dict" where
  "json_envelope S request_id now rc = [
     (''ts'', JStr (isoformat_ms now)), (''level'', JStr (rc_levelname rc)), (''logger'', JStr (rc_name rc)),
     (''message'', JStr (rc_message rc)), (''request_id'', JStr request_id), (''service'', JStr ''converge-backend''),
     (''env'', JStr (environment S)),
     (''worker'', if str_contains ''worker'' (rc_name rc) then JStr (worker_name S) else JNull)]
     @ (case rc_exception rc of None \<Rightarrow> [] | Some tb \<Rightarrow> [(''exception'', JStr tb)])"

definition json_format :: "settings \<Rightarrow> string \<Rightarrow> time \<Rightarrow> log_record \<Rightarrow> dict" where
  "json_format S request_id now rc =
     filter (\<lambda>(k, v). v \<noteq> JNull)
       (fold (\<lambda>(k, v) payload. AList.update k v payload)
         (filter (\<lambda>(k, v). k \<notin> set RESERVED_LOGRECORD_ATTRS) (rc_extra rc))
         (json_envelope S request_id now rc))"

definition json_line :: "settings \<Rightarrow> string \<Rightarrow> time \<Rightarrow> log_record \<Rightarrow> string" where
  "json_line S request_id now rc = dumps_line (JObj (json_format S request_id now rc))"

section \<open>Set-up\<close>

datatype formatter = JsonFormatter | TextFormatter

text \<open>\<open>lg_orig\<close> and \<open>lg_make\<close> are the two attributes of \<^verbatim>\<open>Logger\<close>: true where the function is the safe one.\<close>

record logging_state =
  lg_orig :: "bool option"
  lg_make :: bool
  lg_handlers :: "formatter list"
  lg_root_level :: string
  lg_levels :: "string \<rightharpoonup> string"

definition upper_char :: "char \<Rightarrow> char" where
  "upper_char c = (let n = (of_char c :: nat) in 
     if (97 \<le> n \<and> n \<le> 122) \<or> (224 \<le> n \<and> n \<le> 254 \<and> n \<noteq> 247) then char_of (n - 32) else c)"

definition LEVEL_NAMES :: "string list" where
  "LEVEL_NAMES = [''CRITICAL'', ''FATAL'', ''ERROR'', ''WARN'', ''WARNING'', ''INFO'', ''DEBUG'', ''NOTSET'']"

definition setup_logging :: "settings \<Rightarrow> logging_state \<Rightarrow> (exn + unit) \<times> logging_state" where
  "setup_logging S st =
     (let st1 = (case lg_orig st of None \<Rightarrow> st\<lparr>lg_orig := Some (lg_make st), lg_make := True\<rparr> | Some _ \<Rightarrow> st);
          fmt = (if log_format S = ''json'' then JsonFormatter else TextFormatter);
          st2 = st1\<lparr>lg_handlers := [fmt]\<rparr>;
          level = map upper_char (log_level S)
      in if level \<notin> set LEVEL_NAMES then (Inl (ValueError (''Unknown level: '' @ [CHR 0x27] @ level @ [CHR 0x27])), st2)
         else (Inr (), st2\<lparr>lg_root_level := level,
           lg_levels := fold (\<lambda>lib ls. ls(lib \<mapsto> ''WARNING''))
             [''httpx'', ''uvicorn.access'', ''sqlalchemy.engine''] (lg_levels st2)\<rparr>))"

definition make_request_id :: "string \<Rightarrow> string" where
  "make_request_id hex = take 16 hex"

section \<open>Lemmas\<close>

lemma rename_not_taken: "rename_key k \<noteq> ''message'' \<and> rename_key k \<notin> set logrecord_attrs"
  by (auto simp: rename_key_def logrecord_attrs_def RESERVED_LOGRECORD_ATTRS_def)

lemma rename_asctime: "rename_key k = ''asctime'' \<longleftrightarrow> k = ''asctime''"
  by (auto simp: rename_key_def RESERVED_LOGRECORD_ATTRS_def)

lemma rename_unprefixed:
  assumes "\<not> starts_with ''x_'' k" and "\<not> starts_with ''x_'' k'" and "rename_key k = rename_key k'"
  shows "k = k'"
  using assms by (auto simp: rename_key_def starts_with_def split: if_splits)

lemma fold_update_fresh:
  "distinct (map rename_key (map fst extra)) \<Longrightarrow> fst ` set acc \<inter> rename_key ` fst ` set extra = {} \<Longrightarrow>
    fold (\<lambda>(k, v) clean. AList.update (rename_key k) v clean) extra acc
      = acc @ map (\<lambda>(k, v). (rename_key k, v)) extra"
proof (induction extra arbitrary: acc)
  case (Cons p extra)
  obtain k v where p: "p = (k, v)" by (cases p)
  have "rename_key k \<notin> fst ` set acc" using Cons.prems(2) p by auto
  moreover have "fst ` set (acc @ [(rename_key k, v)]) \<inter> rename_key ` fst ` set extra = {}"
    using Cons.prems p by force
  ultimately show ?case using Cons.IH [of "acc @ [(rename_key k, v)]"] Cons.prems(1) p by (simp add: update_fresh)
qed simp

lemma clean_extra_map:
  assumes "distinct (map fst extra)" and "\<forall>k \<in> fst ` set extra. \<not> starts_with ''x_'' k"
  shows "clean_extra extra = map (\<lambda>(k, v). (rename_key k, v)) extra"
    and "distinct (map rename_key (map fst extra))"
proof -
  have "inj_on rename_key (fst ` set extra)" using assms(2) rename_unprefixed by (auto simp: inj_on_def)
  with assms(1) show d: "distinct (map rename_key (map fst extra))" by (simp add: distinct_map comp_inj_on)
  then show "clean_extra extra = map (\<lambda>(k, v). (rename_key k, v)) extra"
    unfolding clean_extra_def using fold_update_fresh [OF d, of "[]"] by simp
qed

lemma merge_renamed:
  "distinct (map rename_key (map fst extra)) \<Longrightarrow> fst ` set attrs \<inter> rename_key ` fst ` set extra = {} \<Longrightarrow>
    merge_extra attrs (map (\<lambda>(k, v). (rename_key k, v)) extra)
      = (if ''asctime'' \<in> fst ` set extra then Inl (overwrite_error ''asctime'')
         else Inr (attrs @ map (\<lambda>(k, v). (rename_key k, v)) extra))"
proof (induction extra arbitrary: attrs)
  case (Cons p extra)
  obtain k v where p: "p = (k, v)" by (cases p)
  have "rename_key k \<notin> fst ` set attrs" using Cons.prems(2) p by auto
  moreover have "fst ` set (attrs @ [(rename_key k, v)]) \<inter> rename_key ` fst ` set extra = {}"
    using Cons.prems p by force
  ultimately show ?case
    using Cons.IH [of "attrs @ [(rename_key k, v)]"] Cons.prems(1) p rename_not_taken [of k] rename_asctime [of k]
    by auto
qed simp

lemma fold_update_values:
  "distinct (map fst acc) \<Longrightarrow> \<forall>kv \<in> set acc. P (snd kv) \<Longrightarrow> \<forall>kv \<in> set kvs. P (snd kv) \<Longrightarrow>
    distinct (map fst (fold (\<lambda>(k, v) payload. AList.update k v payload) kvs acc))
    \<and> (\<forall>kv \<in> set (fold (\<lambda>(k, v) payload. AList.update k v payload) kvs acc). P (snd kv))"
proof (induction kvs arbitrary: acc)
  case (Cons kv kvs)
  obtain k v where kv: "kv = (k, v)" by (cases kv)
  have "set (AList.update k v acc) \<subseteq> insert (k, v) (set acc)" by (induction acc) auto
  with Cons.prems kv have "\<forall>kv \<in> set (AList.update k v acc). P (snd kv)" by auto
  with Cons.IH [of "AList.update k v acc"] Cons.prems kv show ?case by (simp add: distinct_update)
qed simp

lemma json_format_ok:
  assumes "list_all (\<lambda>kv. json_ok (snd kv)) (rc_extra rc)"
  shows "json_ok (JObj (json_format S request_id now rc))"
proof -
  let ?env = "json_envelope S request_id now rc"
    and ?extra = "filter (\<lambda>(k, v). k \<notin> set RESERVED_LOGRECORD_ATTRS) (rc_extra rc)"
  have env: "distinct (map fst ?env)" "\<forall>kv \<in> set ?env. json_ok (snd kv)"
    by (auto simp: json_envelope_def split: option.splits)
  have "\<forall>kv \<in> set ?extra. json_ok (snd kv)" using assms by (auto simp: list_all_iff)
  note f = fold_update_values [where P = json_ok, OF env this]
  show ?thesis using f by (auto simp: json_format_def list_all_iff intro!: distinct_map_filter)
qed

section \<open>Properties\<close>

text \<open>Log calls with extra fields: whatever fields a caller passes, each is kept in the record in its
  order, under its own name or, where the name is a record attribute, under that name prefixed
  with \<^verbatim>\<open>x_\<close>, and nothing is raised, except that a field named \<^verbatim>\<open>asctime\<close> still makes the log
  call raise.\<close>

theorem log_fields_kept:
  assumes "distinct (map fst extra)" and "\<forall>k \<in> fst ` set extra. \<not> starts_with ''x_'' k"
  shows "safe_make_record rc extra =
    (if ''asctime'' \<in> fst ` set extra then Inl (overwrite_error ''asctime'')
     else Inr (rc\<lparr>rc_extra := map (\<lambda>(k, v). (if k \<in> set RESERVED_LOGRECORD_ATTRS then ''x_'' @ k else k, v)) extra\<rparr>))"
  using merge_renamed [OF clean_extra_map(2) [OF assms], of "[]"] clean_extra_map(1) [OF assms]
  by (simp add: safe_make_record_def make_record_orig_def rename_key_def [symmetric])

text \<open>Every log record is one line of JSON: whatever message, exception text, names and extra fields a
  record has, its line contains no line break, and decoding the line gives back exactly the fields
  the formatter collected.\<close>

theorem log_record_is_one_line:
  assumes "list_all (\<lambda>kv. json_ok (snd kv)) (rc_extra rc)"
  shows "CHR 0x0A \<notin> set (json_line S request_id now rc) \<and> CHR 0x0D \<notin> set (json_line S request_id now rc)
    \<and> loads (json_line S request_id now rc) = Inr (JObj (json_format S request_id now rc))"
  using loads_render [OF ws_styles(2) json_format_ok [OF assms], of "[]" 0 S request_id now] line_has_no_break
  by (simp add: json_line_def dumps_line_def del: render.simps)

text \<open>Starting the application again in the same process changes nothing: the wrapper is installed once and never
  wraps itself, and one handler stays.\<close>

theorem setup_logging_idempotent:
  "setup_logging S (snd (setup_logging S st)) = setup_logging S st"
  by (cases st) (simp add: setup_logging_def Let_def fun_eq_iff split: option.split)

section \<open>Witness\<close>

definition ex_record :: log_record where
  "ex_record = \<lparr>rc_name = ''app'', rc_levelname = ''INFO'', rc_message = ''started'', rc_exception = None, rc_extra = []\<rparr>"

theorem log_fields_kept_witness:
  "safe_make_record ex_record [(''name'', JStr ''a''), (''count'', JInt 2)]
     = Inr (ex_record\<lparr>rc_extra := [(''x_name'', JStr ''a''), (''count'', JInt 2)]\<rparr>)
   \<and> safe_make_record ex_record [(''asctime'', JNull)] = Inl (overwrite_error ''asctime'')"
  using log_fields_kept [of "[(''name'', JStr ''a''), (''count'', JInt 2)]" ex_record]
    log_fields_kept [of "[(''asctime'', JNull)]" ex_record]
  by (simp add: RESERVED_LOGRECORD_ATTRS_def starts_with_def)

theorem log_record_is_one_line_witness:
  "CHR 0x0A \<notin> set (json_line (default_settings None ''h'') ''r1'' 0 (ex_record\<lparr>rc_message := ''a\<newline>b'', rc_extra := [(''count'', JInt 2)]\<rparr>))"
  using log_record_is_one_line [of "ex_record\<lparr>rc_message := ''a\<newline>b'', rc_extra := [(''count'', JInt 2)]\<rparr>"] by simp

end
