(* ===== verification/Routing.thy ===== *)
theory Routing
  imports Security Health
begin

text \<open>
  The routes of \<^verbatim>\<open>api/app/main.py\<close> and of the routers under \<^verbatim>\<open>api/app/api/\<close>, in the order in which they are
  registered, and the application behind the middleware: the first route whose path and method fit
  runs its dependencies and its endpoint. Matching follows the documented behaviour of the web
  framework: a path parameter is one non-empty segment, the first route that fits wins, a known
  path with another method is answered 405, a path that fits after its trailing slash is
  removed or added is redirected, any other is answered 404. The endpoints, and what the record
  \<open>framework\<close> holds, are arguments.
\<close>

section \<open>Routes\<close>

record route =
  rt_methods :: "string list"
  rt_path :: string
  rt_endpoint :: string
  rt_key :: bool
  rt_body :: bool

definition get_route :: "string \<Rightarrow> string \<Rightarrow> route" where
  "get_route path name = \<lparr>rt_methods = [''GET''], rt_path = path, rt_endpoint = name, rt_key = False, rt_body = False\<rparr>"

definition post_route :: "string \<Rightarrow> string \<Rightarrow> bool \<Rightarrow> bool \<Rightarrow> route" where
  "post_route path name key body =
     \<lparr>rt_methods = [''POST''], rt_path = path, rt_endpoint = name, rt_key = key, rt_body = body\<rparr>"

definition page_route :: "string \<Rightarrow> string \<Rightarrow> route" where
  "page_route path name =
     \<lparr>rt_methods = [''GET'', ''HEAD''], rt_path = path, rt_endpoint = name, rt_key = False, rt_body = False\<rparr>"

text \<open>What \<^verbatim>\<open>FastAPI(...)\<close> registers itself; \<^verbatim>\<open>openapi_url\<close> is left at its default.\<close>

definition builtin_routes :: "settings \<Rightarrow> route list" where
  "builtin_routes S = page_route ''/openapi.json'' ''openapi''
     # (if \<not> is_production S
        then [page_route ''/docs'' ''swagger_ui_html'', page_route ''/docs/oauth2-redirect'' ''swagger_ui_redirect'',
              page_route ''/redoc'' ''redoc_html'']
        else [])"

definition health_router :: "route list" where
  "health_router = [
     get_route ''/health'' ''health'',
     get_route ''/health/backend'' ''backend_status'',
     get_route ''/health/backend/stats'' ''backend_status_stats'',
     get_route ''/health/live'' ''liveness'',
     get_route ''/health/ready'' ''readiness'']"

definition events_router :: "route list" where
  "events_router = [
     post_route ''/api/events'' ''ingest_event'' True True,
     get_route ''/api/events/recent'' ''recent_events'',
     get_route ''/api/events/{event_id}'' ''get_event'']"

definition demo_router :: "route list" where
  "demo_router = [post_route ''/api/demo/generate-workload'' ''generate_workload'' True False]"

definition workflows_router :: "route list" where
  "workflows_router = [
     get_route ''/api/workflows'' ''list_workflows'',
     get_route ''/api/workflows/{workflow_id}/timeline'' ''get_workflow_timeline'',
     get_route ''/api/workflows/{workflow_id}'' ''get_workflow'']"

definition workers_router :: "route list" where
  "workers_router = [get_route ''/api/workers'' ''list_workers'']"

definition convergence_router :: "route list" where
  "convergence_router = [get_route ''/api/convergence'' ''get_convergence'']"

definition metrics_router :: "route list" where
  "metrics_router = [get_route ''/api/metrics'' ''get_metrics'']"

definition deadletters_router :: "route list" where
  "deadletters_router = [
     get_route ''/api/deadletters'' ''list_deadletters'',
     post_route ''/api/deadletters/{deadletter_id}/replay'' ''replay_deadletter'' True False]"

definition incidents_router :: "route list" where
  "incidents_router = [post_route ''/api/incidents/{workflow_id}/summarize'' ''summarize_incident'' False False]"

definition insights_router :: "route list" where
  "insights_router = [
     get_route ''/api/insights/services'' ''services_breakdown'',
     get_route ''/api/insights/errors'' ''top_errors'',
     get_route ''/api/insights/latency-histogram'' ''latency_histogram'',
     get_route ''/api/insights/event-types'' ''event_type_breakdown'',
     get_route ''/api/insights/throughput'' ''throughput_per_minute'']"

definition ai_router :: "route list" where
  "ai_router = [
     get_route ''/api/ai/anomalies'' ''anomalies'',
     get_route ''/api/ai/retry-recommendations'' ''retry_recommendations'',
     get_route ''/api/ai/root-cause/{workflow_id}'' ''workflow_root_cause'']"

definition app_routes :: "settings \<Rightarrow> route list" where
  "app_routes S = builtin_routes S @ health_router @ events_router @ demo_router @ workflows_router @ workers_router
     @ convergence_router @ metrics_router @ deadletters_router @ incidents_router @ insights_router @ ai_router"

lemmas router_defs = builtin_routes_def health_router_def events_router_def demo_router_def workflows_router_def
  workers_router_def convergence_router_def metrics_router_def deadletters_router_def incidents_router_def
  insights_router_def ai_router_def get_route_def post_route_def page_route_def

section \<open>Matching\<close>

datatype segment = Lit string | Param string

definition segment_of :: "string \<Rightarrow> segment" where
  "segment_of s = (case s of [] \<Rightarrow> Lit [] | c # rest \<Rightarrow> if c = CHR ''{'' then Param (butlast rest) else Lit s)"

definition template :: "string \<Rightarrow> segment list" where
  "template path = map segment_of (py_split (CHR ''/'') path)"

type_synonym params = "(string \<times> string) list"

fun match_segments :: "segment list \<Rightarrow> string list \<Rightarrow> params option" where
  "match_segments [] [] = Some []"
| "match_segments (Lit l # ts) (s # ss) = (if s = l then match_segments ts ss else None)"
| "match_segments (Param n # ts) (s # ss) =
     (if s \<noteq> [] then map_option ((#) (n, s)) (match_segments ts ss) else None)"
| "match_segments _ _ = None"

fun first_route :: "string \<Rightarrow> string list \<Rightarrow> route list \<Rightarrow> (route \<times> params) option" where
  "first_route m segs [] = None"
| "first_route m segs (rt # rts) =
     (case match_segments (template (rt_path rt)) segs of
        Some ps \<Rightarrow> if m \<in> set (rt_methods rt) then Some (rt, ps) else first_route m segs rts
      | None \<Rightarrow> first_route m segs rts)"

definition known_path :: "route list \<Rightarrow> string list \<Rightarrow> bool" where
  "known_path rts segs = list_ex (\<lambda>rt. match_segments (template (rt_path rt)) segs \<noteq> None) rts"

definition other_slash :: "string \<Rightarrow> string" where
  "other_slash path = (if path \<noteq> [] \<and> last path = CHR ''/''
     then rev (dropWhile (\<lambda>c. c = CHR ''/'') (rev path)) else path @ ''/'')"

datatype routing = Found route params | MethodNotAllowed | RedirectTo string | NoRoute

definition resolve :: "route list \<Rightarrow> string \<Rightarrow> string \<Rightarrow> routing" where
  "resolve rts m path =
     (let segs = py_split (CHR ''/'') path in
      case first_route m segs rts of
        Some (rt, ps) \<Rightarrow> Found rt ps
      | None \<Rightarrow>
          if known_path rts segs then MethodNotAllowed
          else if path \<noteq> ''/'' \<and> known_path rts (py_split (CHR ''/'') (other_slash path))
          then RedirectTo (other_slash path)
          else NoRoute)"

section \<open>The routed application\<close>

definition json_response :: "(json \<Rightarrow> string) \<Rightarrow> int \<times> dict \<Rightarrow> http_response" where
  "json_response render c = \<lparr>hr_status = fst c, hr_headers = [(''Content-Type'', ''application/json'')],
     hr_body = render (JObj (snd c))\<rparr>"

text \<open>The hash function, the JSON encoder, what is wrong with a body, and the absolute address of a path.\<close>

record framework =
  fw_hash :: "string \<Rightarrow> string"
  fw_render :: "json \<Rightarrow> string"
  fw_body_error :: "http_request \<Rightarrow> json option"
  fw_url :: "string \<Rightarrow> string"

text \<open>An \<^verbatim>\<open>HTTPException\<close> is answered by its handler, any other exception goes on to the middleware.\<close>

definition handled ::
  "(json \<Rightarrow> string) \<Rightarrow> string \<Rightarrow> (exn + http_response) \<times> 'w \<Rightarrow> (exn + http_response) \<times> 'w" where
  "handled render rid out = (case out of
     (Inl (HTTPException code detail), st) \<Rightarrow> (Inr (json_response render (http_exception_handler (Some rid) code detail)), st)
   | _ \<Rightarrow> out)"

text \<open>A body that is not JSON is refused before the dependencies run.\<close>

definition run_route ::
  "framework \<Rightarrow> settings \<Rightarrow> string \<Rightarrow> (string \<Rightarrow> params \<Rightarrow> ('r, 's) handler) \<Rightarrow> route \<Rightarrow> params \<Rightarrow> ('r, 's) handler" where
  "run_route F S rid endpoint rt ps rq st =
     (case (if rt_body rt then fw_body_error F rq else None) of
        Some err \<Rightarrow> (Inr (json_response (fw_render F) (validation_handler (Some rid) [err])), st)
      | None \<Rightarrow>
          handled (fw_render F) rid
            (case (if rt_key rt then require_api_key (fw_hash F) S (header_of rq ''x-api-key'') else Inr ()) of
               Inl x \<Rightarrow> (Inl x, st)
             | Inr _ \<Rightarrow> endpoint (rt_endpoint rt) ps rq st))"

definition routed ::
  "framework \<Rightarrow> settings \<Rightarrow> string \<Rightarrow> (string \<Rightarrow> params \<Rightarrow> ('r, 's) handler) \<Rightarrow> ('r, 's) handler" where
  "routed F S rid endpoint rq st =
     (case resolve (app_routes S) (rq_method rq) (rq_path rq) of
        Found rt ps \<Rightarrow> run_route F S rid endpoint rt ps rq st
      | MethodNotAllowed \<Rightarrow> (Inr (json_response (fw_render F) (http_exception_handler (Some rid) 405 ''Method Not Allowed'')), st)
      | RedirectTo p \<Rightarrow> (Inr \<lparr>hr_status = 307, hr_headers = [(''location'', fw_url F p)], hr_body = []\<rparr>, st)
      | NoRoute \<Rightarrow> (Inr (json_response (fw_render F) (http_exception_handler (Some rid) 404 ''Not Found'')), st))"

section \<open>Paths of a route\<close>

fun fill :: "(string \<Rightarrow> string) \<Rightarrow> segment \<Rightarrow> string" where
  "fill f (Lit l) = l"
| "fill f (Param n) = f n"

fun params_of :: "(string \<Rightarrow> string) \<Rightarrow> segment list \<Rightarrow> params" where
  "params_of f [] = []"
| "params_of f (Lit l # ts) = params_of f ts"
| "params_of f (Param n # ts) = (n, f n) # params_of f ts"

fun slashed :: "string list \<Rightarrow> string" where
  "slashed [] = []"
| "slashed [s] = s"
| "slashed (s # ss) = s @ CHR ''/'' # slashed ss"

definition path_of :: "(string \<Rightarrow> string) \<Rightarrow> route \<Rightarrow> string" where
  "path_of f rt = slashed (map (fill f) (template (rt_path rt)))"

lemma split_slashed: "ss \<noteq> [] \<Longrightarrow> \<forall>s \<in> set ss. CHR ''/'' \<notin> set s \<Longrightarrow> py_split (CHR ''/'') (slashed ss) = ss"
  by (induction ss rule: slashed.induct) (simp_all add: py_split_single py_split_append)

lemma template_literal: "Lit l \<in> set (template p) \<Longrightarrow> CHR ''/'' \<notin> set l"
  by (auto simp: template_def segment_of_def dest: py_split_no_sep split: list.splits if_splits)

lemma split_path_of:
  assumes "\<And>n. CHR ''/'' \<notin> set (f n)"
  shows "py_split (CHR ''/'') (path_of f rt) = map (fill f) (template (rt_path rt))"
proof -
  have "CHR ''/'' \<notin> set (fill f t)" if "t \<in> set (template (rt_path rt))" for t
    by (cases t) (use that assms in \<open>auto dest: template_literal\<close>)
  then show ?thesis unfolding path_of_def by (intro split_slashed) (auto simp: template_def)
qed

lemma first_route_cases:
  "first_route m segs rts = Some (rt, ps) \<Longrightarrow>
    rt \<in> set rts \<and> m \<in> set (rt_methods rt) \<and> match_segments (template (rt_path rt)) segs = Some ps"
  by (induction rts) (auto split: option.splits if_splits)

lemma resolve_found:
  "resolve rts m path = Found rt ps \<Longrightarrow>
    rt \<in> set rts \<and> m \<in> set (rt_methods rt) \<and> match_segments (template (rt_path rt)) (py_split (CHR ''/'') path) = Some ps"
  by (auto simp: resolve_def Let_def dest!: first_route_cases split: option.splits if_splits)

section \<open>Properties\<close>

text \<open>The only route that is not read-only and does not ask for a key.\<close>

lemma open_write_route:
  assumes "rt \<in> set (app_routes S)" and "m \<in> set (rt_methods rt)" and "m \<noteq> ''GET''" and "m \<noteq> ''HEAD''" and "\<not> rt_key rt"
  shows "rt_path rt = ''/api/incidents/{workflow_id}/summarize''"
  using assms by (auto simp: app_routes_def router_defs split: if_splits)

lemma templates:
  "template ''/api/incidents/{workflow_id}/summarize'' = [Lit [], Lit ''api'', Lit ''incidents'', Param ''workflow_id'', Lit ''summarize'']"
  "template ''/api/events/recent'' = [Lit [], Lit ''api'', Lit ''events'', Lit ''recent'']"
  "template ''/api/events/{event_id}'' = [Lit [], Lit ''api'', Lit ''events'', Param ''event_id'']"
  by code_simp+

lemma key_refusal:
  "require_api_key H S k = Inl x \<Longrightarrow> \<exists>code detail. x = HTTPException code detail \<and> code \<in> {401, 403, 500}"
  by (auto simp: require_api_key_def Let_def split: if_splits option.splits)

lemma routed_refuses:
  assumes "require_api_key (fw_hash F) S (header_of rq ''x-api-key'') = Inl x"
    and "rq_method rq \<noteq> ''GET''" and "rq_method rq \<noteq> ''HEAD''"
    and "match_segments (template ''/api/incidents/{workflow_id}/summarize'') (py_split (CHR ''/'') (rq_path rq)) = None"
  shows "\<exists>rs. routed F S rid endpoint rq st = (Inr rs, st) \<and> hr_status rs \<in> {307, 401, 403, 404, 405, 422, 500}"
proof (cases "resolve (app_routes S) (rq_method rq) (rq_path rq)")
  case (Found rt ps)
  from resolve_found [OF this] assms(2-4) have key: "rt_key rt"
    by (metis open_write_route option.distinct(1))
  obtain code detail where "x = HTTPException code detail" "code \<in> {401, 403, 500}" using key_refusal [OF assms(1)] by blast
  with Found key assms(1) show ?thesis
    by (auto simp: routed_def run_route_def handled_def json_response_def validation_handler_def
        http_exception_handler_def split: option.splits)
qed (simp_all add: routed_def json_response_def http_exception_handler_def)

text \<open>The middleware touches the application's state only through the application.\<close>

lemma stack_keeps_state:
  assumes "\<And>st. snd (snd (h rq st)) = snd st"
    and "\<And>next q st. snd (cors next q st) = st \<or> snd (cors next q st) = snd (next q st)"
  shows "snd (snd (app_stack R S now fresh_rid duration cors h rq (r, s))) = s"
proof -
  let ?h1 = "security_headers_dispatch S h"
  let ?h2 = "rate_limit_dispatch R \<lparr>rl_write = rate_limit_write_per_min S, rl_read = rate_limit_read_per_min S, rl_window = 60\<rparr> now ?h1"
  let ?h3 = "max_body_dispatch (max_request_body_bytes S) ?h2"
  have h1: "snd (snd (?h1 rq st)) = snd st" for st
    using assms(1) [of st] by (auto simp: security_headers_dispatch_def Let_def split: prod.splits sum.splits)
  have h2: "snd (snd (?h2 rq st)) = snd st" for st
    using h1 [of st] h1 [of "(snd (rate_pipeline R (rate_key rq) 60 now (fst st)), snd st)"]
    by (auto simp: rate_limit_dispatch_def Let_def split: prod.splits sum.splits)
  have h3: "snd (snd (?h3 rq st)) = snd st" for st
    using h2 [of st] by (auto simp: max_body_dispatch_def split: option.splits sum.splits)
  have "snd (snd (cors ?h3 rq (r, s))) = s" using assms(2) [of ?h3 rq "(r, s)"] h3 [of "(r, s)"] by auto
  then show ?thesis by (auto simp: app_stack_def request_logging_def Let_def split: prod.splits)
qed

text \<open>C24. A write without a valid key reaches no endpoint: for every request with a method other than GET and
  HEAD that the key check refuses, whatever its path, headers and body and whatever the
  endpoints do, the routed application answers with a redirection or an error and leaves its state as it was,
  and so does the whole stack of middleware. The one exception is the path of the summarize endpoint.\<close>

theorem writes_need_key:
  assumes "require_api_key (fw_hash F) S (header_of rq ''x-api-key'') = Inl x"
    and "rq_method rq \<notin> {''GET'', ''HEAD''}"
    and "match_segments (template ''/api/incidents/{workflow_id}/summarize'') (py_split (CHR ''/'') (rq_path rq)) = None"
    and "\<And>next q st. snd (cors next q st) = st \<or> snd (cors next q st) = snd (next q st)"
  shows "(\<exists>rs. routed F S rid endpoint rq st = (Inr rs, st) \<and> hr_status rs \<in> {307, 401, 403, 404, 405, 422, 500})
    \<and> snd (snd (app_stack R S now fresh_rid duration cors (routed F S rid endpoint) rq (r, s))) = s"
proof -
  from assms(2) have m: "rq_method rq \<noteq> ''GET''" "rq_method rq \<noteq> ''HEAD''" by simp_all
  note ref = routed_refuses [OF assms(1) m assms(3)]
  then have "snd (snd (routed F S rid endpoint rq st)) = snd st" for st
    using ref [of rid endpoint st] by auto
  then have "snd (snd (app_stack R S now fresh_rid duration cors (routed F S rid endpoint) rq (r, s))) = s"
    using assms(4) by (rule stack_keeps_state)
  with ref show ?thesis by blast
qed

section \<open>No route hides another\<close>

fun apart :: "segment list \<Rightarrow> segment list \<Rightarrow> bool" where
  "apart [] [] = False"
| "apart (Lit a # ts) (Lit b # us) = (a \<noteq> b \<or> apart ts us)"
| "apart (_ # ts) (_ # us) = apart ts us"
| "apart _ _ = True"

lemma match_tail: "match_segments ts ss = None \<Longrightarrow> match_segments (t # ts) (s # ss) = None"
  by (cases t) simp_all

lemma apart_no_match: "apart ts us \<Longrightarrow> match_segments ts (map (fill f) us) = None"
  by (induction ts us rule: apart.induct) (auto simp: match_tail)

lemma match_filled: "(\<And>n. f n \<noteq> []) \<Longrightarrow> match_segments us (map (fill f) us) = Some (params_of f us)"
  by (induction f us rule: params_of.induct) simp_all

definition not_hiding :: "route \<Rightarrow> route \<Rightarrow> bool" where
  "not_hiding r r' \<longleftrightarrow> apart (template (rt_path r)) (template (rt_path r'))
     \<or> list_all (\<lambda>m. m \<notin> set (rt_methods r)) (rt_methods r')
     \<or> rt_path r = ''/api/events/recent'' \<and> rt_path r' = ''/api/events/{event_id}''"

lemma routes_ordered: "sorted_wrt not_hiding (app_routes S)"
proof -
  let ?docs = "[page_route ''/docs'' ''swagger_ui_html'', page_route ''/docs/oauth2-redirect'' ''swagger_ui_redirect'',
              page_route ''/redoc'' ''redoc_html'']"
  let ?rest = "health_router @ events_router @ demo_router @ workflows_router @ workers_router
     @ convergence_router @ metrics_router @ deadletters_router @ incidents_router @ insights_router @ ai_router"
  have "sorted_wrt not_hiding (page_route ''/openapi.json'' ''openapi'' # ?docs @ ?rest)" by code_simp
  then show ?thesis by (auto simp: app_routes_def builtin_routes_def sorted_wrt_append)
qed

lemma first_route_skip:
  "\<forall>r \<in> set pre. m \<notin> set (rt_methods r) \<or> match_segments (template (rt_path r)) segs = None \<Longrightarrow>
    first_route m segs (pre @ rts) = first_route m segs rts"
  by (induction pre) (auto split: option.splits)

lemma resolve_own_path:
  assumes "rt \<in> set (app_routes S)" and "m \<in> set (rt_methods rt)"
    and "\<And>n. f n \<noteq> []" and "\<And>n. CHR ''/'' \<notin> set (f n)"
    and "rt_path rt = ''/api/events/{event_id}'' \<Longrightarrow> f ''event_id'' \<noteq> ''recent''"
  shows "resolve (app_routes S) m (path_of f rt) = Found rt (params_of f (template (rt_path rt)))"
proof -
  let ?segs = "map (fill f) (template (rt_path rt))"
  obtain pre post where split: "app_routes S = pre @ rt # post" using assms(1) by (meson split_list)
  have "m \<notin> set (rt_methods r) \<or> match_segments (template (rt_path r)) ?segs = None" if "r \<in> set pre" for r
  proof -
    have "not_hiding r rt" using routes_ordered [of S] that by (simp add: split sorted_wrt_append)
    then show ?thesis
      using assms(2,5) by (auto simp: not_hiding_def list_all_iff templates apart_no_match)
  qed
  then have "first_route m ?segs (app_routes S) = Some (rt, params_of f (template (rt_path rt)))"
    using assms(2,3) by (simp add: split first_route_skip match_filled)
  then show ?thesis by (simp add: resolve_def split_path_of [OF assms(4)])
qed

text \<open>C25. No route hides another: a path made from any registered route, with any non-empty values
  without a slash for its parameters, is resolved to that route with those values, for each of its
  methods, except that the id \<^verbatim>\<open>recent\<close> does not reach the lookup of an event.\<close>

theorem routes_not_shadowed:
  assumes "rt \<in> set (app_routes S)" and "m \<in> set (rt_methods rt)"
    and "\<And>n. f n \<noteq> []" and "\<And>n. CHR ''/'' \<notin> set (f n)" and "f ''event_id'' \<noteq> ''recent''"
  shows "resolve (app_routes S) m (path_of f rt) = Found rt (params_of f (template (rt_path rt)))"
  using assms by (intro resolve_own_path)

text \<open>The exception is real: a request for a summary runs its endpoint without any key, in production too.\<close>

lemma summarize_needs_no_key:
  assumes "w \<noteq> []" and "CHR ''/'' \<notin> set w"
    and "rq_method rq = ''POST''" and "rq_path rq = ''/api/incidents/'' @ w @ ''/summarize''"
  shows "routed F S rid endpoint rq st =
    handled (fw_render F) rid (endpoint ''summarize_incident'' [(''workflow_id'', w)] rq st)"
proof -
  let ?rt = "post_route ''/api/incidents/{workflow_id}/summarize'' ''summarize_incident'' False False"
  have "?rt \<in> set (app_routes S)" by (simp add: app_routes_def incidents_router_def)
  then have "resolve (app_routes S) ''POST'' (path_of (\<lambda>_. w) ?rt) = Found ?rt (params_of (\<lambda>_. w) (template (rt_path ?rt)))"
    using assms(1,2) by (intro resolve_own_path) (auto simp: post_route_def)
  then have "resolve (app_routes S) (rq_method rq) (rq_path rq) = Found ?rt [(''workflow_id'', w)]"
    using assms(3,4) by (simp add: path_of_def post_route_def templates)
  then show ?thesis by (simp add: routed_def run_route_def post_route_def)
qed

section \<open>Witnesses\<close>

definition ex_framework :: framework where
  "ex_framework = \<lparr>fw_hash = id, fw_render = (\<lambda>_. []), fw_body_error = (\<lambda>_. None), fw_url = id\<rparr>"

definition ex_production :: settings where
  "ex_production = (default_settings None ''h'')\<lparr>environment := ''production'', api_keys := ''k1''\<rparr>"

definition ex_write :: http_request where
  "ex_write = \<lparr>rq_method = ''POST'', rq_path = ''/api/events'', rq_headers = [], rq_client = None\<rparr>"

text \<open>Every endpoint would change the state.\<close>

theorem writes_need_key_witness:
  "snd (snd (app_stack mem_api ex_production 0 ''rid'' 0 id
    (routed ex_framework ex_production ''rid'' (\<lambda>name ps rq (r, n). (Inl IntegrityError, r, Suc n))) ex_write (mem_init, 0))) = 0"
proof -
  have "require_api_key (fw_hash ex_framework) ex_production (header_of ex_write ''x-api-key'')
      = Inl (HTTPException 401 ''missing X-API-Key header'')" by code_simp
  moreover have "rq_method ex_write \<notin> {''GET'', ''HEAD''}" by (simp add: ex_write_def)
  moreover have "match_segments (template ''/api/incidents/{workflow_id}/summarize'') (py_split (CHR ''/'') (rq_path ex_write)) = None"
    by code_simp
  ultimately show ?thesis by (rule writes_need_key [THEN conjunct2]) simp
qed

theorem routes_not_shadowed_witness:
  "resolve (app_routes ex_production) ''GET'' (path_of (\<lambda>_. ''42'') (get_route ''/api/events/{event_id}'' ''get_event''))
    = Found (get_route ''/api/events/{event_id}'' ''get_event'') [(''event_id'', ''42'')]"
proof -
  let ?rt = "get_route ''/api/events/{event_id}'' ''get_event''"
  have "?rt \<in> set (app_routes ex_production)" by (simp add: app_routes_def events_router_def)
  from routes_not_shadowed [OF this, of "''GET''" "\<lambda>_. ''42''"] show ?thesis by (simp add: get_route_def templates)
qed

end
