(* ===== verification/DemoEndpoint.thy ===== *)
theory DemoEndpoint
  imports CheckoutSimulator Security
begin

text \<open>
  The endpoint of \<^verbatim>\<open>api/app/api/events.py\<close> that generates a demo workload, with its key check and
  the bounds of its query parameter, composed with the submission endpoint it calls over HTTP. The
  handler behind the key check, the random workflow ids and the hash function are arguments.
\<close>

text \<open>A dependency that raises is answered with its status code, and the handler does not run.\<close>

definition guarded_post ::
  "(string \<Rightarrow> string) \<Rightarrow> settings \<Rightarrow> string option \<Rightarrow> (event_create \<Rightarrow> 'h \<Rightarrow> (exn + int) \<times> 'h)
    \<Rightarrow> event_create \<Rightarrow> 'h \<Rightarrow> (exn + int) \<times> 'h" where
  "guarded_post hash S x_api_key handler ev h = (case require_api_key hash S x_api_key of
     Inl (HTTPException code _) \<Rightarrow> (Inr code, h)
   | Inl _ \<Rightarrow> (Inr 500, h)
   | Inr _ \<Rightarrow> handler ev h)"

definition generate_workload_endpoint ::
  "(string \<Rightarrow> string) \<Rightarrow> settings \<Rightarrow> string option \<Rightarrow> int \<Rightarrow> (event_create \<Rightarrow> 'h \<Rightarrow> (exn + int) \<times> 'h)
    \<Rightarrow> (nat \<Rightarrow> string) \<Rightarrow> 'h \<Rightarrow> (exn + workload_results) \<times> 'h" where
  "generate_workload_endpoint hash S x_api_key count post hex h = (case require_api_key hash S x_api_key of
     Inl x \<Rightarrow> (Inl x, h)
   | Inr _ \<Rightarrow>
       if count < 1 \<or> 500 < count then (Inl (HTTPException 422 ''validation_error''), h)
       else (case generate_workload post (map hex [0..<nat count]) h of (res, h') \<Rightarrow> (Inr res, h')))"

lemma send_event_refused:
  assumes "\<And>ev h. post ev h = (Inr code, h)" and "code \<noteq> 200" and "code \<noteq> 201"
  shows "send_event post ev (res, h) = (res\<lparr>wr_errors := wr_errors res + 1\<rparr>, h)"
  using assms by (simp add: send_event_def)

lemma fold_send_refused:
  assumes "\<And>ev h. post ev h = (Inr code, h)" and "code \<noteq> 200" and "code \<noteq> 201"
  shows "fold (send_event post) evs (res, h) = (res\<lparr>wr_errors := wr_errors res + length evs\<rparr>, h)"
  by (induction evs arbitrary: res) (simp_all add: send_event_refused [OF assms])

lemma send_workflows_refused:
  assumes "\<And>ev h. post ev h = (Inr code, h)" and "code \<noteq> 200" and "code \<noteq> 201"
  shows "send_workflows post hexes (res, h) = (res\<lparr>wr_errors := wr_errors res + 5 * length hexes\<rparr>, h)"
  by (induction hexes arbitrary: res) (simp_all add: fold_send_refused [OF assms] simulate_length)

text \<open>In production the demo endpoint never submits anything: it posts to the submission endpoint without a key, so with a
  valid key of its own and any count it accepts, every one of the five events per workflow is
  refused, the handler never runs, and the answer is still a success that counts them as errors.\<close>

theorem demo_workload_refused_in_production:
  assumes "is_production S" and "api_keys_set S" and "require_api_key hash S x_api_key = Inr ()"
    and "1 \<le> count" and "count \<le> 500"
  shows "generate_workload_endpoint hash S x_api_key count (guarded_post hash S None handler) hex h
    = (Inr \<lparr>wr_workflows = nat count, wr_events_sent = 0, wr_errors = 5 * nat count\<rparr>, h)"
proof -
  have "guarded_post hash S None handler ev h = (Inr 401, h)" for ev h
    using assms(1,2) by (simp add: guarded_post_def require_api_key_def)
  from send_workflows_refused [OF this] assms(3-5) show ?thesis
    by (simp add: generate_workload_endpoint_def generate_workload_def)
qed

theorem demo_workload_refused_in_production_witness:
  "generate_workload_endpoint id ((default_settings None ''h'')\<lparr>environment := ''production'', api_keys := ''k1''\<rparr>) (Some ''k1'') 2
     (guarded_post id ((default_settings None ''h'')\<lparr>environment := ''production'', api_keys := ''k1''\<rparr>) None (\<lambda>_ n. (Inr 201, Suc n)))
     show_nat 0 = (Inr \<lparr>wr_workflows = 2, wr_events_sent = 0, wr_errors = 10\<rparr>, 0)"
proof -
  let ?S = "(default_settings None ''h'')\<lparr>environment := ''production'', api_keys := ''k1''\<rparr>"
  have "is_production ?S" "api_keys_set ?S" "require_api_key id ?S (Some ''k1'') = Inr ()" by code_simp+
  from demo_workload_refused_in_production [OF this, of 2] show ?thesis by simp
qed

end
