(* ===== verification/Harness.thy ===== *)
theory Harness
  imports EventBackends
begin

text \<open>
  \<^verbatim>\<open>scripts/replay_harness.py\<close>: the client side of the benchmarks. Everything outside the
  script is an argument: what \<^verbatim>\<open>docker compose\<close> prints, the reply of each request, the clock.
  Requests of one \<^verbatim>\<open>gather\<close> run concurrently, so their replies are given one by one; a
  polling loop is given one \<open>poll_round\<close> per turn it takes before its deadline, with the order in
  which the Python set of pending ids is listed in that turn.
\<close>

section \<open>Docker\<close>

definition is_line_break :: "char \<Rightarrow> bool" where
  "is_line_break c = (let n = (of_char c :: nat) in n \<in> {10, 11, 12, 13, 28, 29, 30, 133})"

fun split_lines :: "string \<Rightarrow> string list" where
  "split_lines [] = [[]]"
| "split_lines (c # cs) =
     (if is_line_break c then [] # split_lines cs
      else (case split_lines cs of [] \<Rightarrow> [[c]] | l # ls \<Rightarrow> (c # l) # ls))"

type_synonym 'p compose = "string list \<Rightarrow> 'p \<Rightarrow> (exn + string) \<times> 'p"

definition compose_service_ids :: "'p compose \<Rightarrow> string \<Rightarrow> 'p \<Rightarrow> (exn + string list) \<times> 'p" where
  "compose_service_ids compose service p =
     (case compose [''ps'', ''-q'', service] p of
        (Inl x, p') \<Rightarrow> (Inl x, p')
      | (Inr out, p') \<Rightarrow> (Inr (filter (\<lambda>l. l \<noteq> []) (map py_strip (split_lines out))), p'))"

definition restart_go_workers :: "'p compose \<Rightarrow> int option \<Rightarrow> 'p \<Rightarrow> (exn + string) \<times> 'p" where
  "restart_go_workers compose scale p =
     compose ([''up'', ''-d''] @ (case scale of Some n \<Rightarrow> [''--scale'', ''go-worker='' @ show_int n] | None \<Rightarrow> [''--build''])
       @ [''go-worker'']) p"

definition restart_control_plane :: "'p compose \<Rightarrow> 'p \<Rightarrow> (exn + string) \<times> 'p" where
  "restart_control_plane compose p = compose [''up'', ''-d'', ''--build'', ''control-plane''] p"

text \<open>How the benchmark and the chaos run bring up the stack.\<close>

definition restart_stack :: "'p compose \<Rightarrow> bool \<Rightarrow> int \<Rightarrow> 'p \<Rightarrow> (exn + string) \<times> 'p" where
  "restart_stack compose reset n p =
     (if reset then
        (case restart_control_plane compose p of
           (Inl x, p1) \<Rightarrow> (Inl x, p1)
         | (Inr _, p1) \<Rightarrow> restart_go_workers compose (Some n) p1)
      else restart_go_workers compose (Some n) p)"

definition stop_one_go_worker :: "'p compose \<Rightarrow> (string \<Rightarrow> 'p \<Rightarrow> (exn + unit) \<times> 'p) \<Rightarrow> 'p \<Rightarrow> (exn + string option) \<times> 'p" where
  "stop_one_go_worker compose docker_stop p =
     (case compose_service_ids compose ''go-worker'' p of
        (Inl x, p1) \<Rightarrow> (Inl x, p1)
      | (Inr [], p1) \<Rightarrow> (Inr None, p1)
      | (Inr (worker_id # _), p1) \<Rightarrow>
          (case docker_stop worker_id p1 of
             (Inl x, p2) \<Rightarrow> (Inl x, p2)
           | (Inr _, p2) \<Rightarrow> (Inr (Some worker_id), p2)))"

definition start_one_go_worker :: "'p compose \<Rightarrow> 'p \<Rightarrow> (exn + string) \<times> 'p" where
  "start_one_go_worker compose p = compose [''up'', ''-d'', ''go-worker''] p"

section \<open>Submission\<close>

record submitted_event =
  se_event_id :: string
  se_duplicate :: bool
  se_submitted_at :: rat
  se_status_code :: int
  se_error :: "string option"

definition build_headers :: "string \<Rightarrow> (string \<times> string) list" where
  "build_headers api_key = (''Content-Type'', ''application/json'')
     # (if api_key \<noteq> [] then [(''X-API-Key'', api_key)] else [])"

text \<open>The reply to a post: the exception, or status, whether it is declared JSON, and the decoded body.\<close>

type_synonym post_reply = "exn + int \<times> bool \<times> json option"

fun type_name :: "json \<Rightarrow> string" where
  "type_name JNull = ''NoneType''"
| "type_name (JBool _) = ''bool''"
| "type_name (JInt _) = ''int''"
| "type_name (JFloat _) = ''float''"
| "type_name (JStr _) = ''str''"
| "type_name (JList _) = ''list''"
| "type_name (JObj _) = ''dict''"

definition no_get :: "json \<Rightarrow> exn" where
  "no_get v = AttributeError ([CHR 0x27] @ type_name v @ [CHR 0x27] @ '' object has no attribute '' @ [CHR 0x27] @ ''get'' @ [CHR 0x27])"

definition failed_submission :: "rat \<Rightarrow> exn \<Rightarrow> submitted_event" where
  "failed_submission t0 exc = \<lparr>se_event_id = [], se_duplicate = False, se_submitted_at = t0,
     se_status_code = 0, se_error = Some (exn_str exc)\<rparr>"

text \<open>\<open>py_str\<close> is \<^verbatim>\<open>str\<close> of a decoded value that is not a string.\<close>

definition submit_one :: "(json \<Rightarrow> string) \<Rightarrow> rat \<Rightarrow> post_reply \<Rightarrow> submitted_event" where
  "submit_one py_str t0 reply = (case reply of
     Inl exc \<Rightarrow> failed_submission t0 exc
   | Inr (code, is_json, body) \<Rightarrow>
       (case (if is_json then (case body of None \<Rightarrow> Inl (ValueError ''response is not JSON'') | Some j \<Rightarrow> Inr j) else Inr (JObj [])) of
          Inl exc \<Rightarrow> failed_submission t0 exc
        | Inr (JObj kvs) \<Rightarrow> \<lparr>
            se_event_id = (case map_of kvs ''id'' of None \<Rightarrow> [] | Some (JStr i) \<Rightarrow> i | Some v \<Rightarrow> py_str v),
            se_duplicate = truthy (dict_get kvs ''duplicate''), se_submitted_at = t0,
            se_status_code = code, se_error = None\<rparr>
        | Inr v \<Rightarrow> failed_submission t0 (no_get v)))"

definition submit_events :: "(json \<Rightarrow> string) \<Rightarrow> (rat \<times> post_reply) list \<Rightarrow> submitted_event list" where
  "submit_events py_str replies = map (\<lambda>(t0, reply). submit_one py_str t0 reply) replies"

section \<open>Polling\<close>

text \<open>The reply to a get: the exception, or status and decoded body.\<close>

type_synonym get_reply = "exn + http_reply"

fun wait_for_ready :: "string \<Rightarrow> get_reply list \<Rightarrow> exn + json" where
  "wait_for_ready base_url [] = Inl (TimeoutError (''backend not ready at '' @ base_url))"
| "wait_for_ready base_url (reply # replies) =
     (case reply of
        Inr (code, Some body) \<Rightarrow> if code = 200 then Inr body else wait_for_ready base_url replies
      | _ \<Rightarrow> wait_for_ready base_url replies)"

record terminal_event =
  tm_event_id :: string
  tm_status :: string
  tm_e2e_ms :: rat

definition terminal_set :: "string list" where
  "terminal_set = [''succeeded'', ''failed'', ''dead_lettered'', ''cancelled'']"

definition terminal_reply :: "get_reply \<Rightarrow> string option" where
  "terminal_reply reply = (case reply of
     Inr (code, Some (JObj kvs)) \<Rightarrow>
       if code = 200 then (case map_of kvs ''status'' of
         Some (JStr st) \<Rightarrow> if st \<in> set terminal_set then Some st else None
       | _ \<Rightarrow> None) else None
   | _ \<Rightarrow> None)"

definition e2e_ms :: "rat \<Rightarrow> rat \<Rightarrow> rat" where
  "e2e_ms now t0 = fl (fl (now - t0) * 1000)"

record poll_round =
  pr_order :: "string list \<Rightarrow> string list"
  pr_reply :: "string \<Rightarrow> get_reply"
  pr_clock :: "string \<Rightarrow> rat"

text \<open>An id is discarded before its latency is computed: when the start time is missing, the
  exception is swallowed and the event drops out.\<close>

definition poll_one ::
  "(string \<rightharpoonup> rat) \<Rightarrow> poll_round \<Rightarrow> string \<Rightarrow> string list \<times> terminal_event list \<Rightarrow> string list \<times> terminal_event list" where
  "poll_one submitted_at rd i st = (case st of (pending, results) \<Rightarrow>
     (case terminal_reply (pr_reply rd i) of
        None \<Rightarrow> (pending, results)
      | Some status \<Rightarrow>
          (filter (\<lambda>j. j \<noteq> i) pending,
           case submitted_at i of
             None \<Rightarrow> results
           | Some t0 \<Rightarrow> results @ [\<lparr>tm_event_id = i, tm_status = status, tm_e2e_ms = e2e_ms (pr_clock rd i) t0\<rparr>])))"

fun poll_rounds ::
  "(string \<rightharpoonup> rat) \<Rightarrow> poll_round list \<Rightarrow> string list \<times> terminal_event list \<Rightarrow> string list \<times> terminal_event list" where
  "poll_rounds submitted_at [] st = st"
| "poll_rounds submitted_at (rd # rds) st =
     (if fst st = [] then st
      else poll_rounds submitted_at rds (fold (poll_one submitted_at rd) (take 50 (pr_order rd (fst st))) st))"

fun time_out :: "(string \<rightharpoonup> rat) \<Rightarrow> (string \<Rightarrow> rat) \<Rightarrow> string list \<Rightarrow> terminal_event list \<Rightarrow> exn + terminal_event list" where
  "time_out submitted_at clock [] results = Inr results"
| "time_out submitted_at clock (i # pending) results =
     (case submitted_at i of
        None \<Rightarrow> Inl (KeyError i)
      | Some t0 \<Rightarrow> time_out submitted_at clock pending
          (results @ [\<lparr>tm_event_id = i, tm_status = ''timeout'', tm_e2e_ms = e2e_ms (clock i) t0\<rparr>]))"

definition wait_for_terminal_events ::
  "string list \<Rightarrow> (string \<rightharpoonup> rat) \<Rightarrow> poll_round list \<Rightarrow> (string \<Rightarrow> rat) \<Rightarrow> exn + terminal_event list" where
  "wait_for_terminal_events event_ids submitted_at rounds clock =
     (case poll_rounds submitted_at rounds (remdups event_ids, []) of
        (pending, results) \<Rightarrow> time_out submitted_at clock pending results)"

definition fetch_json :: "get_reply \<Rightarrow> exn + json" where
  "fetch_json reply = (case reply of Inl x \<Rightarrow> Inl x | Inr rep \<Rightarrow> checked_json rep)"

fun convergence_rounds :: "string \<Rightarrow> json option \<Rightarrow> get_reply list \<Rightarrow> exn + json" where
  "convergence_rounds base_url None [] = Inl (TimeoutError (''no convergence data returned by '' @ base_url))"
| "convergence_rounds base_url (Some j) [] = Inr j"
| "convergence_rounds base_url latest (reply # replies) =
     (case fetch_json reply of
        Inl _ \<Rightarrow> convergence_rounds base_url latest replies
      | Inr (JObj kvs) \<Rightarrow> if truthy (dict_get kvs ''converged'') then Inr (JObj kvs)
                           else convergence_rounds base_url (Some (JObj kvs)) replies
      | Inr j \<Rightarrow> convergence_rounds base_url (Some j) replies)"

definition wait_for_convergence :: "string \<Rightarrow> get_reply list \<Rightarrow> exn + json" where
  "wait_for_convergence base_url replies = convergence_rounds base_url None replies"

section \<open>Every id gets one verdict\<close>

text \<open>A listing of the pending set: every element once.\<close>

definition lists_set :: "poll_round \<Rightarrow> bool" where
  "lists_set rd \<longleftrightarrow> (\<forall>ps. distinct ps \<longrightarrow> distinct (pr_order rd ps) \<and> set (pr_order rd ps) = set ps)"

definition polling :: "string set \<Rightarrow> poll_round set \<Rightarrow> string list \<times> terminal_event list \<Rightarrow> bool" where
  "polling I rds st \<longleftrightarrow> (case st of (pending, results) \<Rightarrow>
     distinct (pending @ map tm_event_id results) \<and> set pending \<union> tm_event_id ` set results = I
     \<and> (\<forall>v \<in> set results. \<exists>rd \<in> rds. terminal_reply (pr_reply rd (tm_event_id v)) = Some (tm_status v)))"

lemma polling_one:
  assumes "polling I rds st" and "i \<in> set (fst st)" and "I \<subseteq> dom submitted_at" and "rd \<in> rds"
  shows "polling I rds (poll_one submitted_at rd i st)"
    and "set (fst (poll_one submitted_at rd i st)) \<supseteq> set (fst st) - {i}"
proof -
  obtain pending results where st: "st = (pending, results)" by (cases st)
  have "i \<in> I" using assms(1,2) by (auto simp: polling_def st)
  then obtain t0 where "submitted_at i = Some t0" using assms(3) by blast
  then show "polling I rds (poll_one submitted_at rd i st)"
    using assms by (auto simp: polling_def poll_one_def st split: option.splits)
  show "set (fst (poll_one submitted_at rd i st)) \<supseteq> set (fst st) - {i}"
    by (auto simp: poll_one_def st split: option.splits)
qed

lemma polling_batch:
  "polling I rds st \<Longrightarrow> distinct batch \<Longrightarrow> set batch \<subseteq> set (fst st) \<Longrightarrow> I \<subseteq> dom submitted_at \<Longrightarrow> rd \<in> rds \<Longrightarrow>
    polling I rds (fold (poll_one submitted_at rd) batch st)"
proof (induction batch arbitrary: st)
  case (Cons i batch)
  note one = polling_one [OF Cons.prems(1) _ Cons.prems(4,5), of i]
  have "i \<in> set (fst st)" "set batch \<subseteq> set (fst (poll_one submitted_at rd i st))"
    using Cons.prems(2,3) one(2) by auto
  then show ?case using Cons.IH [OF one(1)] Cons.prems(2,4,5) by simp
qed simp

lemma polling_rounds:
  "polling I rds st \<Longrightarrow> \<forall>rd \<in> set rounds. lists_set rd \<Longrightarrow> I \<subseteq> dom submitted_at \<Longrightarrow> set rounds \<subseteq> rds \<Longrightarrow>
    polling I rds (poll_rounds submitted_at rounds st)"
proof (induction rounds arbitrary: st)
  case (Cons rd rounds)
  have d: "distinct (fst st)" using Cons.prems(1) by (auto simp: polling_def split: prod.splits)
  then have "distinct (pr_order rd (fst st))" "set (pr_order rd (fst st)) = set (fst st)"
    using Cons.prems(2) by (simp_all add: lists_set_def)
  then have "distinct (take 50 (pr_order rd (fst st)))" "set (take 50 (pr_order rd (fst st))) \<subseteq> set (fst st)"
    using set_take_subset by fastforce+
  from polling_batch [OF Cons.prems(1) this Cons.prems(3)] Cons.prems show ?case
    using Cons.IH by simp
qed simp

lemma time_out_all:
  "set pending \<subseteq> dom submitted_at \<Longrightarrow> \<exists>late. time_out submitted_at clock pending results = Inr (results @ late)
     \<and> map tm_event_id late = pending \<and> (\<forall>v \<in> set late. tm_status v = ''timeout'')"
proof (induction pending arbitrary: results)
  case (Cons i pending)
  then obtain t0 where t0: "submitted_at i = Some t0" by auto
  let ?v = "\<lparr>tm_event_id = i, tm_status = ''timeout'', tm_e2e_ms = e2e_ms (clock i) t0\<rparr>"
  from Cons.IH [of "results @ [?v]"] Cons.prems obtain late where
    "time_out submitted_at clock pending (results @ [?v]) = Inr (results @ ?v # late)" "map tm_event_id late = pending"
    "\<forall>v \<in> set late. tm_status v = ''timeout''" by auto
  then show ?case using t0 by (intro exI [of _ "?v # late"]) simp
qed simp

lemma one_verdict:
  assumes "set event_ids \<subseteq> dom submitted_at" and "\<forall>rd \<in> set rounds. lists_set rd"
  shows "\<exists>res. wait_for_terminal_events event_ids submitted_at rounds clock = Inr res
    \<and> distinct (map tm_event_id res) \<and> tm_event_id ` set res = set event_ids
    \<and> (\<forall>v \<in> set res. tm_status v = ''timeout''
        \<or> (\<exists>rd \<in> set rounds. terminal_reply (pr_reply rd (tm_event_id v)) = Some (tm_status v)))"
proof -
  obtain pending results where pr: "poll_rounds submitted_at rounds (remdups event_ids, []) = (pending, results)" by force
  have "polling (set event_ids) (set rounds) (remdups event_ids, [])" by (simp add: polling_def)
  from polling_rounds [OF this assms(2,1) subset_refl] have p: "polling (set event_ids) (set rounds) (pending, results)"
    unfolding pr .
  then have "set pending \<subseteq> dom submitted_at" using assms(1) by (auto simp: polling_def)
  from time_out_all [OF this, of clock results] obtain late where
    l: "time_out submitted_at clock pending results = Inr (results @ late)" "map tm_event_id late = pending"
      "\<forall>v \<in> set late. tm_status v = ''timeout''" by blast
  have "tm_event_id ` set late = set pending" using l(2) by (metis set_map)
  with p have "tm_event_id ` set (results @ late) = set event_ids" "distinct (map tm_event_id (results @ late))"
    using l(2) by (auto simp: polling_def image_Un)
  moreover have "\<forall>v \<in> set (results @ late). tm_status v = ''timeout''
      \<or> (\<exists>rd \<in> set rounds. terminal_reply (pr_reply rd (tm_event_id v)) = Some (tm_status v))"
    using p l(3) by (auto simp: polling_def)
  moreover have "wait_for_terminal_events event_ids submitted_at rounds clock = Inr (results @ late)"
    by (simp add: wait_for_terminal_events_def pr l(1))
  ultimately show ?thesis by blast
qed

section \<open>Properties\<close>

text \<open>C40. The polling loop accounts for every event: whatever the server answers and however many turns it
  gets before the deadline, it returns exactly one verdict per submitted id, and each verdict
  is a terminal status the server reported for that id in some turn, or a timeout.\<close>

theorem polling_gives_one_verdict:
  assumes "set event_ids \<subseteq> dom submitted_at" and "\<forall>rd \<in> set rounds. lists_set rd"
  shows "\<exists>res. wait_for_terminal_events event_ids submitted_at rounds clock = Inr res
    \<and> distinct (map tm_event_id res) \<and> tm_event_id ` set res = set event_ids
    \<and> (\<forall>v \<in> set res. tm_status v = ''timeout''
        \<or> (\<exists>rd \<in> set rounds. terminal_reply (pr_reply rd (tm_event_id v)) = Some (tm_status v)))"
  by (rule one_verdict [OF assms])

section \<open>Witness\<close>

definition ex_round :: poll_round where
  "ex_round = \<lparr>pr_order = (\<lambda>ps. ps), pr_reply = (\<lambda>i. if i = ''e1'' then Inr (200, Some (JObj [(''status'', JStr ''succeeded'')]))
     else Inl (HttpError ''refused'')), pr_clock = (\<lambda>_. 5)\<rparr>"

theorem polling_gives_one_verdict_witness:
  "\<exists>res. wait_for_terminal_events [''e1'', ''e2''] [''e1'' \<mapsto> 1, ''e2'' \<mapsto> 2] [ex_round, ex_round] (\<lambda>_. 9) = Inr res
    \<and> tm_event_id ` set res = {''e1'', ''e2''}"
proof -
  have "\<forall>rd \<in> set [ex_round, ex_round]. lists_set rd" by (simp add: lists_set_def ex_round_def)
  from polling_gives_one_verdict [OF _ this, of "[''e1'', ''e2'']" "[''e1'' \<mapsto> 1, ''e2'' \<mapsto> 2]" "\<lambda>_. 9"]
  show ?thesis by auto
qed

end
