(* ===== verification/RecoveryAgent.thy ===== *)
theory RecoveryAgent
  imports Harness
begin

text \<open>
  \<^verbatim>\<open>scripts/incident_recovery_agent.py\<close>: the review of a benchmark artifact, a decoded JSON
  object. A value that is not a number makes \<^verbatim>\<open>int\<close> raise, so every step may fail. Arguments are
  the run id, the readings of \<^verbatim>\<open>time.perf_counter()\<close> around each step, and \<open>py_str\<close>, which is
  \<^verbatim>\<open>str\<close> of a decoded value.
\<close>

definition int_of_json :: "json \<Rightarrow> exn + int" where
  "int_of_json v = (case v of
     JInt n \<Rightarrow> Inr n
   | JBool b \<Rightarrow> Inr (if b then 1 else 0)
   | JFloat q \<Rightarrow> Inr (py_int q)
   | JStr s \<Rightarrow> py_int_str s
   | _ \<Rightarrow> Inl (TypeError (''int() argument must be a string, a bytes-like object or a real number, not ''
            @ [CHR 0x27] @ type_name v @ [CHR 0x27])))"

text \<open>\<^verbatim>\<open>int(artifact.get(k) or 0)\<close>\<close>

definition int_field :: "dict \<Rightarrow> string \<Rightarrow> exn + int" where
  "int_field artifact k = (let v = dict_get artifact k in if truthy v then int_of_json v else Inr 0)"

definition measured :: "dict \<Rightarrow> bool" where
  "measured artifact \<longleftrightarrow> dict_get artifact ''status'' = JStr ''measured''"

definition summarize_artifact :: "dict \<Rightarrow> exn + string" where
  "summarize_artifact artifact =
     (if \<not> measured artifact then Inr ''Benchmark run is pending; no live incident was measured.''
      else and_then (int_field artifact ''dead_letters'') (\<lambda>dead_letters.
           and_then (int_field artifact ''events_failed'') (\<lambda>failed.
           and_then (int_field artifact ''redis_lag'') (\<lambda>lag.
             if dead_letters > 0 then Inr (''Measured run completed with '' @ show_int dead_letters
               @ '' dead letter(s) and '' @ show_int failed @ '' failed event(s).'')
             else if failed > 0 then Inr (''Measured run completed with '' @ show_int failed
               @ '' failed event(s) and redis lag of '' @ show_int lag @ ''.'')
             else if lag > 0 then Inr (''Measured run completed with backlog remaining: redis lag '' @ show_int lag @ ''.'')
             else Inr ''Measured run completed without dead letters or failures.''))))"

definition analyze_stream_lag :: "dict \<Rightarrow> exn + string" where
  "analyze_stream_lag artifact =
     and_then (int_field artifact ''redis_lag'') (\<lambda>lag.
     and_then (int_field artifact ''pending_entries'') (\<lambda>pending.
       if lag > 0 \<or> pending > 0
       then Inr (''stream backlog detected (redis_lag='' @ show_int lag @ '', pending_entries='' @ show_int pending @ '')'')
       else Inr ''no meaningful stream backlog detected''))"

definition inspect_dead_letters :: "dict \<Rightarrow> exn + string" where
  "inspect_dead_letters artifact =
     and_then (int_field artifact ''dead_letters'') (\<lambda>dead_letters.
     and_then (int_field artifact ''events_failed'') (\<lambda>failed.
       if dead_letters > 0 then Inr (''dead_letter_count='' @ show_int dead_letters)
       else if failed > 0 then Inr (''failed_events='' @ show_int failed)
       else Inr ''no dead letters detected''))"

definition recommend_recovery_action :: "dict \<Rightarrow> string option \<Rightarrow> exn + string \<times> string" where
  "recommend_recovery_action artifact base_url =
     and_then (int_field artifact ''dead_letters'') (\<lambda>dead_letters.
     and_then (int_field artifact ''events_failed'') (\<lambda>failed.
     and_then (int_field artifact ''redis_lag'') (\<lambda>lag.
       if \<not> measured artifact then
         (case base_url of
            Some u \<Rightarrow> if u \<noteq> [] then Inr (''Pending artifact: run the benchmark against the reachable API at '' @ u
                 @ '' to produce a measured artifact.'', ''pending artifact'')
               else Inr (''Pending artifact: run the benchmark locally against a reachable API to produce a measured artifact.'', ''pending artifact'')
          | None \<Rightarrow> Inr (''Pending artifact: run the benchmark locally against a reachable API to produce a measured artifact.'', ''pending artifact''))
       else if dead_letters > 0 then Inr (''Inspect the failing workflow, replay one dead letter, and confirm the queue drains.'', ''dead letters present'')
       else if failed > 0 then Inr (''Check worker health and retry logic, then rerun the benchmark after recovery.'', ''failed events present'')
       else if lag > 0 then Inr (''Scale workers or inspect the stream consumer group until backlog clears.'', ''redis lag present'')
       else Inr (''No recovery action required beyond routine validation.'', ''no incident evidence''))))"

text \<open>The conjunction is evaluated from the left and stops at the first false operand.\<close>

definition verify_recovery :: "dict \<Rightarrow> exn + string" where
  "verify_recovery artifact =
     (if \<not> measured artifact then Inr ''pending''
      else and_then (int_field artifact ''dead_letters'') (\<lambda>dead_letters.
        if dead_letters \<noteq> 0 then Inr ''needs_follow_up''
        else and_then (int_field artifact ''events_failed'') (\<lambda>failed.
          if failed = 0 then Inr ''verified'' else Inr ''needs_follow_up'')))"

record trace_step =
  ts_step_name :: string
  ts_input_summary :: string
  ts_tool_name :: "string option"
  ts_tool_args_summary :: "string option"
  ts_output_summary :: string
  ts_latency_ms :: "rat option"
  ts_status :: string
  ts_error :: "string option"

definition record_step ::
  "trace_step list \<Rightarrow> string \<Rightarrow> string \<Rightarrow> string \<Rightarrow> string option \<Rightarrow> string option \<Rightarrow> rat option \<Rightarrow> trace_step list" where
  "record_step trace step_name input_summary output_summary tool_name tool_args_summary latency_ms =
     trace @ [\<lparr>ts_step_name = step_name, ts_input_summary = input_summary, ts_tool_name = tool_name,
       ts_tool_args_summary = tool_args_summary, ts_output_summary = output_summary,
       ts_latency_ms = latency_ms, ts_status = ''ok'', ts_error = None\<rparr>]"

definition elapsed_ms :: "rat \<times> rat \<Rightarrow> rat option" where
  "elapsed_ms t = Some (py_round 2 (fl (fl (snd t - fst t) * 1000)))"

record review =
  rv_run_id :: string
  rv_incident_summary :: string
  rv_suspected_cause :: string
  rv_evidence :: dict
  rv_recommended_recovery_action :: string
  rv_verification_status :: string
  rv_trace :: "trace_step list"

definition evidence_of :: "dict \<Rightarrow> string option \<Rightarrow> dict" where
  "evidence_of artifact base_url =
     map (\<lambda>k. (k, dict_get artifact k))
       [''status'', ''events_submitted'', ''events_completed'', ''events_failed'', ''dead_letters'', ''redis_lag'',
        ''pending_entries'', ''throughput_events_per_sec''] @ [(''base_url'', opt_str base_url)]"

definition analyze_incident ::
  "(json \<Rightarrow> string) \<Rightarrow> string \<Rightarrow> (nat \<Rightarrow> rat \<times> rat) \<Rightarrow> dict \<Rightarrow> string option \<Rightarrow> exn + review" where
  "analyze_incident py_str run_id clock artifact base_url =
     and_then (summarize_artifact artifact) (\<lambda>incident_summary.
     (let t1 = record_step [] ''Incident Summarizer Agent'' (''status='' @ py_str (dict_get artifact ''status'')) incident_summary
                (Some ''summarize_incident'') (Some (''run_id='' @ run_id)) (elapsed_ms (clock 0)) in
     and_then (analyze_stream_lag artifact) (\<lambda>stream_lag.
     (let t2 = record_step t1 ''Stream Lag Analyzer'' (''redis_lag='' @ py_str (dict_get artifact ''redis_lag'')) stream_lag
                (Some ''analyze_stream_lag'') None (elapsed_ms (clock 1)) in
     and_then (inspect_dead_letters artifact) (\<lambda>dead_letter_view.
     (let t3 = record_step t2 ''Dead Letter Inspector'' (''dead_letters='' @ py_str (dict_get artifact ''dead_letters'')) dead_letter_view
                (Some ''inspect_dead_letters'') None (elapsed_ms (clock 2)) in
     and_then (recommend_recovery_action artifact base_url) (\<lambda>(recovery_action, evidence).
     (let t4 = record_step t3 ''Runbook Recommendation Agent'' evidence recovery_action
                (Some ''recommend_recovery_action'')
                (Some (''base_url='' @ (case base_url of None \<Rightarrow> ''none'' | Some u \<Rightarrow> if u = [] then ''none'' else u))) (elapsed_ms (clock 3)) in
     and_then (verify_recovery artifact) (\<lambda>verification_status.
     (let t5 = record_step t4 ''Recovery Verification Agent'' (''status='' @ py_str (dict_get artifact ''status'')) verification_status
                (Some ''verify_recovery'') None (elapsed_ms (clock 4))
      in Inr \<lparr>rv_run_id = run_id, rv_incident_summary = incident_summary, rv_suspected_cause = evidence,
              rv_evidence = evidence_of artifact base_url, rv_recommended_recovery_action = recovery_action,
              rv_verification_status = verification_status, rv_trace = t5\<rparr>))))))))))"

section \<open>Lemmas\<close>

text \<open>A review always has its five steps, in order.\<close>

lemma review_trace:
  assumes "analyze_incident py_str run_id clock artifact base_url = Inr rv"
  shows "map ts_tool_name (rv_trace rv) = map Some [''summarize_incident'', ''analyze_stream_lag'',
    ''inspect_dead_letters'', ''recommend_recovery_action'', ''verify_recovery'']"
proof -
  from assms obtain a b c p q where
    "summarize_artifact artifact = Inr a" "analyze_stream_lag artifact = Inr b" "inspect_dead_letters artifact = Inr c"
    "recommend_recovery_action artifact base_url = Inr p" "verify_recovery artifact = Inr q"
    by (cases "summarize_artifact artifact"; cases "analyze_stream_lag artifact"; cases "inspect_dead_letters artifact";
        cases "recommend_recovery_action artifact base_url"; cases "verify_recovery artifact")
      (simp_all add: analyze_incident_def Let_def split_beta)
  with assms show ?thesis
    by (auto simp: analyze_incident_def Let_def record_step_def split: prod.splits)
qed

end
