(* ===== verification/BenchmarkReplay.thy ===== *)
theory BenchmarkReplay
  imports RecoveryAgent
begin

text \<open>
  \<^verbatim>\<open>scripts/benchmark_replay.py\<close>: the figures of a benchmark run, computed from what the harness
  returned and from clock readings, the artifact written to disk, and its rendering. The two
  random hexadecimal strings of a payload, the clock and \<^verbatim>\<open>str\<close> are arguments.
\<close>

record benchmark_args =
  ba_events :: int
  ba_workers :: int
  ba_concurrency :: int
  ba_base_url :: string
  ba_pending :: bool
  ba_dry_run :: bool
  ba_reset :: bool

record benchmark_live =
  bl_status :: string
  bl_events :: int
  bl_workers :: int
  bl_concurrency :: int
  bl_submitted :: int
  bl_completed :: int
  bl_failed :: int
  bl_dead_letters :: int
  bl_retries :: int
  bl_pending_entries :: int
  bl_stream_backlog :: int
  bl_orphaned_records :: int
  bl_duplicate_deliveries :: int
  bl_duplicate_side_effects :: int
  bl_convergence_state :: json
  bl_converged :: bool
  bl_ingest_throughput :: "rat option"
  bl_processing_throughput :: "rat option"
  bl_end_to_end_throughput :: "rat option"
  bl_recovery_time_seconds :: "rat option"
  bl_p50_e2e_ms :: "rat option"
  bl_p95_e2e_ms :: "rat option"
  bl_p99_e2e_ms :: "rat option"

record benchmark_outcome = benchmark_live +
  bo_command :: string
  bo_timestamp :: string
  bo_base_url :: string
  bo_note :: "string option"

definition opt_float :: "rat option \<Rightarrow> json" where
  "opt_float q = (case q of None \<Rightarrow> JNull | Some v \<Rightarrow> JFloat v)"

definition benchmark_to_dict :: "benchmark_outcome \<Rightarrow> dict" where
  "benchmark_to_dict b = [
     (''status'', JStr (bl_status b)), (''events'', JInt (bl_events b)), (''workers'', JInt (bl_workers b)),
     (''concurrency'', JInt (bl_concurrency b)), (''submitted'', JInt (bl_submitted b)),
     (''completed'', JInt (bl_completed b)), (''failed'', JInt (bl_failed b)),
     (''dead_letters'', JInt (bl_dead_letters b)), (''retries'', JInt (bl_retries b)),
     (''pending_entries'', JInt (bl_pending_entries b)), (''stream_backlog'', JInt (bl_stream_backlog b)),
     (''orphaned_records'', JInt (bl_orphaned_records b)),
     (''duplicate_deliveries'', JInt (bl_duplicate_deliveries b)),
     (''duplicate_side_effects'', JInt (bl_duplicate_side_effects b)),
     (''convergence_state'', bl_convergence_state b), (''converged'', JBool (bl_converged b)),
     (''ingest_throughput_events_per_sec'', opt_float (bl_ingest_throughput b)),
     (''processing_throughput_events_per_sec'', opt_float (bl_processing_throughput b)),
     (''end_to_end_throughput_events_per_sec'', opt_float (bl_end_to_end_throughput b)),
     (''recovery_time_seconds'', opt_float (bl_recovery_time_seconds b)),
     (''p50_e2e_ms'', opt_float (bl_p50_e2e_ms b)), (''p95_e2e_ms'', opt_float (bl_p95_e2e_ms b)),
     (''p99_e2e_ms'', opt_float (bl_p99_e2e_ms b)), (''command'', JStr (bo_command b)),
     (''timestamp'', JStr (bo_timestamp b)), (''base_url'', JStr (bo_base_url b)), (''note'', opt_str (bo_note b))]"

definition command_line :: "benchmark_args \<Rightarrow> string" where
  "command_line a = ''python scripts/benchmark_replay.py --events '' @ show_int (ba_events a)
     @ '' --workers '' @ show_int (ba_workers a) @ '' --concurrency '' @ show_int (ba_concurrency a)
     @ '' --base-url '' @ ba_base_url a"

definition event_payload :: "string \<Rightarrow> string \<Rightarrow> int \<Rightarrow> dict" where
  "event_payload hex1 hex2 index = [
     (''application_name'', JStr ''converge-benchmark''),
     (''workflow_id'', JStr (''benchmark-'' @ take 10 hex1)),
     (''event_type'', JStr ''benchmark.event''),
     (''service_name'', JStr (''service-'' @ show_int (index mod 4))),
     (''idempotency_key'', JStr hex2),
     (''payload'', JObj [(''sequence'', JInt index), (''kind'', JStr ''benchmark'')]),
     (''metadata'', JObj [(''benchmark'', JBool True), (''sequence'', JInt index)]),
     (''max_attempts'', JInt 4)]"

definition pending_artifact :: "benchmark_args \<Rightarrow> time \<Rightarrow> string \<Rightarrow> benchmark_outcome" where
  "pending_artifact a now note = \<lparr>bl_status = ''pending'', bl_events = ba_events a, bl_workers = ba_workers a,
     bl_concurrency = ba_concurrency a, bl_submitted = 0, bl_completed = 0, bl_failed = 0, bl_dead_letters = 0,
     bl_retries = 0, bl_pending_entries = 0, bl_stream_backlog = 0, bl_orphaned_records = 0,
     bl_duplicate_deliveries = 0, bl_duplicate_side_effects = 0, bl_convergence_state = JStr ''pending'',
     bl_converged = False, bl_ingest_throughput = None, bl_processing_throughput = None,
     bl_end_to_end_throughput = None, bl_recovery_time_seconds = None, bl_p50_e2e_ms = None,
     bl_p95_e2e_ms = None, bl_p99_e2e_ms = None, bo_command = command_line a, bo_timestamp = isoformat 0 now,
     bo_base_url = ba_base_url a, bo_note = Some note\<rparr>"

text \<open>The rank is the rounded (half to even) floating-point product, clipped to the list.\<close>

definition percentile_index :: "rat \<Rightarrow> nat \<Rightarrow> nat" where
  "percentile_index pct n = nat (min (int n - 1) (max 0 (rne (fl (fl (pct / 100) * of_int (int n - 1))))))"

definition percentile :: "rat list \<Rightarrow> rat \<Rightarrow> rat option" where
  "percentile vals pct =
     (if vals = [] then None
      else Some (py_round 2 (sort vals ! percentile_index pct (length vals))))"

definition successful_submissions :: "submitted_event list \<Rightarrow> submitted_event list" where
  "successful_submissions subs = filter (\<lambda>s. se_status_code s = 201 \<and> se_event_id s \<noteq> []) subs"

definition submission_times :: "submitted_event list \<Rightarrow> string \<rightharpoonup> rat" where
  "submission_times subs = map_of (rev (map (\<lambda>s. (se_event_id s, se_submitted_at s)) subs))"

definition count_status :: "string \<Rightarrow> terminal_event list \<Rightarrow> nat" where
  "count_status st ts = count_where (\<lambda>t. tm_status t = st) ts"

text \<open>\<^verbatim>\<open>int(d.get(k, 0))\<close>\<close>

definition report_int :: "dict \<Rightarrow> string \<Rightarrow> exn + int" where
  "report_int d k = (case map_of d k of None \<Rightarrow> Inr 0 | Some v \<Rightarrow> int_of_json v)"

text \<open>The float literal \<^verbatim>\<open>1e-9\<close>.\<close>

definition tiny :: rat where "tiny = fl (1 / 1000000000)"

definition benchmark_figures ::
  "benchmark_args \<Rightarrow> submitted_event list \<Rightarrow> terminal_event list \<Rightarrow> json \<Rightarrow> json \<Rightarrow> rat \<Rightarrow> rat \<Rightarrow> rat \<Rightarrow> exn + benchmark_live" where
  "benchmark_figures a submissions terminal convergence worker_list start ingest_done end_t =
     (let successful = successful_submissions submissions;
          duplicates = count_where se_duplicate submissions;
          failed_submissions = count_where (\<lambda>s. se_status_code s \<noteq> 201) submissions;
          completed = count_status ''succeeded'' terminal;
          e2e_latencies = map tm_e2e_ms (filter (\<lambda>t. tm_status t \<noteq> ''timeout'') terminal);
          ingest_seconds = max (fl (ingest_done - start)) tiny;
          recovery_seconds = max (fl (end_t - start)) tiny
      in case convergence of
           JObj c \<Rightarrow>
             and_then (report_int c ''retrying_events'') (\<lambda>retries.
             and_then (report_int c ''pending_events'') (\<lambda>pending_entries.
             and_then (report_int c ''stream_backlog'') (\<lambda>stream_backlog.
             and_then (report_int c ''orphaned_records'') (\<lambda>orphaned_records.
             and_then (report_int c ''duplicate_deliveries'') (\<lambda>duplicate_deliveries.
             and_then (report_int c ''duplicate_side_effects'') (\<lambda>duplicate_side_effects.
               Inr \<lparr>bl_status = ''measured'', bl_events = ba_events a,
                    bl_workers = (case worker_list of JList ws \<Rightarrow> int (length ws) | _ \<Rightarrow> ba_workers a),
                    bl_concurrency = ba_concurrency a, bl_submitted = int (length successful),
                    bl_completed = int completed,
                    bl_failed = int (failed_submissions + count_status ''failed'' terminal),
                    bl_dead_letters = int (count_status ''dead_lettered'' terminal), bl_retries = retries,
                    bl_pending_entries = pending_entries, bl_stream_backlog = stream_backlog,
                    bl_orphaned_records = orphaned_records,
                    bl_duplicate_deliveries = duplicate_deliveries + int duplicates,
                    bl_duplicate_side_effects = duplicate_side_effects,
                    bl_convergence_state = (case map_of c ''convergence_state'' of None \<Rightarrow> JStr ''unknown'' | Some v \<Rightarrow> v),
                    bl_converged = truthy (dict_get c ''converged''),
                    bl_ingest_throughput = Some (py_round 2 (fl (of_nat (length successful) / ingest_seconds))),
                    bl_processing_throughput = Some (if completed \<noteq> 0 then py_round 2 (fl (of_nat completed / recovery_seconds)) else 0),
                    bl_end_to_end_throughput = Some (if successful \<noteq> [] then py_round 2 (fl (of_nat (length successful) / recovery_seconds)) else 0),
                    bl_recovery_time_seconds = Some (py_round 2 recovery_seconds),
                    bl_p50_e2e_ms = percentile e2e_latencies 50, bl_p95_e2e_ms = percentile e2e_latencies 95,
                    bl_p99_e2e_ms = percentile e2e_latencies 99\<rparr>))))))
         | v \<Rightarrow> Inl (no_get v))"

text \<open>
  The run: the compose command with the state of the platform, what the readiness poll, the
  requests, the polling turns, the convergence poll and the workers query returned, and the three
  clock readings.
\<close>

record 'p benchmark_world =
  bw_compose :: "'p compose"
  bw_platform :: 'p
  bw_ready :: "get_reply list"
  bw_submissions :: "(rat \<times> post_reply) list"
  bw_rounds :: "poll_round list"
  bw_timeout_clock :: "string \<Rightarrow> rat"
  bw_convergence :: "get_reply list"
  bw_workers :: get_reply
  bw_start :: rat
  bw_ingest_done :: rat
  bw_end :: rat

definition run_benchmark :: "(json \<Rightarrow> string) \<Rightarrow> benchmark_args \<Rightarrow> 'p benchmark_world \<Rightarrow> exn + benchmark_live" where
  "run_benchmark py_str a W =
     and_then (fst (restart_stack (bw_compose W) (ba_reset a) (ba_workers a) (bw_platform W))) (\<lambda>_.
     and_then (wait_for_ready (ba_base_url a) (bw_ready W)) (\<lambda>_.
     (let submissions = submit_events py_str (bw_submissions W);
          successful = successful_submissions submissions;
          event_ids = map se_event_id successful
      in and_then (wait_for_terminal_events event_ids (submission_times successful) (bw_rounds W) (bw_timeout_clock W)) (\<lambda>terminal.
         and_then (wait_for_convergence (ba_base_url a) (bw_convergence W)) (\<lambda>convergence.
         and_then (fetch_json (bw_workers W)) (\<lambda>worker_list.
           benchmark_figures a submissions terminal convergence worker_list (bw_start W) (bw_ingest_done W) (bw_end W)))))))"

definition benchmark_artifact :: "(json \<Rightarrow> string) \<Rightarrow> benchmark_args \<Rightarrow> 'p benchmark_world \<Rightarrow> time \<Rightarrow> exn + benchmark_outcome" where
  "benchmark_artifact py_str a W now =
     (if ba_dry_run a \<or> ba_pending a then Inr (pending_artifact a now ''pending benchmark requested'')
      else and_then (run_benchmark py_str a W) (\<lambda>live.
        Inr (benchmark_live.extend live
          (benchmark_outcome.fields (command_line a) (isoformat 0 now) (ba_base_url a) None))))"

definition md_line :: "(json \<Rightarrow> string) \<Rightarrow> dict \<Rightarrow> string \<times> string \<Rightarrow> string" where
  "md_line py_str artifact lk = ''- '' @ fst lk @ '': '' @ py_str (dict_get artifact (snd lk))"

definition md_head :: "(string \<times> string) list" where
  "md_head = [(''status'', ''status''), (''events'', ''events''), (''workers'', ''workers''),
     (''concurrency'', ''concurrency''), (''base url'', ''base_url'')]"

definition md_results :: "(string \<times> string) list" where
  "md_results = [(''submitted'', ''submitted''), (''completed'', ''completed''), (''failed'', ''failed''),
     (''dead letters'', ''dead_letters''), (''retries'', ''retries''), (''pending entries'', ''pending_entries''),
     (''stream backlog'', ''stream_backlog''), (''orphaned records'', ''orphaned_records''),
     (''duplicate deliveries'', ''duplicate_deliveries''), (''duplicate side effects'', ''duplicate_side_effects''),
     (''convergence state'', ''convergence_state''), (''converged'', ''converged''),
     (''ingest throughput events/sec'', ''ingest_throughput_events_per_sec''),
     (''processing throughput events/sec'', ''processing_throughput_events_per_sec''),
     (''end-to-end throughput events/sec'', ''end_to_end_throughput_events_per_sec''),
     (''recovery time seconds'', ''recovery_time_seconds''), (''p50 e2e ms'', ''p50_e2e_ms''),
     (''p95 e2e ms'', ''p95_e2e_ms''), (''p99 e2e ms'', ''p99_e2e_ms'')]"

fun join_lines :: "string list \<Rightarrow> string" where
  "join_lines [] = []"
| "join_lines [l] = l"
| "join_lines (l # ls) = l @ [CHR 0x0A] @ join_lines ls"

definition render_markdown :: "(json \<Rightarrow> string) \<Rightarrow> dict \<Rightarrow> string" where
  "render_markdown py_str artifact =
     (let ls = [''# Converge Benchmark'', []] @ map (md_line py_str artifact) md_head @ [[]]
      in if dict_get artifact ''status'' \<noteq> JStr ''measured''
         then join_lines (ls @ [''Results are pending local execution.''])
         else join_lines (ls @ [''## Results'', []] @ map (md_line py_str artifact) md_results))"

section \<open>Lemmas\<close>

lemma and_then_InrE: "and_then m f = Inr b \<Longrightarrow> (\<And>a. m = Inr a \<Longrightarrow> f a = Inr b \<Longrightarrow> P) \<Longrightarrow> P"
  by (cases m) simp_all

lemma figures_counts:
  assumes "benchmark_figures a subs terminal conv ws t0 t1 t2 = Inr live"
  shows "bl_submitted live = int (length (successful_submissions subs))"
    and "bl_completed live = int (count_status ''succeeded'' terminal)"
    and "bl_dead_letters live = int (count_status ''dead_lettered'' terminal)"
  using assms by (auto simp: benchmark_figures_def Let_def split: json.splits elim!: and_then_InrE)

lemma submission_times_dom: "set (map se_event_id subs) \<subseteq> dom (submission_times subs)"
  by (auto simp: submission_times_def dom_map_of_conv_image_fst image_image)

text \<open>The verdicts on the successful submissions of any run are no more than the submissions.\<close>

lemma verdicts_within_submissions:
  assumes "wait_for_terminal_events (map se_event_id ok) (submission_times ok) rounds clock = Inr terminal"
    and "\<forall>rd \<in> set rounds. lists_set rd"
  shows "length terminal \<le> length ok"
proof -
  from one_verdict [OF submission_times_dom assms(2), of ok clock] assms(1)
  have "distinct (map tm_event_id terminal)" "tm_event_id ` set terminal = set (map se_event_id ok)" by auto
  then have "length terminal = card (set (map se_event_id ok))" by (metis distinct_card length_map set_map)
  also have "\<dots> \<le> length ok" using card_length [of "map se_event_id ok"] by simp
  finally show ?thesis .
qed

lemma count_status_disjoint:
  "count_status ''succeeded'' ts + count_status ''dead_lettered'' ts \<le> length ts"
  unfolding count_status_def by (induction ts) auto

section \<open>Properties\<close>

text \<open>A benchmark never reports more outcomes than submissions: in the figures of a run, completed and
  dead-lettered events together are at most the events submitted, whatever the server answered.\<close>

theorem outcomes_within_submissions:
  assumes "run_benchmark py_str a W = Inr live" and "\<forall>rd \<in> set (bw_rounds W). lists_set rd"
  shows "bl_completed live + bl_dead_letters live \<le> bl_submitted live"
proof -
  let ?subs = "submit_events py_str (bw_submissions W)"
  let ?ok = "successful_submissions ?subs"
  from assms(1) obtain terminal conv ws where
    t: "wait_for_terminal_events (map se_event_id ?ok) (submission_times ?ok) (bw_rounds W) (bw_timeout_clock W) = Inr terminal"
    and f: "benchmark_figures a ?subs terminal conv ws (bw_start W) (bw_ingest_done W) (bw_end W) = Inr live"
    unfolding run_benchmark_def Let_def by (elim and_then_InrE) blast
  from verdicts_within_submissions [OF t assms(2)] count_status_disjoint [of terminal]
  show ?thesis by (simp add: figures_counts [OF f])
qed

lemma agent_fields:
  "dict_get (benchmark_to_dict b) ''status'' = JStr (bl_status b)"
  "int_field (benchmark_to_dict b) ''dead_letters'' = Inr (bl_dead_letters b)"
  "int_field (benchmark_to_dict b) ''pending_entries'' = Inr (bl_pending_entries b)"
  "int_field (benchmark_to_dict b) ''events_failed'' = Inr 0" "int_field (benchmark_to_dict b) ''redis_lag'' = Inr 0"
  by (simp_all add: benchmark_to_dict_def dict_get_def int_field_def int_of_json_def)

lemma no_action_without_dead_letters:
  assumes "bl_status b = ''measured''" and "bl_dead_letters b = 0"
  shows "recommend_recovery_action (benchmark_to_dict b) u
    = Inr (''No recovery action required beyond routine validation.'', ''no incident evidence'')"
  using assms by (simp add: recommend_recovery_action_def measured_def agent_fields)

text \<open>The recovery agent does not see what the benchmark recorded: it looks for \<^verbatim>\<open>events_failed\<close> and
  \<^verbatim>\<open>redis_lag\<close>, which the artifact calls \<^verbatim>\<open>failed\<close> and \<^verbatim>\<open>stream_backlog\<close>, so on every measured
  artifact without dead letters it reports no failures, recommends nothing and says verified,
  whatever number of failed events and whatever backlog the artifact holds.\<close>

theorem agent_blind_to_recorded_failures:
  assumes "bl_status b = ''measured''" and "bl_dead_letters b = 0"
  shows "summarize_artifact (benchmark_to_dict b) = Inr ''Measured run completed without dead letters or failures.''
    \<and> recommend_recovery_action (benchmark_to_dict b) u
        = Inr (''No recovery action required beyond routine validation.'', ''no incident evidence'')
    \<and> verify_recovery (benchmark_to_dict b) = Inr ''verified''"
  using assms no_action_without_dead_letters [OF assms, of u]
  by (simp add: summarize_artifact_def verify_recovery_def measured_def agent_fields)

section \<open>Witnesses\<close>

definition ex_args :: benchmark_args where
  "ex_args = \<lparr>ba_events = 1, ba_workers = 1, ba_concurrency = 1, ba_base_url = ''http://localhost'', ba_pending = False, ba_dry_run = False, ba_reset = True\<rparr>"

definition ex_benchmark :: "nat benchmark_world" where
  "ex_benchmark = \<lparr>bw_compose = (\<lambda>_ n. (Inr [], Suc n)), bw_platform = 0, bw_ready = [Inr (200, Some (JObj []))],
     bw_submissions = [(1, Inr (201, True, Some (JObj [(''id'', JStr ''e1'')])))], bw_rounds = [ex_round],
     bw_timeout_clock = (\<lambda>_. 9), bw_convergence = [Inr (200, Some (JObj [(''converged'', JBool True)]))],
     bw_workers = Inr (200, Some (JList [])), bw_start = 0, bw_ingest_done = 1, bw_end = 2\<rparr>"

theorem outcomes_within_submissions_witness:
  "\<exists>live. run_benchmark (\<lambda>_. []) ex_args ex_benchmark = Inr live \<and> bl_completed live + bl_dead_letters live \<le> bl_submitted live"
proof -
  have "\<exists>live. run_benchmark (\<lambda>_. []) ex_args ex_benchmark = Inr live"
    by (simp add: run_benchmark_def ex_benchmark_def ex_args_def restart_stack_def restart_control_plane_def
        restart_go_workers_def Let_def submit_events_def submit_one_def successful_submissions_def
        wait_for_terminal_events_def submission_times_def poll_one_def ex_round_def terminal_reply_def terminal_set_def
        wait_for_convergence_def fetch_json_def checked_json_def dict_get_def benchmark_figures_def report_int_def)
  then obtain live where l: "run_benchmark (\<lambda>_. []) ex_args ex_benchmark = Inr live" ..
  have "\<forall>rd \<in> set (bw_rounds ex_benchmark). lists_set rd" by (simp add: ex_benchmark_def ex_round_def lists_set_def)
  from outcomes_within_submissions [OF l this] l show ?thesis by blast
qed

theorem agent_blind_to_recorded_failures_witness:
  "verify_recovery (benchmark_to_dict ((pending_artifact ex_args 0 [])\<lparr>bl_status := ''measured'', bl_failed := 1000\<rparr>)) = Inr ''verified''"
  using agent_blind_to_recorded_failures [of "(pending_artifact ex_args 0 [])\<lparr>bl_status := ''measured'', bl_failed := 1000\<rparr>"]
  by (simp add: pending_artifact_def)

end
