(* ===== verification/ChaosReplay.thy ===== *)
theory ChaosReplay
  imports BenchmarkReplay
begin

text \<open>
  \<^verbatim>\<open>scripts/chaos_replay.py\<close>: a benchmark run during which one worker container is stopped and
  started again. The killer is a task of its own; it is run on the platform the stack was brought
  up on, its outcome is awaited where the script awaits it, and what the API answered meanwhile is
  given by the polling turns, as in the benchmark.
\<close>

record chaos_args =
  ca_events :: int
  ca_workers :: int
  ca_concurrency :: int
  ca_kill_delay :: rat
  ca_restart_delay :: rat
  ca_base_url :: string
  ca_pending :: bool
  ca_dry_run :: bool
  ca_reset :: bool

record chaos_live =
  cl_status :: string
  cl_events :: int
  cl_workers :: int
  cl_concurrency :: int
  cl_kill_delay_seconds :: rat
  cl_restart_delay_seconds :: rat
  cl_killed_worker_id :: "string option"
  cl_submitted :: int
  cl_completed :: int
  cl_failed :: int
  cl_dead_letters :: int
  cl_retries :: int
  cl_pending_before_recovery :: int
  cl_pending_after_recovery :: int
  cl_stream_backlog_before_recovery :: int
  cl_stream_backlog_after_recovery :: int
  cl_orphaned_records :: int
  cl_duplicate_deliveries :: int
  cl_duplicate_side_effects :: int
  cl_convergence_state_before :: json
  cl_convergence_state_after :: json
  cl_converged :: bool
  cl_recovery_time_seconds :: "rat option"
  cl_ingest_throughput :: "rat option"
  cl_end_to_end_throughput :: "rat option"
  cl_p50_e2e_ms :: "rat option"
  cl_p95_e2e_ms :: "rat option"
  cl_p99_e2e_ms :: "rat option"

record chaos_outcome = chaos_live +
  co_command :: string
  co_timestamp :: string
  co_base_url :: string
  co_note :: "string option"

definition chaos_to_dict :: "chaos_outcome \<Rightarrow> dict" where
  "chaos_to_dict b = [
     (''status'', JStr (cl_status b)), (''events'', JInt (cl_events b)),
     (''workers'', JInt (cl_workers b)), (''concurrency'', JInt (cl_concurrency b)),
     (''kill_delay_seconds'', JFloat (cl_kill_delay_seconds b)),
     (''restart_delay_seconds'', JFloat (cl_restart_delay_seconds b)),
     (''killed_worker_id'', opt_str (cl_killed_worker_id b)),
     (''submitted'', JInt (cl_submitted b)), (''completed'', JInt (cl_completed b)),
     (''failed'', JInt (cl_failed b)), (''dead_letters'', JInt (cl_dead_letters b)),
     (''retries'', JInt (cl_retries b)),
     (''pending_before_recovery'', JInt (cl_pending_before_recovery b)),
     (''pending_after_recovery'', JInt (cl_pending_after_recovery b)),
     (''stream_backlog_before_recovery'', JInt (cl_stream_backlog_before_recovery b)),
     (''stream_backlog_after_recovery'', JInt (cl_stream_backlog_after_recovery b)),
     (''orphaned_records'', JInt (cl_orphaned_records b)),
     (''duplicate_deliveries'', JInt (cl_duplicate_deliveries b)),
     (''duplicate_side_effects'', JInt (cl_duplicate_side_effects b)),
     (''convergence_state_before'', cl_convergence_state_before b),
     (''convergence_state_after'', cl_convergence_state_after b),
     (''converged'', JBool (cl_converged b)),
     (''recovery_time_seconds'', opt_float (cl_recovery_time_seconds b)),
     (''ingest_throughput_events_per_sec'', opt_float (cl_ingest_throughput b)),
     (''end_to_end_throughput_events_per_sec'', opt_float (cl_end_to_end_throughput b)),
     (''p50_e2e_ms'', opt_float (cl_p50_e2e_ms b)),
     (''p95_e2e_ms'', opt_float (cl_p95_e2e_ms b)),
     (''p99_e2e_ms'', opt_float (cl_p99_e2e_ms b)), (''command'', JStr (co_command b)),
     (''timestamp'', JStr (co_timestamp b)), (''base_url'', JStr (co_base_url b)),
     (''note'', opt_str (co_note b))]"

definition chaos_command_line :: "(json \<Rightarrow> string) \<Rightarrow> chaos_args \<Rightarrow> string" where
  "chaos_command_line py_str a = ''python scripts/chaos_replay.py --events '' @ show_int (ca_events a)
     @ '' --workers '' @ show_int (ca_workers a) @ '' --concurrency '' @ show_int (ca_concurrency a)
     @ '' --kill-delay '' @ py_str (JFloat (ca_kill_delay a)) @ '' --restart-delay '' @ py_str (JFloat (ca_restart_delay a))
     @ '' --base-url '' @ ca_base_url a"

definition chaos_event_payload :: "string \<Rightarrow> string \<Rightarrow> int \<Rightarrow> dict" where
  "chaos_event_payload hex1 hex2 index = [
     (''application_name'', JStr ''chaos-replay''),
     (''workflow_id'', JStr (''chaos-'' @ take 10 hex1)),
     (''event_type'', JStr ''chaos.event''),
     (''service_name'', JStr (''service-'' @ show_int (index mod 5))),
     (''idempotency_key'', JStr hex2),
     (''payload'', JObj [(''sequence'', JInt index), (''kind'', JStr ''chaos'')]),
     (''metadata'', JObj [(''chaos'', JBool True), (''sequence'', JInt index)]),
     (''max_attempts'', JInt 4)]"

definition chaos_pending_artifact :: "(json \<Rightarrow> string) \<Rightarrow> chaos_args \<Rightarrow> time \<Rightarrow> string \<Rightarrow> chaos_outcome" where
  "chaos_pending_artifact py_str a now note = \<lparr>
     cl_status = ''pending'', cl_events = ca_events a, cl_workers = ca_workers a,
     cl_concurrency = ca_concurrency a, cl_kill_delay_seconds = ca_kill_delay a,
     cl_restart_delay_seconds = ca_restart_delay a, cl_killed_worker_id = None, cl_submitted = 0,
     cl_completed = 0, cl_failed = 0, cl_dead_letters = 0, cl_retries = 0,
     cl_pending_before_recovery = 0, cl_pending_after_recovery = 0,
     cl_stream_backlog_before_recovery = 0, cl_stream_backlog_after_recovery = 0,
     cl_orphaned_records = 0, cl_duplicate_deliveries = 0, cl_duplicate_side_effects = 0,
     cl_convergence_state_before = JStr ''pending'',
     cl_convergence_state_after = JStr ''pending'', cl_converged = False,
     cl_recovery_time_seconds = None, cl_ingest_throughput = None,
     cl_end_to_end_throughput = None, cl_p50_e2e_ms = None, cl_p95_e2e_ms = None,
     cl_p99_e2e_ms = None, co_command = chaos_command_line py_str a,
     co_timestamp = isoformat 0 now, co_base_url = ca_base_url a, co_note = Some note\<rparr>"

section \<open>The run\<close>

text \<open>
  The killer: what it returned or raised, with the two variables it shares with the run. \<open>t\<close> is
  the loop's time once the container is stopped.
\<close>

definition kill_and_restart ::
  "'p compose \<Rightarrow> (string \<Rightarrow> 'p \<Rightarrow> (exn + unit) \<times> 'p) \<Rightarrow> rat \<Rightarrow> 'p
    \<Rightarrow> (exn + unit) \<times> string option \<times> rat option \<times> 'p" where
  "kill_and_restart compose docker_stop t p =
     (case stop_one_go_worker compose docker_stop p of
        (Inl x, p1) \<Rightarrow> (Inl x, None, None, p1)
      | (Inr killed_worker_id, p1) \<Rightarrow>
          (case start_one_go_worker compose p1 of
             (Inl x, p2) \<Rightarrow> (Inl x, killed_worker_id, Some t, p2)
           | (Inr _, p2) \<Rightarrow> (Inr (), killed_worker_id, Some t, p2)))"

text \<open>\<^verbatim>\<open>kill_started or start\<close>: the number zero is falsy.\<close>

definition recovery_anchor :: "rat option \<Rightarrow> rat \<Rightarrow> rat" where
  "recovery_anchor kill_started start = (case kill_started of
     None \<Rightarrow> start | Some k \<Rightarrow> if k = 0 then start else k)"

text \<open>A report on which \<^verbatim>\<open>.get\<close> is called: a dict, or an \<^verbatim>\<open>AttributeError\<close>.\<close>

definition json_obj :: "json \<Rightarrow> exn + dict" where
  "json_obj j = (case j of JObj d \<Rightarrow> Inr d | v \<Rightarrow> Inl (no_get v))"

definition state_or_unknown :: "dict \<Rightarrow> json" where
  "state_or_unknown d = (case map_of d ''convergence_state'' of None \<Rightarrow> JStr ''unknown'' | Some v \<Rightarrow> v)"

definition rate_per_sec :: "nat \<Rightarrow> rat \<Rightarrow> rat" where
  "rate_per_sec n secs = py_round 2 (fl (of_nat n / secs))"

record chaos_clock =
  cc_start :: rat
  cc_ingest_done :: rat
  cc_end :: rat

definition chaos_figures ::
  "chaos_args \<Rightarrow> submitted_event list \<Rightarrow> terminal_event list \<Rightarrow> json \<Rightarrow> json \<Rightarrow> json
    \<Rightarrow> string option \<Rightarrow> rat option \<Rightarrow> chaos_clock \<Rightarrow> exn + chaos_live" where
  "chaos_figures a submissions terminal before_recovery recovery worker_list killed_worker_id kill_started c =
     (let successful = successful_submissions submissions;
          e2e_latencies = map tm_e2e_ms (filter (\<lambda>t. tm_status t \<noteq> ''timeout'') terminal);
          ingest_seconds = max (fl (cc_ingest_done c - cc_start c)) tiny;
          recovery_seconds = max (fl (cc_end c - recovery_anchor kill_started (cc_start c))) tiny
      in and_then (json_obj recovery) (\<lambda>r.
         and_then (report_int r ''retrying_events'') (\<lambda>retries.
         and_then (json_obj before_recovery) (\<lambda>b.
         and_then (report_int b ''pending_events'') (\<lambda>pending_before.
         and_then (report_int r ''pending_events'') (\<lambda>pending_after.
         and_then (report_int b ''stream_backlog'') (\<lambda>backlog_before.
         and_then (report_int r ''stream_backlog'') (\<lambda>backlog_after.
         and_then (report_int r ''orphaned_records'') (\<lambda>orphaned_records.
         and_then (report_int r ''duplicate_deliveries'') (\<lambda>duplicate_deliveries.
         and_then (report_int r ''duplicate_side_effects'') (\<lambda>duplicate_side_effects.
           Inr \<lparr>
             cl_status = ''measured'', cl_events = ca_events a,
             cl_workers = (case worker_list of JList ws \<Rightarrow> int (length ws) | _ \<Rightarrow> ca_workers a),
             cl_concurrency = ca_concurrency a, cl_kill_delay_seconds = ca_kill_delay a,
             cl_restart_delay_seconds = ca_restart_delay a, cl_killed_worker_id = killed_worker_id,
             cl_submitted = int (length successful),
             cl_completed = int (count_status ''succeeded'' terminal),
             cl_failed = int (count_status ''failed'' terminal),
             cl_dead_letters = int (count_status ''dead_lettered'' terminal), cl_retries = retries,
             cl_pending_before_recovery = pending_before, cl_pending_after_recovery = pending_after,
             cl_stream_backlog_before_recovery = backlog_before,
             cl_stream_backlog_after_recovery = backlog_after, cl_orphaned_records = orphaned_records,
             cl_duplicate_deliveries = duplicate_deliveries,
             cl_duplicate_side_effects = duplicate_side_effects,
             cl_convergence_state_before = state_or_unknown b,
             cl_convergence_state_after = state_or_unknown r,
             cl_converged = truthy (dict_get r ''converged''),
             cl_recovery_time_seconds = Some (py_round 2 recovery_seconds),
             cl_ingest_throughput = Some (rate_per_sec (length successful) ingest_seconds),
             cl_end_to_end_throughput = Some (if successful \<noteq> [] then rate_per_sec (length successful) recovery_seconds else 0),
             cl_p50_e2e_ms = percentile e2e_latencies 50, cl_p95_e2e_ms = percentile e2e_latencies 95,
             cl_p99_e2e_ms = percentile e2e_latencies 99\<rparr>)))))))))))"

record 'p chaos_world =
  cw_compose :: "'p compose"
  cw_docker_stop :: "string \<Rightarrow> 'p \<Rightarrow> (exn + unit) \<times> 'p"
  cw_platform :: 'p
  cw_ready :: "get_reply list"
  cw_submissions :: "(rat \<times> post_reply) list"
  cw_kill_time :: rat
  cw_before :: get_reply
  cw_rounds :: "poll_round list"
  cw_timeout_clock :: "string \<Rightarrow> rat"
  cw_convergence :: "get_reply list"
  cw_workers :: get_reply
  cw_clock :: chaos_clock

definition run_chaos :: "(json \<Rightarrow> string) \<Rightarrow> chaos_args \<Rightarrow> 'p chaos_world \<Rightarrow> exn + chaos_live" where
  "run_chaos py_str a W =
     (case restart_stack (cw_compose W) (ca_reset a) (ca_workers a) (cw_platform W) of (restarted, p1) \<Rightarrow>
        and_then restarted (\<lambda>_.
        and_then (wait_for_ready (ca_base_url a) (cw_ready W)) (\<lambda>_.
          (let submissions = submit_events py_str (cw_submissions W);
               successful = successful_submissions submissions;
               event_ids = map se_event_id successful
           in case kill_and_restart (cw_compose W) (cw_docker_stop W) (cw_kill_time W) p1 of
                (killer, killed_worker_id, kill_started, _) \<Rightarrow>
                  and_then (fetch_json (cw_before W)) (\<lambda>before_recovery.
                  and_then (wait_for_terminal_events event_ids (submission_times successful) (cw_rounds W) (cw_timeout_clock W)) (\<lambda>terminal.
                  and_then (wait_for_convergence (ca_base_url a) (cw_convergence W)) (\<lambda>recovery.
                  and_then killer (\<lambda>_.
                  and_then (fetch_json (cw_workers W)) (\<lambda>worker_list.
                    chaos_figures a submissions terminal before_recovery recovery worker_list
                      killed_worker_id kill_started (cw_clock W))))))))))"

definition chaos_artifact :: "(json \<Rightarrow> string) \<Rightarrow> chaos_args \<Rightarrow> 'p chaos_world \<Rightarrow> time \<Rightarrow> exn + chaos_outcome" where
  "chaos_artifact py_str a W now =
     (if ca_dry_run a \<or> ca_pending a then Inr (chaos_pending_artifact py_str a now ''pending chaos run requested'')
      else and_then (run_chaos py_str a W) (\<lambda>live.
        Inr (chaos_live.extend live
          (chaos_outcome.fields (chaos_command_line py_str a) (isoformat 0 now) (ca_base_url a) None))))"

definition chaos_md_head :: "(string \<times> string) list" where
  "chaos_md_head = [(''status'', ''status''), (''events'', ''events''), (''workers'', ''workers''),
     (''concurrency'', ''concurrency''), (''kill delay seconds'', ''kill_delay_seconds''),
     (''restart delay seconds'', ''restart_delay_seconds''), (''base url'', ''base_url'')]"

definition chaos_md_results :: "(string \<times> string) list" where
  "chaos_md_results = [
     (''killed worker id'', ''killed_worker_id''), (''submitted'', ''submitted''),
     (''completed'', ''completed''), (''failed'', ''failed''),
     (''dead letters'', ''dead_letters''), (''retries'', ''retries''),
     (''pending before recovery'', ''pending_before_recovery''),
     (''pending after recovery'', ''pending_after_recovery''),
     (''backlog before recovery'', ''stream_backlog_before_recovery''),
     (''backlog after recovery'', ''stream_backlog_after_recovery''),
     (''orphaned records'', ''orphaned_records''),
     (''duplicate deliveries'', ''duplicate_deliveries''),
     (''duplicate side effects'', ''duplicate_side_effects''),
     (''convergence before'', ''convergence_state_before''),
     (''convergence after'', ''convergence_state_after''), (''converged'', ''converged''),
     (''recovery time seconds'', ''recovery_time_seconds''),
     (''ingest throughput events/sec'', ''ingest_throughput_events_per_sec''),
     (''end-to-end throughput events/sec'', ''end_to_end_throughput_events_per_sec''),
     (''p50 e2e ms'', ''p50_e2e_ms''), (''p95 e2e ms'', ''p95_e2e_ms''),
     (''p99 e2e ms'', ''p99_e2e_ms'')]"

definition chaos_render_markdown :: "(json \<Rightarrow> string) \<Rightarrow> dict \<Rightarrow> string" where
  "chaos_render_markdown py_str artifact =
     (let ls = [''# Converge Chaos Replay'', []] @ map (md_line py_str artifact) chaos_md_head @ [[]]
      in if dict_get artifact ''status'' \<noteq> JStr ''measured''
         then join_lines (ls @ [''Results are pending local execution.''])
         else join_lines (ls @ [''## Results'', []] @ map (md_line py_str artifact) chaos_md_results))"

section \<open>Lemmas\<close>

lemma chaos_figures_values:
  assumes "chaos_figures a subs terminal b r ws killed ks c = Inr live"
  shows "cl_submitted live = int (length (successful_submissions subs))"
    and "cl_completed live = int (count_status ''succeeded'' terminal)"
    and "cl_failed live = int (count_status ''failed'' terminal)"
    and "cl_dead_letters live = int (count_status ''dead_lettered'' terminal)"
    and "cl_end_to_end_throughput live = Some (if successful_submissions subs \<noteq> []
      then rate_per_sec (length (successful_submissions subs)) (max (fl (cc_end c - recovery_anchor ks (cc_start c))) tiny) else 0)"
  using assms by (auto simp: chaos_figures_def Let_def elim!: and_then_InrE)

lemma tiny_pos: "0 < tiny"
  unfolding tiny_def by (simp add: fl_def fl_pos_pos)

lemma rate_per_sec_antimono: "0 < s' \<Longrightarrow> s' \<le> s \<Longrightarrow> rate_per_sec n s \<le> rate_per_sec n s'"
  unfolding rate_per_sec_def by (intro py_round_mono fl_mono) (simp add: frac_le)

lemma three_statuses_disjoint:
  "count_status ''succeeded'' ts + count_status ''failed'' ts + count_status ''dead_lettered'' ts \<le> length ts"
  unfolding count_status_def by (induction ts) auto

section \<open>Properties\<close>

text \<open>A chaos run reports at most one outcome per submission: completed, failed and dead-lettered events
  together are at most the events submitted.\<close>

theorem chaos_outcomes_within_submissions:
  assumes "run_chaos py_str a W = Inr live" and "\<forall>rd \<in> set (cw_rounds W). lists_set rd"
  shows "cl_completed live + cl_failed live + cl_dead_letters live \<le> cl_submitted live"
proof -
  let ?subs = "submit_events py_str (cw_submissions W)"
  let ?ok = "successful_submissions ?subs"
  from assms(1) obtain terminal b r ws killed ks where
    t: "wait_for_terminal_events (map se_event_id ?ok) (submission_times ?ok) (cw_rounds W) (cw_timeout_clock W) = Inr terminal"
    and f: "chaos_figures a ?subs terminal b r ws killed ks (cw_clock W) = Inr live"
    unfolding run_chaos_def Let_def by (auto split: prod.splits elim!: and_then_InrE)
  from verdicts_within_submissions [OF t assms(2)] three_statuses_disjoint [of terminal]
  show ?thesis by (simp add: chaos_figures_values [OF f])
qed

text \<open>The end-to-end throughput of a chaos run is counted from the moment the worker was killed, not
  from the first submission: of two runs with the same submissions and the same end, the one in
  which the worker was killed later reports a throughput at least as high, whenever the runs
  started and however long the ingestion took.\<close>

theorem later_kill_higher_throughput:
  assumes "chaos_figures a subs terminal b r ws killed (Some k) c = Inr live"
    and "chaos_figures a subs terminal' b' r' ws' killed' (Some k') c' = Inr live'"
    and "k \<noteq> 0" and "k' \<noteq> 0" and "k \<le> k'" and "cc_end c' = cc_end c"
  shows "\<exists>q q'. cl_end_to_end_throughput live = Some q \<and> cl_end_to_end_throughput live' = Some q' \<and> q \<le> q'"
proof -
  have "max (fl (cc_end c - k')) tiny \<le> max (fl (cc_end c - k)) tiny"
    using assms(5) by (intro max.mono fl_mono) simp_all
  then have "rate_per_sec n (max (fl (cc_end c - k)) tiny) \<le> rate_per_sec n (max (fl (cc_end c - k')) tiny)" for n
    using tiny_pos by (intro rate_per_sec_antimono) (simp_all add: less_max_iff_disj)
  then show ?thesis
    using assms(3,4,6) by (simp add: chaos_figures_values [OF assms(1)] chaos_figures_values [OF assms(2)] recovery_anchor_def)
qed

section \<open>Witnesses\<close>

definition ex_chaos_args :: chaos_args where
  "ex_chaos_args = \<lparr>ca_events = 1, ca_workers = 1, ca_concurrency = 1, ca_kill_delay = 2, ca_restart_delay = 3,
     ca_base_url = ''http://localhost'', ca_pending = False, ca_dry_run = False, ca_reset = True\<rparr>"

definition ex_chaos :: "nat chaos_world" where
  "ex_chaos = \<lparr>cw_compose = (\<lambda>args n. (Inr (if hd args = ''ps'' then ''c1'' else []), Suc n)),
     cw_docker_stop = (\<lambda>_ n. (Inr (), Suc n)), cw_platform = 0,
     cw_ready = [Inr (200, Some (JObj []))],
     cw_submissions = [(1, Inr (201, True, Some (JObj [(''id'', JStr ''e1'')])))], cw_kill_time = 3,
     cw_before = Inr (200, Some (JObj [])), cw_rounds = [ex_round], cw_timeout_clock = (\<lambda>_. 9),
     cw_convergence = [Inr (200, Some (JObj [(''converged'', JBool True)]))],
     cw_workers = Inr (200, Some (JList [])), cw_clock = \<lparr>cc_start = 0, cc_ingest_done = 1, cc_end = 100\<rparr>\<rparr>"

lemmas ex_chaos_eval = run_chaos_def ex_chaos_def ex_chaos_args_def restart_stack_def restart_control_plane_def
  restart_go_workers_def kill_and_restart_def stop_one_go_worker_def start_one_go_worker_def compose_service_ids_def
  Let_def submit_events_def submit_one_def successful_submissions_def wait_for_terminal_events_def submission_times_def
  poll_one_def ex_round_def terminal_reply_def terminal_set_def wait_for_convergence_def fetch_json_def
  checked_json_def dict_get_def chaos_figures_def json_obj_def report_int_def

lemma ex_chaos_runs: "\<exists>live. run_chaos (\<lambda>_. []) ex_chaos_args ex_chaos = Inr live"
  by (simp add: ex_chaos_eval split: list.split)

theorem chaos_outcomes_within_submissions_witness:
  "\<exists>live. run_chaos (\<lambda>_. []) ex_chaos_args ex_chaos = Inr live
    \<and> cl_completed live + cl_failed live + cl_dead_letters live \<le> cl_submitted live"
proof -
  obtain live where l: "run_chaos (\<lambda>_. []) ex_chaos_args ex_chaos = Inr live" using ex_chaos_runs by blast
  have "\<forall>rd \<in> set (cw_rounds ex_chaos). lists_set rd" by (simp add: ex_chaos_def ex_round_def lists_set_def)
  from chaos_outcomes_within_submissions [OF l this] l show ?thesis by blast
qed

abbreviation ex_chaos_figures :: "rat \<Rightarrow> exn + chaos_live" where
  "ex_chaos_figures k \<equiv> chaos_figures ex_chaos_args
     [\<lparr>se_event_id = ''e1'', se_duplicate = False, se_submitted_at = 1, se_status_code = 201, se_error = None\<rparr>]
     [] (JObj []) (JObj []) (JList []) (Some ''c1'') (Some k) \<lparr>cc_start = 0, cc_ingest_done = 90, cc_end = 100\<rparr>"

theorem later_kill_higher_throughput_witness:
  "\<exists>live live' q q'. ex_chaos_figures 2 = Inr live \<and> ex_chaos_figures 99 = Inr live'
    \<and> cl_end_to_end_throughput live = Some q \<and> cl_end_to_end_throughput live' = Some q' \<and> q \<le> q'"
proof -
  have "\<exists>live. ex_chaos_figures k = Inr live" for k
    by (simp add: chaos_figures_def Let_def json_obj_def report_int_def)
  then obtain live live' where l: "ex_chaos_figures 2 = Inr live" "ex_chaos_figures 99 = Inr live'" by blast
  from later_kill_higher_throughput [OF l] l show ?thesis by auto
qed

end
