(* ===== verification/ConvergenceApi.thy ===== *)
theory ConvergenceApi
  imports Convergence ChaosReplay
begin

text \<open>
  \<^verbatim>\<open>api/app/api/convergence.py\<close> and its reader: the convergence report as the endpoint sends it
  (the schema \<^verbatim>\<open>ConvergenceOut\<close>), and the figures the benchmark scripts take from it. \<open>ser_time\<close>
  is how pydantic writes a datetime.
\<close>

definition convergence_out :: "(time \<Rightarrow> string) \<Rightarrow> convergence_report \<Rightarrow> dict" where
  "convergence_out ser_time rep = [
     (''total_events'', JInt (cr_total_events rep)),
     (''processed_events'', JInt (cr_processed_events rep)),
     (''acknowledged_events'', JInt (cr_acknowledged_events rep)),
     (''received_events'', JInt (cr_received_events rep)),
     (''queued_events'', JInt (cr_queued_events rep)),
     (''processing_events'', JInt (cr_processing_events rep)),
     (''retrying_events'', JInt (cr_retrying_events rep)),
     (''dead_lettered_events'', JInt (cr_dead_lettered_events rep)),
     (''pending_events'', JInt (cr_pending_events rep)),
     (''retry_queue_depth'', JInt (cr_retry_queue_depth rep)),
     (''retry_stream_depth'', JInt (cr_retry_stream_depth rep)),
     (''incoming_stream_depth'', JInt (cr_incoming_stream_depth rep)),
     (''stream_backlog'', JInt (cr_stream_backlog rep)), (''dlq_events'', JInt (cr_dlq_events rep)),
     (''orphaned_records'', JInt (cr_orphaned_records rep)),
     (''duplicate_deliveries'', JInt (cr_duplicate_deliveries rep)),
     (''duplicate_side_effects'', JInt (cr_duplicate_side_effects rep)),
     (''recent_failures'', JInt (cr_recent_failures rep)),
     (''active_workers'', JInt (cr_active_workers rep)),
     (''stale_workers'', JInt (cr_stale_workers rep)),
     (''worker_heartbeat_age_seconds'', opt_float (cr_worker_heartbeat_age_seconds rep)),
     (''convergence_state'', JStr (cr_convergence_state rep)),
     (''converged'', JBool (cr_converged rep)),
     (''convergence_issues'', JList (map JStr (cr_convergence_issues rep))),
     (''verified_at'', JStr (ser_time (cr_verified_at rep)))]"

definition get_convergence ::
  "(time \<Rightarrow> string) \<Rightarrow> 'r redis_api \<Rightarrow> time \<times> time \<times> time \<Rightarrow> db \<Rightarrow> 'r \<Rightarrow> json \<times> 'r" where
  "get_convergence ser_time R ts d r =
     (case build_convergence_report R ts d r of (rep, r') \<Rightarrow> (JObj (convergence_out ser_time rep), r'))"

section \<open>What the scripts read\<close>

lemma report_int_out [simp]:
  "report_int (convergence_out z rep) ''retrying_events'' = Inr (cr_retrying_events rep)"
  "report_int (convergence_out z rep) ''pending_events'' = Inr (cr_pending_events rep)"
  "report_int (convergence_out z rep) ''stream_backlog'' = Inr (cr_stream_backlog rep)"
  "report_int (convergence_out z rep) ''orphaned_records'' = Inr (cr_orphaned_records rep)"
  "report_int (convergence_out z rep) ''duplicate_deliveries'' = Inr (cr_duplicate_deliveries rep)"
  "report_int (convergence_out z rep) ''duplicate_side_effects'' = Inr (cr_duplicate_side_effects rep)"
  by (simp_all add: report_int_def convergence_out_def int_of_json_def)

lemma get_out [simp]:
  "dict_get (convergence_out z rep) ''converged'' = JBool (cr_converged rep)"
  "map_of (convergence_out z rep) ''convergence_state'' = Some (JStr (cr_convergence_state rep))"
  by (simp_all add: dict_get_def convergence_out_def)

lemma wait_reads_last:
  assumes "b = Inr (200, Some (JObj (convergence_out z rep)))"
  shows "wait_for_convergence url [b] = Inr (JObj (convergence_out z rep))"
  by (simp add: assms wait_for_convergence_def fetch_json_def checked_json_def)

section \<open>Properties\<close>

text \<open>What the server computed is what the artifact records: for every database, every behaviour of Redis
  and every run, the convergence poll of the scripts returns the endpoint's report, the figures of
  the benchmark and of the chaos run are computed from it without an error, and retries, pending
  entries, backlog, orphans, duplicates, state and verdict in them are those of the report (the
  benchmark adds to the duplicates those it saw itself).\<close>

theorem report_reaches_artifact:
  "let rep = fst (build_convergence_report R ts d r); body = fst (get_convergence ser_time R ts d r) in
    wait_for_convergence url [Inr (200, Some body)] = Inr body
    \<and> (\<exists>live. benchmark_figures a subs terminal body ws t0 t1 t2 = Inr live
        \<and> bl_retries live = cr_retrying_events rep \<and> bl_pending_entries live = cr_pending_events rep
        \<and> bl_stream_backlog live = cr_stream_backlog rep \<and> bl_orphaned_records live = cr_orphaned_records rep
        \<and> bl_duplicate_deliveries live = cr_duplicate_deliveries rep + int (count_where se_duplicate subs)
        \<and> bl_duplicate_side_effects live = cr_duplicate_side_effects rep
        \<and> bl_convergence_state live = JStr (cr_convergence_state rep) \<and> bl_converged live = cr_converged rep)
    \<and> (\<exists>live. chaos_figures ca subs terminal body body ws killed ks c = Inr live
        \<and> cl_retries live = cr_retrying_events rep \<and> cl_pending_after_recovery live = cr_pending_events rep
        \<and> cl_stream_backlog_after_recovery live = cr_stream_backlog rep
        \<and> cl_duplicate_side_effects live = cr_duplicate_side_effects rep
        \<and> cl_convergence_state_after live = JStr (cr_convergence_state rep) \<and> cl_converged live = cr_converged rep)"
proof -
  obtain rep r' where rep: "build_convergence_report R ts d r = (rep, r')" by force
  then have body: "fst (get_convergence ser_time R ts d r) = JObj (convergence_out ser_time rep)"
    by (simp add: get_convergence_def)
  show ?thesis
    by (simp add: rep body Let_def wait_reads_last benchmark_figures_def chaos_figures_def json_obj_def
        state_or_unknown_def)
qed

end
