(* ===== verification/LoadTest.thy ===== *)
theory LoadTest
  imports Harness
begin

text \<open>
  \<^verbatim>\<open>scripts/load_test.py\<close>: ingestion of a batch of events and polling until each has reached
  a terminal status, with the report of counts and latencies. The replies of the server and the
  clock are arguments. The polling loop is written as in the harness (batches of 50, the same
  terminal statuses, every exception swallowed), so \<open>poll_rounds\<close> models it; only what remains
  pending at the deadline is recorded differently.
\<close>

section \<open>Figures\<close>

text \<open>\<^verbatim>\<open>(len(s) - 1) * pct / 100\<close> is one correctly rounded division of integers.\<close>

definition lt_percentile :: "rat list \<Rightarrow> int \<Rightarrow> rat" where
  "lt_percentile data pct =
     (let s = sort data;
          k = fl (of_int ((int (length s) - 1) * pct) / 100);
          f = nat \<lfloor>k\<rfloor>;
          c = f + 1
      in if length s \<le> c then last s
         else fl (s ! f + fl (fl (k - of_nat f) * fl (s ! c - s ! f))))"

definition lt_median :: "rat list \<Rightarrow> rat" where
  "lt_median data =
     (let s = sort data; n = length s
      in if odd n then s ! (n div 2) else fl (fl (s ! (n div 2 - 1) + s ! (n div 2)) / 2))"

record latency_summary =
  ls_median :: rat
  ls_p95 :: rat
  ls_p99 :: rat
  ls_max :: rat

definition summarize_latencies :: "rat list \<Rightarrow> latency_summary option" where
  "summarize_latencies data =
     (if data = [] then None
      else Some \<lparr>ls_median = lt_median data, ls_p95 = lt_percentile data 95, ls_p99 = lt_percentile data 99,
        ls_max = Max (set data)\<rparr>)"

section \<open>Ingestion\<close>

record event_result =
  er_event_id :: string
  er_ingestion_ms :: rat
  er_e2e_ms :: rat
  er_status :: string
  er_error :: string

definition blank_result :: event_result where
  "blank_result = \<lparr>er_event_id = [], er_ingestion_ms = 0, er_e2e_ms = 0, er_status = [], er_error = []\<rparr>"

definition make_event :: "string \<Rightarrow> string \<Rightarrow> int \<Rightarrow> dict" where
  "make_event hex1 hex2 i = [
     (''application_name'', JStr ''loadtest''),
     (''workflow_id'', JStr (''wf-loadtest-'' @ take 8 hex1)),
     (''event_type'', JStr ''order.created''),
     (''service_name'', JStr (''svc-'' @ show_int (i mod 5))),
     (''idempotency_key'', JStr hex2),
     (''payload'', JObj [(''item'', JStr (''item-'' @ show_int i)), (''amount'', JFloat (py_round 2 (fl (10 + fl (of_int i * (1 / 2))))))]),
     (''metadata'', JObj [(''source'', JStr ''load_test''), (''seq'', JInt i)]),
     (''max_attempts'', JInt 4)]"

text \<open>
  \<^verbatim>\<open>body["id"]\<close>. The API answers with the event's identifier as a string; \<open>py_str\<close> renders
  any other value.
\<close>

definition subscript_id :: "(json \<Rightarrow> string) \<Rightarrow> json \<Rightarrow> exn + string" where
  "subscript_id py_str body = (case body of
     JObj kvs \<Rightarrow> (case map_of kvs ''id'' of None \<Rightarrow> Inl (KeyError ''id'') | Some (JStr i) \<Rightarrow> Inr i | Some v \<Rightarrow> Inr (py_str v))
   | JList _ \<Rightarrow> Inl (TypeError ''list indices must be integers or slices, not str'')
   | JStr _ \<Rightarrow> Inl (TypeError (''string indices must be integers, not '' @ [CHR 0x27] @ ''str'' @ [CHR 0x27]))
   | v \<Rightarrow> Inl (TypeError ([CHR 0x27] @ type_name v @ [CHR 0x27] @ '' object is not subscriptable'')))"

definition ingest_error :: "rat \<Rightarrow> string \<Rightarrow> event_result" where
  "ingest_error ms err = blank_result\<lparr>er_ingestion_ms := ms, er_error := err, er_status := ''error''\<rparr>"

text \<open>\<open>t1\<close> is read when the reply is there, \<open>t2\<close> when the handler of a later exception runs.\<close>

definition ingest_one :: "(json \<Rightarrow> string) \<Rightarrow> rat \<Rightarrow> rat \<Rightarrow> rat \<Rightarrow> get_reply \<Rightarrow> event_result" where
  "ingest_one py_str t0 t1 t2 reply = (case reply of
     Inl exc \<Rightarrow> ingest_error (e2e_ms t2 t0) (exn_str exc)
   | Inr (code, body) \<Rightarrow>
       if code = 201 then
         (case and_then (case body of None \<Rightarrow> Inl (ValueError ''response is not JSON'') | Some j \<Rightarrow> Inr j) (subscript_id py_str) of
            Inl exc \<Rightarrow> ingest_error (e2e_ms t2 t0) (exn_str exc)
          | Inr i \<Rightarrow> blank_result\<lparr>er_event_id := i, er_ingestion_ms := e2e_ms t1 t0,
              er_status := (case body of Some (JObj kvs) \<Rightarrow> if truthy (dict_get kvs ''duplicate'') then ''duplicate'' else ''ingested''
                            | _ \<Rightarrow> ''ingested'')\<rparr>)
       else if code = 429 then ingest_error (e2e_ms t1 t0) ''rate_limited''
       else ingest_error (e2e_ms t1 t0) (''http_'' @ show_int code))"

section \<open>Completion\<close>

definition finished_result :: "terminal_event \<Rightarrow> event_result" where
  "finished_result t = blank_result\<lparr>er_event_id := tm_event_id t, er_status := tm_status t, er_e2e_ms := tm_e2e_ms t\<rparr>"

definition timed_out_result :: "string \<Rightarrow> event_result" where
  "timed_out_result i = blank_result\<lparr>er_event_id := i, er_status := ''timeout''\<rparr>"

definition poll_completion :: "string list \<Rightarrow> (string \<rightharpoonup> rat) \<Rightarrow> poll_round list \<Rightarrow> event_result list" where
  "poll_completion event_ids submit_times rounds =
     (case poll_rounds submit_times rounds (remdups event_ids, []) of
        (pending, results) \<Rightarrow> map finished_result results @ map timed_out_result pending)"

definition get_worker_count :: "get_reply \<Rightarrow> nat" where
  "get_worker_count reply = (case reply of
     Inr (code, Some (JList ws)) \<Rightarrow>
       if code = 200 \<and> list_all (\<lambda>w. case w of JObj _ \<Rightarrow> True | _ \<Rightarrow> False) ws
       then count_where (\<lambda>w. case w of JObj kvs \<Rightarrow> dict_get kvs ''status'' = JStr ''active'' | _ \<Rightarrow> False) ws
       else 0
   | _ \<Rightarrow> 0)"

section \<open>The run\<close>

record load_report =
  lr_total_events :: int
  lr_succeeded :: nat
  lr_failed :: nat
  lr_dead_lettered :: nat
  lr_duplicates :: nat
  lr_ingestion_errors :: nat
  lr_worker_count :: nat
  lr_wall_time_s :: rat
  lr_ingestion_throughput :: rat
  lr_ingestion_latencies_ms :: "rat list"
  lr_e2e_latencies_ms :: "rat list"

definition blank_report :: "int \<Rightarrow> load_report" where
  "blank_report n_events = \<lparr>lr_total_events = n_events, lr_succeeded = 0, lr_failed = 0, lr_dead_lettered = 0,
     lr_duplicates = 0, lr_ingestion_errors = 0, lr_worker_count = 0, lr_wall_time_s = 0,
     lr_ingestion_throughput = 0, lr_ingestion_latencies_ms = [], lr_e2e_latencies_ms = []\<rparr>"

text \<open>The body of the first loop over the results; the second component is \<^verbatim>\<open>ingested_ids\<close>.\<close>

definition tally_ingestion :: "event_result \<Rightarrow> load_report \<times> string list \<Rightarrow> load_report \<times> string list" where
  "tally_ingestion r acc = (case acc of (report, ingested_ids) \<Rightarrow>
     if er_status r = ''ingested'' then
       (report\<lparr>lr_ingestion_latencies_ms := lr_ingestion_latencies_ms report @ [er_ingestion_ms r]\<rparr>, ingested_ids @ [er_event_id r])
     else if er_status r = ''duplicate'' then (report\<lparr>lr_duplicates := lr_duplicates report + 1\<rparr>, ingested_ids)
     else (report\<lparr>lr_ingestion_errors := lr_ingestion_errors report + 1\<rparr>, ingested_ids))"

text \<open>The body of the second loop.\<close>

definition tally_completion :: "event_result \<Rightarrow> load_report \<Rightarrow> load_report" where
  "tally_completion cr report =
     (let late = lr_e2e_latencies_ms report @ [er_e2e_ms cr]
      in if er_status cr = ''succeeded'' then report\<lparr>lr_succeeded := lr_succeeded report + 1, lr_e2e_latencies_ms := late\<rparr>
         else if er_status cr = ''failed'' then report\<lparr>lr_failed := lr_failed report + 1, lr_e2e_latencies_ms := late\<rparr>
         else if er_status cr = ''dead_lettered'' then report\<lparr>lr_dead_lettered := lr_dead_lettered report + 1, lr_e2e_latencies_ms := late\<rparr>
         else report)"

record load_world =
  lw_health :: get_reply
  lw_workers_before :: get_reply
  lw_ingestion :: "(rat \<times> rat \<times> rat \<times> get_reply) list"
  lw_rounds :: "poll_round list"
  lw_workers_after :: get_reply
  lw_start :: rat
  lw_ingest_done :: rat
  lw_done :: rat

definition run_load_test :: "(json \<Rightarrow> string) \<Rightarrow> int \<Rightarrow> load_world \<Rightarrow> load_report" where
  "run_load_test py_str n_events W =
     (let report = blank_report n_events
      in if \<not> (case lw_health W of Inr (code, _) \<Rightarrow> code = 200 | Inl _ \<Rightarrow> False) then report
         else
           (let results = map (\<lambda>(t0, t1, t2, reply). ingest_one py_str t0 t1 t2 reply) (lw_ingestion W);
                ingestion_wall = fl (lw_ingest_done W - lw_start W);
                (report, ingested_ids) = fold tally_ingestion results
                  (report\<lparr>lr_worker_count := get_worker_count (lw_workers_before W)\<rparr>, []);
                report = report\<lparr>lr_ingestion_throughput :=
                  (if 0 < ingestion_wall then fl (of_nat (length ingested_ids) / ingestion_wall) else 0)\<rparr>
            in if ingested_ids = [] then report\<lparr>lr_wall_time_s := ingestion_wall\<rparr>
               else
                 (let completion = poll_completion ingested_ids (map_of (map (\<lambda>i. (i, lw_start W)) ingested_ids)) (lw_rounds W);
                      report = fold tally_completion completion (report\<lparr>lr_wall_time_s := fl (lw_done W - lw_start W)\<rparr>)
                  in report\<lparr>lr_worker_count := get_worker_count (lw_workers_after W)\<rparr>)))"

section \<open>Accounting\<close>

lemma blank_report_counts [simp]:
  "lr_succeeded (blank_report n) = 0" "lr_failed (blank_report n) = 0" "lr_dead_lettered (blank_report n) = 0"
  "lr_duplicates (blank_report n) = 0" "lr_ingestion_errors (blank_report n) = 0"
  "lr_ingestion_latencies_ms (blank_report n) = []" "lr_e2e_latencies_ms (blank_report n) = []"
  by (simp_all add: blank_report_def)

lemma tally_ingestion_counts:
  "fold tally_ingestion rs (report, ids) = (report', ids') \<Longrightarrow>
     length (lr_ingestion_latencies_ms report') + lr_duplicates report' + lr_ingestion_errors report'
       = length (lr_ingestion_latencies_ms report) + lr_duplicates report + lr_ingestion_errors report + length rs
     \<and> length (lr_ingestion_latencies_ms report') + length ids = length (lr_ingestion_latencies_ms report) + length ids'
     \<and> lr_succeeded report' = lr_succeeded report \<and> lr_failed report' = lr_failed report
     \<and> lr_dead_lettered report' = lr_dead_lettered report \<and> lr_e2e_latencies_ms report' = lr_e2e_latencies_ms report"
  by (induction rs arbitrary: report ids) (fastforce simp: tally_ingestion_def split: if_splits)+

definition counted :: "event_result \<Rightarrow> bool" where
  "counted r \<longleftrightarrow> er_status r \<in> {''succeeded'', ''failed'', ''dead_lettered''}"

lemma fold_tally_completion:
  "lr_succeeded (fold tally_completion cs r) = lr_succeeded r + count_where (\<lambda>c. er_status c = ''succeeded'') cs"
  "lr_failed (fold tally_completion cs r) = lr_failed r + count_where (\<lambda>c. er_status c = ''failed'') cs"
  "lr_dead_lettered (fold tally_completion cs r) = lr_dead_lettered r + count_where (\<lambda>c. er_status c = ''dead_lettered'') cs"
  "lr_e2e_latencies_ms (fold tally_completion cs r) = lr_e2e_latencies_ms r @ map er_e2e_ms (filter counted cs)"
  "lr_ingestion_latencies_ms (fold tally_completion cs r) = lr_ingestion_latencies_ms r"
  "lr_duplicates (fold tally_completion cs r) = lr_duplicates r"
  "lr_ingestion_errors (fold tally_completion cs r) = lr_ingestion_errors r"
  by (induction cs arbitrary: r) (simp_all add: tally_completion_def counted_def Let_def)

lemma counted_split:
  "length (filter counted cs) = count_where (\<lambda>c. er_status c = ''succeeded'') cs
     + count_where (\<lambda>c. er_status c = ''failed'') cs + count_where (\<lambda>c. er_status c = ''dead_lettered'') cs"
  by (induction cs) (auto simp: counted_def)

lemma poll_completion_length:
  assumes "set event_ids \<subseteq> dom submit_times" and "\<forall>rd \<in> set rounds. lists_set rd"
  shows "length (poll_completion event_ids submit_times rounds) \<le> length event_ids"
proof -
  obtain pending results where pr: "poll_rounds submit_times rounds (remdups event_ids, []) = (pending, results)" by force
  have "polling (set event_ids) (set rounds) (remdups event_ids, [])" by (simp add: polling_def)
  from polling_rounds [OF this assms(2,1) subset_refl] have "polling (set event_ids) (set rounds) (pending, results)"
    by (simp add: pr)
  then have "distinct (pending @ map tm_event_id results)" "set (pending @ map tm_event_id results) = set event_ids"
    by (simp_all add: polling_def)
  then have "length (pending @ map tm_event_id results) = card (set event_ids)" by (metis distinct_card)
  with card_length [of event_ids] show ?thesis by (simp add: poll_completion_def pr)
qed

section \<open>Properties\<close>

text \<open>The report of a load test accounts for every request and every outcome: once the backend is healthy,
  latencies recorded, duplicates and errors add up to the requests sent; succeeded, failed and
  dead-lettered events are exactly those with an end-to-end latency, and no more than those
  ingested.\<close>

theorem load_report_accounts:
  assumes "lw_health W = Inr (200, body)" and "\<forall>rd \<in> set (lw_rounds W). lists_set rd"
    and "run_load_test py_str n_events W = report"
  shows "length (lr_ingestion_latencies_ms report) + lr_duplicates report + lr_ingestion_errors report = length (lw_ingestion W)
    \<and> lr_succeeded report + lr_failed report + lr_dead_lettered report = length (lr_e2e_latencies_ms report)
    \<and> length (lr_e2e_latencies_ms report) \<le> length (lr_ingestion_latencies_ms report)"
proof -
  let ?rs = "map (\<lambda>(t0, t1, t2, reply). ingest_one py_str t0 t1 t2 reply) (lw_ingestion W)"
  obtain r ids where f: "fold tally_ingestion ?rs
      ((blank_report n_events)\<lparr>lr_worker_count := get_worker_count (lw_workers_before W)\<rparr>, []) = (r, ids)" by force
  let ?cs = "poll_completion ids (map_of (map (\<lambda>i. (i, lw_start W)) ids)) (lw_rounds W)"
  have cs: "length ?cs \<le> length ids"
    by (rule poll_completion_length [OF _ assms(2)]) (auto simp: dom_map_of_conv_image_fst image_image)
  have "length (filter counted ?cs) \<le> length ids" using cs by (rule order.trans [OF length_filter_le])
  then show ?thesis
    using tally_ingestion_counts [OF f] assms(3)
    by (auto simp: assms(1) run_load_test_def Let_def f fold_tally_completion counted_split)
qed

section \<open>Witness\<close>

definition ex_load :: load_world where
  "ex_load = \<lparr>lw_health = Inr (200, None), lw_workers_before = Inl (HttpError ''refused''),
     lw_ingestion = [(1, 2, 3, Inr (201, Some (JObj [(''id'', JStr ''e1'')]))), (1, 2, 3, Inr (429, None))],
     lw_rounds = [ex_round], lw_workers_after = Inr (200, Some (JList [])), lw_start = 0, lw_ingest_done = 4, lw_done = 9\<rparr>"

theorem load_report_accounts_witness:
  "\<exists>report. run_load_test (\<lambda>_. []) 2 ex_load = report
    \<and> length (lr_ingestion_latencies_ms report) + lr_duplicates report + lr_ingestion_errors report = 2"
proof -
  have "lw_health ex_load = Inr (200, None)" "\<forall>rd \<in> set (lw_rounds ex_load). lists_set rd"
    by (simp_all add: ex_load_def ex_round_def lists_set_def)
  from load_report_accounts [OF this refl, of "\<lambda>_. []" 2] show ?thesis by (simp add: ex_load_def)
qed

end
