(* ===== verification/BenchmarkForgelog.thy ===== *)
theory BenchmarkForgelog
  imports BenchmarkReplay
begin

text \<open>
  \<^verbatim>\<open>scripts/benchmark_forgelog.py\<close>: timing of the append and read endpoints of the ForgeLog
  service. The replies and the clock are arguments; every exception of the run becomes a pending
  artifact. Its \<^verbatim>\<open>_percentile\<close> is the function of the replay benchmark.
\<close>

record forgelog_args =
  fa_events :: int
  fa_base_url :: string
  fa_pending :: bool
  fa_dry_run :: bool

record forgelog_live =
  fb_status :: string
  fb_events :: int
  fb_append_p50_ms :: "rat option"
  fb_append_p95_ms :: "rat option"
  fb_append_throughput :: "rat option"
  fb_read_throughput :: "rat option"
  fb_wal_size_bytes :: json
  fb_last_offset :: json
  fb_committed_offset :: json
  fb_recovery_time_seconds :: "rat option"

record forgelog_benchmark = forgelog_live +
  fb_command :: string
  fb_timestamp :: string
  fb_base_url :: string
  fb_note :: "string option"

definition forgelog_to_dict :: "forgelog_benchmark \<Rightarrow> dict" where
  "forgelog_to_dict b = [
     (''status'', JStr (fb_status b)), (''events'', JInt (fb_events b)),
     (''append_p50_ms'', opt_float (fb_append_p50_ms b)), (''append_p95_ms'', opt_float (fb_append_p95_ms b)),
     (''append_throughput_events_per_sec'', opt_float (fb_append_throughput b)),
     (''read_throughput_events_per_sec'', opt_float (fb_read_throughput b)),
     (''wal_size_bytes'', fb_wal_size_bytes b), (''last_offset'', fb_last_offset b),
     (''committed_offset'', fb_committed_offset b),
     (''recovery_time_seconds'', opt_float (fb_recovery_time_seconds b)), (''command'', JStr (fb_command b)),
     (''timestamp'', JStr (fb_timestamp b)), (''base_url'', JStr (fb_base_url b)), (''note'', opt_str (fb_note b))]"

definition forgelog_command_line :: "forgelog_args \<Rightarrow> string" where
  "forgelog_command_line a = ''python scripts/benchmark_forgelog.py --events '' @ show_int (fa_events a)
     @ '' --base-url '' @ fa_base_url a"

definition forgelog_pending_artifact :: "forgelog_args \<Rightarrow> time \<Rightarrow> string \<Rightarrow> forgelog_benchmark" where
  "forgelog_pending_artifact a now note = \<lparr>fb_status = ''pending'', fb_events = fa_events a,
     fb_append_p50_ms = None, fb_append_p95_ms = None, fb_append_throughput = None, fb_read_throughput = None,
     fb_wal_size_bytes = JNull, fb_last_offset = JNull, fb_committed_offset = JNull, fb_recovery_time_seconds = None,
     fb_command = forgelog_command_line a, fb_timestamp = isoformat 0 now, fb_base_url = fa_base_url a,
     fb_note = Some note\<rparr>"

section \<open>The run\<close>

text \<open>A request whose body is not used: the client's exception, or \<^verbatim>\<open>raise_for_status()\<close>.\<close>

definition raise_for_status :: "get_reply \<Rightarrow> exn + unit" where
  "raise_for_status reply = (case reply of Inl x \<Rightarrow> Inl x
   | Inr (code, _) \<Rightarrow> if code < 200 \<or> 299 < code then Inl (HttpError (''HTTP status '' @ show_int code)) else Inr ())"

text \<open>One append per reply: the clock before it, the reply and the clock after it.\<close>

fun append_loop :: "(rat \<times> get_reply \<times> rat) list \<Rightarrow> exn + rat list" where
  "append_loop [] = Inr []"
| "append_loop ((t0, reply, t1) # rest) =
     and_then (raise_for_status reply) (\<lambda>_.
     and_then (append_loop rest) (\<lambda>latencies. Inr (e2e_ms t1 t0 # latencies)))"

record forgelog_world =
  fw_health :: get_reply
  fw_appends :: "(rat \<times> get_reply \<times> rat) list"
  fw_read :: get_reply
  fw_stats :: get_reply
  fw_start :: rat
  fw_append_end :: rat
  fw_read_start :: rat
  fw_read_end :: rat

definition per_sec :: "int \<Rightarrow> rat \<Rightarrow> rat \<Rightarrow> rat" where
  "per_sec n t0 t1 = py_round 2 (fl (of_int n / max (fl (t1 - t0)) tiny))"

text \<open>The body of the \<^verbatim>\<open>try\<close>: \<^term>\<open>None\<close> when the health check is not 200.\<close>

definition forgelog_measure :: "forgelog_args \<Rightarrow> forgelog_world \<Rightarrow> exn + forgelog_live option" where
  "forgelog_measure a W =
     and_then (fw_health W) (\<lambda>health.
       if fst health \<noteq> 200 then Inr None
       else
         and_then (append_loop (fw_appends W)) (\<lambda>latencies.
         and_then (raise_for_status (fw_read W)) (\<lambda>_.
         and_then (fetch_json (fw_stats W)) (\<lambda>stats.
           case stats of
             JObj d \<Rightarrow> Inr (Some \<lparr>fb_status = ''measured'', fb_events = fa_events a,
               fb_append_p50_ms = percentile latencies 50, fb_append_p95_ms = percentile latencies 95,
               fb_append_throughput = Some (per_sec (fa_events a) (fw_start W) (fw_append_end W)),
               fb_read_throughput = Some (per_sec (fa_events a) (fw_read_start W) (fw_read_end W)),
               fb_wal_size_bytes = dict_get d ''wal_size'', fb_last_offset = dict_get d ''last_offset'',
               fb_committed_offset = dict_get d ''committed_offset'', fb_recovery_time_seconds = None\<rparr>)
           | v \<Rightarrow> Inl (no_get v)))))"

datatype live_result = Unavailable | Noted string | Measured forgelog_live

definition run_forgelog_benchmark :: "forgelog_args \<Rightarrow> forgelog_world \<Rightarrow> live_result" where
  "run_forgelog_benchmark a W = (case forgelog_measure a W of
     Inl exc \<Rightarrow> Noted (''ForgeLog benchmark unavailable: '' @ exn_str exc)
   | Inr None \<Rightarrow> Unavailable
   | Inr (Some live) \<Rightarrow> Measured live)"

definition forgelog_artifact :: "forgelog_args \<Rightarrow> forgelog_world \<Rightarrow> time \<Rightarrow> forgelog_benchmark" where
  "forgelog_artifact a W now =
     (if fa_dry_run a \<or> fa_pending a then forgelog_pending_artifact a now ''pending benchmark requested''
      else (case run_forgelog_benchmark a W of
          Unavailable \<Rightarrow> forgelog_pending_artifact a now (''ForgeLog unavailable at '' @ fa_base_url a)
        | Noted note \<Rightarrow> forgelog_pending_artifact a now note
        | Measured live \<Rightarrow> forgelog_live.extend live
            (forgelog_benchmark.fields (forgelog_command_line a) (isoformat 0 now) (fa_base_url a) None)))"

definition forgelog_md :: "(string \<times> string) list" where
  "forgelog_md = [(''status'', ''status''), (''events'', ''events''), (''base url'', ''base_url''),
     (''append p50 ms'', ''append_p50_ms''), (''append p95 ms'', ''append_p95_ms''),
     (''append throughput events/sec'', ''append_throughput_events_per_sec''),
     (''read throughput events/sec'', ''read_throughput_events_per_sec''), (''wal size bytes'', ''wal_size_bytes''),
     (''last offset'', ''last_offset''), (''committed offset'', ''committed_offset''),
     (''recovery time seconds'', ''recovery_time_seconds''), (''note'', ''note'')]"

definition forgelog_markdown :: "(json \<Rightarrow> string) \<Rightarrow> dict \<Rightarrow> string" where
  "forgelog_markdown py_str artifact =
     join_lines ([''# ForgeLog Benchmark'', []] @ map (md_line py_str artifact) forgelog_md @ [[]])"

section \<open>Lemmas\<close>

abbreviation accepted :: "get_reply \<Rightarrow> bool" where
  "accepted reply \<equiv> \<exists>code body. reply = Inr (code, body) \<and> 200 \<le> code \<and> code \<le> 299"

lemma raise_for_status_Inr: "raise_for_status reply = Inr u \<longleftrightarrow> accepted reply"
  by (auto simp: raise_for_status_def split: sum.splits if_splits)

lemma append_loop_Inr:
  "append_loop xs = Inr ls \<Longrightarrow> length ls = length xs \<and> (\<forall>(t0, reply, t1) \<in> set xs. accepted reply)"
proof (induction xs arbitrary: ls rule: append_loop.induct)
  case (2 t0 reply t1 rest)
  then show ?case by (fastforce elim!: and_then_InrE simp: raise_for_status_Inr)
qed simp

section \<open>Properties\<close>

text \<open>The ForgeLog benchmark always writes an artifact, and one that says measured stands for a run in which
  the health check, every append, the read and the statistics were all accepted; the latency
  percentiles are then present exactly when something was appended.\<close>

theorem measured_means_accepted:
  assumes "fb_status (forgelog_artifact a W now) = ''measured''"
  shows "(\<exists>body. fw_health W = Inr (200, body)) \<and> (\<forall>(t0, reply, t1) \<in> set (fw_appends W). accepted reply)
    \<and> accepted (fw_read W) \<and> accepted (fw_stats W)
    \<and> (fb_append_p50_ms (forgelog_artifact a W now) = None \<longleftrightarrow> fw_appends W = [])"
proof -
  from assms obtain live where m: "forgelog_measure a W = Inr (Some live)"
    and art: "fb_append_p50_ms (forgelog_artifact a W now) = fb_append_p50_ms live"
    by (auto simp: forgelog_artifact_def forgelog_pending_artifact_def run_forgelog_benchmark_def
        forgelog_live.defs forgelog_benchmark.defs split: if_splits live_result.splits sum.splits option.splits)
  from m obtain latencies stats where
    h: "\<exists>body. fw_health W = Inr (200, body)" and l: "append_loop (fw_appends W) = Inr latencies"
    and r: "accepted (fw_read W)" and s: "fetch_json (fw_stats W) = Inr stats"
    and p: "fb_append_p50_ms live = percentile latencies 50"
    unfolding forgelog_measure_def
    by (auto elim!: and_then_InrE simp: raise_for_status_Inr split: if_splits json.splits)
  from s have "accepted (fw_stats W)"
    by (auto simp: fetch_json_def checked_json_def split: sum.splits prod.splits if_splits)
  moreover have "latencies = [] \<longleftrightarrow> fw_appends W = []" using append_loop_Inr [OF l] by auto
  ultimately show ?thesis using h r append_loop_Inr [OF l] by (simp add: art p percentile_def)
qed

section \<open>Witness\<close>

definition ex_forgelog :: forgelog_world where
  "ex_forgelog = \<lparr>fw_health = Inr (200, None), fw_appends = [(1, Inr (200, None), 2)], fw_read = Inr (200, None),
     fw_stats = Inr (200, Some (JObj [])), fw_start = 0, fw_append_end = 3, fw_read_start = 3, fw_read_end = 4\<rparr>"

theorem measured_means_accepted_witness:
  "fb_append_p50_ms (forgelog_artifact \<lparr>fa_events = 1, fa_base_url = ''http://localhost'', fa_pending = False, fa_dry_run = False\<rparr>
     ex_forgelog 0) \<noteq> None"
proof -
  let ?art = "forgelog_artifact \<lparr>fa_events = 1, fa_base_url = ''http://localhost'', fa_pending = False, fa_dry_run = False\<rparr> ex_forgelog 0"
  have "fb_status ?art = ''measured''"
    by (simp add: forgelog_artifact_def run_forgelog_benchmark_def forgelog_measure_def ex_forgelog_def raise_for_status_def
        fetch_json_def checked_json_def forgelog_live.defs forgelog_benchmark.defs)
  from measured_means_accepted [OF this] show ?thesis by (simp add: ex_forgelog_def)
qed

end
