(* ===== verification/ArtifactFiles.thy ===== *)
theory ArtifactFiles
  imports JsonText ChaosReplay BenchmarkForgelog
begin

text \<open>
  The \<^verbatim>\<open>main\<close> functions of \<^verbatim>\<open>scripts/\<close>: the benchmark scripts write their artifact as JSON and as Markdown,
  \<^verbatim>\<open>incident_recovery_agent.py\<close> reads the JSON back and reviews it. The file system is a map from paths
  to contents, and the output directory exists, since the scripts create it. Arguments are the parsed
  command line and the readings of the clock.
\<close>

section \<open>Paths and names\<close>

text \<open>\<^verbatim>\<open>str(Path(s))\<close>: empty parts and single dots vanish, and two leading slashes are kept.\<close>

definition posix_path :: "string \<Rightarrow> string" where
  "posix_path s =
     (let root = (if starts_with ''///'' s then ''/'' else if starts_with ''//'' s then ''//''
                  else if starts_with ''/'' s then ''/'' else []);
          parts = filter (\<lambda>p. p \<noteq> [] \<and> p \<noteq> ''.'') (py_split (CHR ''/'') s)
      in if root = [] \<and> parts = [] then ''.'' else root @ joined ''/'' parts)"

text \<open>\<^verbatim>\<open>Path(a) / b\<close>\<close>

definition path_join :: "string \<Rightarrow> string \<Rightarrow> string" where
  "path_join a b = (if starts_with ''/'' b then posix_path b else posix_path (a @ ''/'' @ b))"

text \<open>\<^verbatim>\<open>strftime('%Y%m%dT%H%M%SZ')\<close>\<close>

definition compact_time :: "time \<Rightarrow> string" where
  "compact_time t =
     (let secs = t div 1000000; days = secs div 86400; sod = secs mod 86400; (y, m, d) = civil_from_days days
      in pad 4 y @ pad 2 m @ pad 2 d @ ''T'' @ pad 2 (sod div 3600) @ pad 2 (sod div 60 mod 60) @ pad 2 (sod mod 60) @ ''Z'')"

record output_args =
  oa_output_dir :: string
  oa_artifact_name :: string

type_synonym files = "string \<rightharpoonup> string"

definition artifact_path :: "string \<Rightarrow> output_args \<Rightarrow> time \<Rightarrow> string \<Rightarrow> string" where
  "artifact_path stem out started suffix =
     path_join (oa_output_dir out)
       ((if oa_artifact_name out \<noteq> [] then oa_artifact_name out else stem @ compact_time started) @ suffix)"

text \<open>The end of each \<^verbatim>\<open>main\<close>: both files are written and their paths printed.\<close>

definition write_artifact ::
  "string \<Rightarrow> output_args \<Rightarrow> time \<Rightarrow> dict \<Rightarrow> string \<Rightarrow> files \<Rightarrow> (exn + string list) \<times> files" where
  "write_artifact stem out started artifact markdown fs =
     (let json_path = artifact_path stem out started ''.json''; md_path = artifact_path stem out started ''.md''
      in (Inr [json_path, md_path],
          fs(json_path \<mapsto> dumps_indented (JObj artifact) @ [CHR 0x0A], md_path \<mapsto> markdown)))"

section \<open>The scripts\<close>

definition benchmark_main ::
  "(json \<Rightarrow> string) \<Rightarrow> output_args \<Rightarrow> benchmark_args \<Rightarrow> 'p benchmark_world \<Rightarrow> time \<Rightarrow> time \<Rightarrow> files
    \<Rightarrow> (exn + string list) \<times> files" where
  "benchmark_main py_str out a W started now fs =
     (case benchmark_artifact py_str a W now of
        Inl x \<Rightarrow> (Inl x, fs)
      | Inr b \<Rightarrow> write_artifact ''benchmark_replay_'' out started (benchmark_to_dict b)
          (render_markdown py_str (benchmark_to_dict b)) fs)"

definition chaos_main ::
  "(json \<Rightarrow> string) \<Rightarrow> output_args \<Rightarrow> chaos_args \<Rightarrow> 'p chaos_world \<Rightarrow> time \<Rightarrow> time \<Rightarrow> files
    \<Rightarrow> (exn + string list) \<times> files" where
  "chaos_main py_str out a W started now fs =
     (case chaos_artifact py_str a W now of
        Inl x \<Rightarrow> (Inl x, fs)
      | Inr b \<Rightarrow> write_artifact ''chaos_replay_'' out started (chaos_to_dict b)
          (chaos_render_markdown py_str (chaos_to_dict b)) fs)"

definition forgelog_main ::
  "(json \<Rightarrow> string) \<Rightarrow> output_args \<Rightarrow> forgelog_args \<Rightarrow> forgelog_world \<Rightarrow> time \<Rightarrow> time \<Rightarrow> files
    \<Rightarrow> (exn + string list) \<times> files" where
  "forgelog_main py_str out a W started now fs =
     (let b = forgelog_to_dict (forgelog_artifact a W now)
      in write_artifact ''forgelog_benchmark_'' out started b (forgelog_markdown py_str b) fs)"

text \<open>The entry point \<^verbatim>\<open>run_chaos_benchmark.py\<close> imports the \<^verbatim>\<open>main\<close> of the plain benchmark.\<close>

definition run_chaos_benchmark ::
  "(json \<Rightarrow> string) \<Rightarrow> output_args \<Rightarrow> benchmark_args \<Rightarrow> 'p benchmark_world \<Rightarrow> time \<Rightarrow> time \<Rightarrow> files
    \<Rightarrow> (exn + string list) \<times> files" where
  "run_chaos_benchmark = benchmark_main"

section \<open>The recovery agent\<close>

definition load_artifact :: "files \<Rightarrow> string \<Rightarrow> exn + json" where
  "load_artifact fs path = (case fs path of
     None \<Rightarrow> Inl (FileNotFoundError path)
   | Some content \<Rightarrow> loads content)"

definition step_to_dict :: "trace_step \<Rightarrow> dict" where
  "step_to_dict s = [(''step_name'', JStr (ts_step_name s)), (''input_summary'', JStr (ts_input_summary s)),
     (''tool_name'', opt_str (ts_tool_name s)), (''tool_args_summary'', opt_str (ts_tool_args_summary s)),
     (''output_summary'', JStr (ts_output_summary s)), (''latency_ms'', opt_float (ts_latency_ms s)),
     (''status'', JStr (ts_status s)), (''error'', opt_str (ts_error s))]"

definition review_to_dict :: "review \<Rightarrow> dict" where
  "review_to_dict rv = [(''run_id'', JStr (rv_run_id rv)), (''incident_summary'', JStr (rv_incident_summary rv)),
     (''suspected_cause'', JStr (rv_suspected_cause rv)), (''evidence'', JObj (rv_evidence rv)),
     (''recommended_recovery_action'', JStr (rv_recommended_recovery_action rv)),
     (''verification_status'', JStr (rv_verification_status rv)),
     (''trace'', JList (map (\<lambda>s. JObj (step_to_dict s)) (rv_trace rv)))]"

record agent_args =
  aa_artifact :: string
  aa_base_url :: string
  aa_json :: bool

text \<open>A decoded value that is not an object has no \<^verbatim>\<open>get\<close>.\<close>

definition agent_main ::
  "(json \<Rightarrow> string) \<Rightarrow> string \<Rightarrow> (nat \<Rightarrow> rat \<times> rat) \<Rightarrow> agent_args \<Rightarrow> files \<Rightarrow> exn + string" where
  "agent_main py_str run_id clock args fs =
     and_then (load_artifact fs (posix_path (aa_artifact args))) (\<lambda>v.
       case v of
         JObj artifact \<Rightarrow>
           and_then (analyze_incident py_str run_id clock artifact
               (if aa_base_url args \<noteq> [] then Some (aa_base_url args) else None)) (\<lambda>review.
             if aa_json args then Inr (dumps_indented (JObj (review_to_dict review)))
             else Inr (rv_recommended_recovery_action review))
       | _ \<Rightarrow> Inl (no_get v))"

section \<open>Sorted keys do not matter to the agent\<close>

lemma map_of_sorted:
  assumes "distinct (map fst kvs)"
  shows "map_of (sort_key fst kvs) = map_of kvs"
proof -
  have "mset (map fst (sort_key fst kvs)) = mset (map fst kvs)" by simp
  from mset_eq_imp_distinct_iff [OF this] assms have "distinct (map fst (sort_key fst kvs))" by simp
  with assms show ?thesis by (intro map_of_inject_set [THEN iffD2]) simp_all
qed

lemma dict_get_sorted:
  assumes "distinct (map fst kvs)"
  shows "dict_get (sort_key fst (map (\<lambda>kv. (fst kv, sorted_keys (snd kv))) kvs)) k = sorted_keys (dict_get kvs k)"
proof -
  have "map_of (map (\<lambda>kv. (fst kv, sorted_keys (snd kv))) kvs) k = map_option sorted_keys (map_of kvs k)"
    by (induction kvs) auto
  then show ?thesis
    using assms by (simp add: dict_get_def map_of_sorted comp_def split: option.splits)
qed

lemma sort_key_Nil: "sort_key f xs = [] \<longleftrightarrow> xs = []"
  by (metis length_0_conv length_sort)

lemma truthy_sorted: "truthy (sorted_keys v) = truthy v"
  by (cases v) (simp_all add: sort_key_Nil)

lemma type_name_sorted: "type_name (sorted_keys v) = type_name v"
  by (cases v) simp_all

lemma int_of_json_sorted: "int_of_json (sorted_keys v) = int_of_json v"
  by (cases v) (simp_all add: int_of_json_def)

lemma sorted_string: "sorted_keys v = JStr s \<longleftrightarrow> v = JStr s"
  by (cases v) simp_all

lemma fields_sorted:
  assumes "distinct (map fst kvs)"
  shows "int_field (sort_key fst (map (\<lambda>kv. (fst kv, sorted_keys (snd kv))) kvs)) k = int_field kvs k"
    and "measured (sort_key fst (map (\<lambda>kv. (fst kv, sorted_keys (snd kv))) kvs)) = measured kvs"
  by (simp_all add: int_field_def measured_def dict_get_sorted [OF assms] truthy_sorted int_of_json_sorted sorted_string Let_def)

text \<open>The steps of the review see only the integers of some fields and whether the run was measured.\<close>

lemma steps_sorted:
  assumes "distinct (map fst kvs)"
  defines "kvs' \<equiv> sort_key fst (map (\<lambda>kv. (fst kv, sorted_keys (snd kv))) kvs)"
  shows "summarize_artifact kvs' = summarize_artifact kvs" and "analyze_stream_lag kvs' = analyze_stream_lag kvs"
    and "inspect_dead_letters kvs' = inspect_dead_letters kvs"
    and "recommend_recovery_action kvs' u = recommend_recovery_action kvs u"
    and "verify_recovery kvs' = verify_recovery kvs"
  unfolding kvs'_def summarize_artifact_def analyze_stream_lag_def inspect_dead_letters_def recommend_recovery_action_def
    verify_recovery_def fields_sorted [OF assms(1)] by (rule refl)+

lemma review_sorted:
  assumes "distinct (map fst kvs)"
  shows "and_then (analyze_incident py_str i c (sort_key fst (map (\<lambda>kv. (fst kv, sorted_keys (snd kv))) kvs)) u)
      (\<lambda>rv. Inr (rv_recommended_recovery_action rv))
    = and_then (analyze_incident py_str i c kvs u) (\<lambda>rv. Inr (rv_recommended_recovery_action rv))"
  by (cases "summarize_artifact kvs"; cases "analyze_stream_lag kvs"; cases "inspect_dead_letters kvs";
      cases "recommend_recovery_action kvs u"; cases "verify_recovery kvs")
    (simp_all add: analyze_incident_def steps_sorted [OF assms] Let_def split: prod.splits)

section \<open>Paths\<close>

definition path_parts :: "string \<Rightarrow> string list" where
  "path_parts s = filter (\<lambda>p. p \<noteq> [] \<and> p \<noteq> ''.'') (py_split (CHR ''/'') s)"

definition path_root :: "string \<Rightarrow> string" where
  "path_root s = (if starts_with ''///'' s then ''/'' else if starts_with ''//'' s then ''//''
     else if starts_with ''/'' s then ''/'' else [])"

lemma posix_path_eq:
  "posix_path s = (if path_root s = [] \<and> path_parts s = [] then ''.'' else path_root s @ joined ''/'' (path_parts s))"
  by (simp add: posix_path_def path_root_def path_parts_def Let_def)

text \<open>Parts are not empty, not a dot, and without slashes.\<close>

definition proper_parts :: "string list \<Rightarrow> bool" where
  "proper_parts ps \<longleftrightarrow> (\<forall>p \<in> set ps. p \<noteq> [] \<and> p \<noteq> ''.'' \<and> CHR ''/'' \<notin> set p)"

lemma parts_proper: "proper_parts (path_parts s)"
  by (auto simp: proper_parts_def path_parts_def dest: py_split_no_sep)

lemma split_joined: "ps \<noteq> [] \<Longrightarrow> proper_parts ps \<Longrightarrow> py_split (CHR ''/'') (joined ''/'' ps) = ps"
  by (induction ps rule: induct_list012) (simp_all add: proper_parts_def py_split_single py_split_append)

lemma parts_joined: "proper_parts ps \<Longrightarrow> path_parts (joined ''/'' ps) = ps"
  using split_joined [of ps] by (cases "ps = []") (auto simp: path_parts_def proper_parts_def filter_id_conv)

lemma parts_slash: "path_parts (CHR ''/'' # s) = path_parts s"
  by (simp add: path_parts_def)

lemma root_joined: "proper_parts ps \<Longrightarrow> path_root (joined ''/'' ps) = []"
proof (cases ps)
  case (Cons p qs)
  assume "proper_parts ps"
  with Cons obtain c t where "p = c # t" "c \<noteq> CHR ''/''" by (cases p) (auto simp: proper_parts_def)
  with Cons joined_start [of "''/''" p qs] show ?thesis by (auto simp: path_root_def starts_with_def)
qed (simp add: path_root_def starts_with_def)

lemma root_again:
  assumes "proper_parts ps" and "r \<in> {[], ''/'', ''//''}"
  shows "path_root (r @ joined ''/'' ps) = r"
proof (cases ps)
  case (Cons p qs)
  with assms(1) obtain c t where "p = c # t" "c \<noteq> CHR ''/''" by (cases p) (auto simp: proper_parts_def)
  with Cons assms(2) joined_start [of "''/''" p qs] show ?thesis by (auto simp: path_root_def starts_with_def)
qed (use assms(2) in \<open>auto simp: path_root_def starts_with_def\<close>)

lemma posix_path_idem: "posix_path (posix_path s) = posix_path s"
proof (cases "path_root s = [] \<and> path_parts s = []")
  case True
  then show ?thesis by (simp add: posix_path_eq) (simp add: path_root_def path_parts_def starts_with_def)
next
  case False
  have r: "path_root s \<in> {[], ''/'', ''//''}" by (auto simp: path_root_def)
  then have "path_parts (path_root s @ joined ''/'' (path_parts s)) = path_parts s"
    using parts_joined [OF parts_proper] by (auto simp: parts_slash)
  moreover have "posix_path s = path_root s @ joined ''/'' (path_parts s)" using False by (auto simp: posix_path_eq)
  ultimately show ?thesis
    using False root_again [OF parts_proper r, of s]
    by (simp add: posix_path_eq [of "path_root s @ joined ''/'' (path_parts s)"])
qed

lemma split_suffix:
  "CHR ''/'' \<notin> set t \<Longrightarrow> \<exists>ps p. py_split (CHR ''/'') (s @ t) = ps @ [p @ t]"
proof (induction s)
  case Nil
  then show ?case by (auto simp: py_split_single)
next
  case (Cons c s)
  then obtain ps p where "py_split (CHR ''/'') (s @ t) = ps @ [p @ t]" by blast
  then show ?case by (cases ps) (auto intro: exI [of _ "[]"])
qed

lemma joined_snoc: "joined sep (xs @ [x]) = (if xs = [] then x else joined sep xs @ sep @ x)"
  by (induction sep xs rule: joined.induct) auto

text \<open>A path keeps the end of its last part.\<close>

lemma posix_path_suffix:
  assumes "CHR ''/'' \<notin> set t" and "1 < length t"
  shows "\<exists>u. posix_path (s @ t) = u @ t"
proof -
  obtain ps p where "py_split (CHR ''/'') (s @ t) = ps @ [p @ t]" using split_suffix [OF assms(1)] by blast
  moreover have "p @ t \<noteq> []" "p @ t \<noteq> ''.''" using assms(2) by (auto simp: append_eq_Cons_conv)
  ultimately obtain qs where "path_parts (s @ t) = qs @ [p @ t]" by (simp add: path_parts_def)
  then show ?thesis by (auto simp: posix_path_eq joined_snoc)
qed

lemma artifact_path_suffix:
  assumes "CHR ''/'' \<notin> set suffix" and "1 < length suffix"
  shows "\<exists>u. artifact_path stem out t suffix = u @ suffix"
proof -
  have "\<exists>u. path_join a (b @ suffix) = u @ suffix" for a b
    using posix_path_suffix [OF assms, of b] posix_path_suffix [OF assms, of "a @ ''/'' @ b"]
    by (simp add: path_join_def)
  then show ?thesis by (simp add: artifact_path_def)
qed

lemma artifact_paths: "posix_path (artifact_path stem out t suffix) = artifact_path stem out t suffix"
    "artifact_path stem out t ''.json'' \<noteq> artifact_path stem out t ''.md''"
proof -
  show "posix_path (artifact_path stem out t suffix) = artifact_path stem out t suffix"
    by (simp add: artifact_path_def path_join_def posix_path_idem)
  obtain u v where "artifact_path stem out t ''.json'' = u @ ''.json''" "artifact_path stem out t ''.md'' = v @ ''.md''"
    using artifact_path_suffix [of "''.json''"] artifact_path_suffix [of "''.md''"] by fastforce
  then have "last (artifact_path stem out t ''.json'') \<noteq> last (artifact_path stem out t ''.md'')" by simp
  then show "artifact_path stem out t ''.json'' \<noteq> artifact_path stem out t ''.md''" by metis
qed

section \<open>Properties\<close>

lemma load_written:
  assumes "json_ok (JObj artifact)" and "write_artifact stem out started artifact md fs = (Inr [jp, mp], fs')"
  shows "load_artifact fs' (posix_path jp) = Inr (sorted_keys (JObj artifact))"
  using assms(2) loads_render [OF ws_styles(1) sorted_keys_ok [OF assms(1)], of "[CHR 0x0A]" 0]
  by (auto simp: write_artifact_def Let_def load_artifact_def dumps_indented_def is_ws_def artifact_paths)

text \<open>Reviewing a written artifact is reviewing the artifact.\<close>

lemma agent_on_written:
  assumes "json_ok (JObj artifact)" and "write_artifact stem out started artifact md fs = (Inr [jp, mp], fs')"
    and "aa_artifact args = jp" and "\<not> aa_json args"
  shows "agent_main py_str i c args fs' =
    and_then (analyze_incident py_str i c artifact (if aa_base_url args \<noteq> [] then Some (aa_base_url args) else None))
      (\<lambda>rv. Inr (rv_recommended_recovery_action rv))"
proof -
  have "distinct (map fst artifact)" using assms(1) by simp
  from review_sorted [OF this] show ?thesis
    using assms(3,4) load_written [OF assms(1,2)] by (simp add: agent_main_def)
qed

lemma benchmark_dict_ok:
  "json_ok (JObj (benchmark_to_dict b)) \<longleftrightarrow> json_ok (bl_convergence_state b)
    \<and> list_all (\<lambda>q. json_ok (opt_float q)) [bl_ingest_throughput b, bl_processing_throughput b, bl_end_to_end_throughput b,
      bl_recovery_time_seconds b, bl_p50_e2e_ms b, bl_p95_e2e_ms b, bl_p99_e2e_ms b]"
proof -
  have "json_ok (opt_str s)" for s by (simp add: opt_str_def split: option.splits)
  then show ?thesis by (simp add: benchmark_to_dict_def)
qed

lemma review_of_benchmark:
  "\<exists>rv why. analyze_incident py_str i c (benchmark_to_dict b) u = Inr rv
    \<and> recommend_recovery_action (benchmark_to_dict b) u = Inr (rv_recommended_recovery_action rv, why)"
  by (auto simp: analyze_incident_def summarize_artifact_def analyze_stream_lag_def inspect_dead_letters_def
      recommend_recovery_action_def verify_recovery_def measured_def agent_fields Let_def split: option.splits)

text \<open>C29. What the scripts write is what is read back: both files are written, at different paths, the second
  holds the rendering, no other file changes, and loading the first gives an object with its keys
  in order that has under every key the value the artifact has there, nested keys in order too.\<close>

theorem artifact_round_trip:
  assumes "json_ok (JObj artifact)"
  shows "\<exists>jp mp fs' kvs. write_artifact stem out started artifact markdown fs = (Inr [jp, mp], fs') \<and> jp \<noteq> mp
    \<and> load_artifact fs' jp = Inr (JObj kvs) \<and> sorted (map fst kvs) \<and> fst ` set kvs = fst ` set artifact
    \<and> (\<forall>k. dict_get kvs k = sorted_keys (dict_get artifact k))
    \<and> fs' mp = Some markdown \<and> (\<forall>q. q \<noteq> jp \<and> q \<noteq> mp \<longrightarrow> fs' q = fs q)"
proof -
  let ?p = "artifact_path stem out started" and ?kvs = "sort_key fst (map (\<lambda>kv. (fst kv, sorted_keys (snd kv))) artifact)"
  obtain fs' where w: "write_artifact stem out started artifact markdown fs = (Inr [?p ''.json'', ?p ''.md''], fs')"
    by (simp add: write_artifact_def Let_def)
  have "load_artifact fs' (?p ''.json'') = Inr (JObj ?kvs)"
    using load_written [OF assms w] by (simp add: artifact_paths)
  moreover have "sorted (map fst ?kvs)" "fst ` set ?kvs = fst ` set artifact" by (simp_all add: image_image)
  moreover have "dict_get ?kvs k = sorted_keys (dict_get artifact k)" for k
    using assms by (intro dict_get_sorted) simp
  moreover have "fs' (?p ''.md'') = Some markdown" "q \<noteq> ?p ''.json'' \<and> q \<noteq> ?p ''.md'' \<longrightarrow> fs' q = fs q" for q
    using w by (auto simp: write_artifact_def Let_def)
  ultimately show ?thesis using w artifact_paths(2) by blast
qed

text \<open>C30. The pipeline from the benchmark to the agent: when \<^verbatim>\<open>main\<close> of the benchmark has printed its two paths,
  the recovery agent started on the first reads the file without an error and prints the action that its
  rules give for the artifact in memory; for every measured run without dead letters that is that
  no action is required, whatever number of failed events and whatever backlog was measured.\<close>

theorem agent_reviews_written_artifact:
  assumes "benchmark_artifact py_str a W now = Inr b" and "json_ok (JObj (benchmark_to_dict b))"
    and "benchmark_main py_str out a W started now fs = (Inr [jp, mp], fs')"
    and "aa_artifact args = jp" and "\<not> aa_json args"
  shows "(\<exists>action why. agent_main py_str i c args fs' = Inr action
      \<and> recommend_recovery_action (benchmark_to_dict b) (if aa_base_url args \<noteq> [] then Some (aa_base_url args) else None) = Inr (action, why))
    \<and> (bl_status b = ''measured'' \<and> bl_dead_letters b = 0 \<longrightarrow>
        agent_main py_str i c args fs' = Inr ''No recovery action required beyond routine validation.'')"
proof -
  let ?u = "if aa_base_url args \<noteq> [] then Some (aa_base_url args) else None"
  have "write_artifact ''benchmark_replay_'' out started (benchmark_to_dict b) (render_markdown py_str (benchmark_to_dict b)) fs
      = (Inr [jp, mp], fs')" using assms(1,3) by (simp add: benchmark_main_def)
  note run = agent_on_written [OF assms(2) this assms(4,5)]
  obtain rv why where rv: "analyze_incident py_str i c (benchmark_to_dict b) ?u = Inr rv"
    "recommend_recovery_action (benchmark_to_dict b) ?u = Inr (rv_recommended_recovery_action rv, why)"
    using review_of_benchmark by blast
  then have "agent_main py_str i c args fs' = Inr (rv_recommended_recovery_action rv)" using run by simp
  with rv(2) show ?thesis using no_action_without_dead_letters [of b ?u] by auto
qed

section \<open>Witness\<close>

definition ex_output :: output_args where
  "ex_output = \<lparr>oa_output_dir = ''benchmarks'', oa_artifact_name = ''run1''\<rparr>"

definition ex_agent :: agent_args where
  "ex_agent = \<lparr>aa_artifact = ''benchmarks/run1.json'', aa_base_url = [], aa_json = False\<rparr>"

definition ex_files :: files where
  "ex_files = snd (benchmark_main (\<lambda>_. []) ex_output ex_args ex_benchmark 0 0 Map.empty)"

definition ex_small :: dict where
  "ex_small = [(''status'', JStr ''a \<newline>b''), (''events'', JInt 2)]"

theorem artifact_round_trip_witness:
  "\<exists>kvs. load_artifact (snd (write_artifact ''run_'' ex_output 0 ex_small ''text'' Map.empty)) ''benchmarks/run1.json'' = Inr (JObj kvs)
    \<and> dict_get kvs ''status'' = JStr ''a \<newline>b''"
proof -
  have a: "json_ok (JObj ex_small)" "sorted_keys (dict_get ex_small ''status'') = JStr ''a \<newline>b''"
    by (simp_all add: ex_small_def dict_get_def)
  obtain jp mp fs' kvs where w: "write_artifact ''run_'' ex_output 0 ex_small ''text'' Map.empty = (Inr [jp, mp], fs')"
    and l: "load_artifact fs' jp = Inr (JObj kvs)" "\<forall>k. dict_get kvs k = sorted_keys (dict_get ex_small k)"
    using artifact_round_trip [OF a(1), of "''run_''" ex_output 0 "''text''" Map.empty] by metis
  have "artifact_path ''run_'' ex_output 0 ''.json'' = ''benchmarks/run1.json''" by code_simp
  with w have "jp = ''benchmarks/run1.json''" by (simp add: write_artifact_def Let_def)
  with w l a(2) show ?thesis by simp
qed

text \<open>A measured run.\<close>

lemma ex_artifact:
  "case benchmark_artifact (\<lambda>_. []) ex_args ex_benchmark 0 of
     Inl x \<Rightarrow> False
   | Inr b \<Rightarrow> bl_status b = ''measured'' \<and> bl_dead_letters b = 0 \<and> json_ok (JObj (benchmark_to_dict b))"
  by code_simp

theorem agent_reviews_written_artifact_witness:
  "agent_main (\<lambda>_. []) ''run'' (\<lambda>_. (0, 0)) ex_agent ex_files = Inr ''No recovery action required beyond routine validation.''"
proof -
  obtain b where b: "benchmark_artifact (\<lambda>_. []) ex_args ex_benchmark 0 = Inr b" "bl_status b = ''measured''"
    "bl_dead_letters b = 0" "json_ok (JObj (benchmark_to_dict b))"
    using ex_artifact by (auto split: sum.splits)
  have "artifact_path ''benchmark_replay_'' ex_output 0 ''.json'' = ''benchmarks/run1.json''"
    "artifact_path ''benchmark_replay_'' ex_output 0 ''.md'' = ''benchmarks/run1.md''" by code_simp+
  then have "benchmark_main (\<lambda>_. []) ex_output ex_args ex_benchmark 0 0 Map.empty = (Inr [''benchmarks/run1.json'', ''benchmarks/run1.md''], ex_files)"
    by (simp add: ex_files_def benchmark_main_def b(1) write_artifact_def Let_def)
  from agent_reviews_written_artifact [OF b(1,4) this] b(2,3) show ?thesis by (simp add: ex_agent_def)
qed

end
