(* ===== verification/Spec2Isabelle.thy ===== *)
theory Spec2Isabelle
  imports ColumnTypes SubmissionSpec AiInsights Health Logging Routing DemoEndpoint ConvergenceApi LoadTest ArtifactFiles
begin

text \<open>
  A model of ReplayForge, the Python control plane of an event-processing system, and the theorems
  that make it correct.

  \<^bold>\<open>The program.\<close> Clients submit events to an HTTP API. A submission is stored in PostgreSQL, keyed by
  application and idempotency key, and announced on a Redis stream. Workers read the stream as one
  consumer group, run a handler, record every attempt, and acknowledge the entry. A failed event
  waits in a Redis sorted set until a scheduler thread moves it to a second stream; an event that
  fails its last attempt is dead-lettered and can be replayed through the API. Reports read the
  database and Redis and say how far the system is.

  \<^bold>\<open>The theories\<close>, in the order of their dependencies:
  \<^item> \<open>Prelude\<close>: decoded JSON, exceptions as values (\<open>exn\<close>, results of type \<open>exn + 'a\<close>), Python's string
    functions, queries on lists of rows, and the shared simplification rules.
  \<^item> \<open>Binary64\<close>: rounding to double precision on rational numbers, with an unbounded exponent:
    monotonicity, exactness, Python's \<^verbatim>\<open>int\<close> and \<^verbatim>\<open>round\<close>.
  \<^item> \<open>Models\<close> (\<^verbatim>\<open>api/app/models.py\<close>, \<^verbatim>\<open>schemas.py\<close>): a record per table, the database as a record of row
    lists, insertions that enforce the declared constraints and refuse values that do not fit the
    columns, and the invariants \<open>schema_ok\<close> and \<open>rows_typed\<close>.
  \<^item> \<open>Migrations\<close> (\<^verbatim>\<open>alembic/\<close> and the class declarations of \<^verbatim>\<open>models.py\<close>): the migration up and down as
    statements on a \<open>catalog\<close>, and the catalog the mapped classes declare. \<open>ColumnTypes\<close>: the rows of every
    reachable state have the types the migration declares.
  \<^item> \<open>Config\<close> (\<^verbatim>\<open>config.py\<close>), \<open>RetryPolicy\<close> (\<^verbatim>\<open>core/retry_policy.py\<close>, locale \<open>retry_policy\<close>),
    \<open>RedisStreams\<close> (\<^verbatim>\<open>core/redis_streams.py\<close>): the server is a record of commands; what the
    program relies on is the locale \<open>redis_service\<close>, interpreted on an in-memory server.
  \<^item> \<open>Idempotency\<close> (\<^verbatim>\<open>core/idempotency.py\<close>), \<open>EventBackends\<close> (\<^verbatim>\<open>core/event_backends.py\<close>), \<open>Events\<close>
    (\<^verbatim>\<open>api/events.py\<close>): submission, under interference of other transactions. \<open>SubmissionSpec\<close>: the
    abstract registry \<open>submit_spec\<close> that submission refines, through the abstraction \<open>registry_of\<close>.
  \<^item> \<open>Replay\<close> (\<^verbatim>\<open>core/replay.py\<close>, \<^verbatim>\<open>api/deadletters.py\<close>), \<open>RetryScheduler\<close>
    (\<^verbatim>\<open>workers/retry_scheduler.py\<close>), \<open>Heartbeat\<close> (\<^verbatim>\<open>workers/heartbeat.py\<close>, \<^verbatim>\<open>api/workers.py\<close>),
    \<open>CheckoutSimulator\<close> (\<^verbatim>\<open>demo/\<close>), \<open>DemoEndpoint\<close> (the demo endpoint, behind its key check).
  \<^item> \<open>Worker\<close> (\<^verbatim>\<open>workers/worker.py\<close>): the process from start to exit, with its ORM session (the object it
    holds survives commits, so it may be stale), both handlers and every exception path. The
    state is \<open>world\<close>: database, Redis, and the list of states made visible so far. \<open>Delivery\<close> holds the
    lemmas on one message, \<open>WorkerRuns\<close> those on runs and batches.
  \<^item> \<open>System\<close>: all writers as one transition relation \<open>sys_step\<close>, its invariant and its history.
  \<^item> \<open>Convergence\<close>, \<open>Metrics\<close>, \<open>Workflows\<close>, \<open>Insights\<close>, \<open>IncidentSummary\<close>, \<open>AiInsights\<close>, \<open>Health\<close>: the
    reports and probes (\<^verbatim>\<open>core/convergence.py\<close>, \<^verbatim>\<open>api/metrics.py\<close>, \<^verbatim>\<open>api/workflows.py\<close>,
    \<^verbatim>\<open>api/insights.py\<close>, \<^verbatim>\<open>core/incident_summary.py\<close>, \<^verbatim>\<open>core/ai_insights.py\<close>, \<^verbatim>\<open>api/health.py\<close>). \<open>ConvergenceApi\<close>:
    the convergence report as it is sent, and that the figures of the artifacts are those of the report.
  \<^item> \<open>Security\<close> (\<^verbatim>\<open>core/security.py\<close> and the middleware of \<^verbatim>\<open>main.py\<close>): API keys, rate limiter (locale
    \<open>redis_limiter\<close>, which extends \<open>redis_service\<close>), headers, body cap, the order of the stack.
    \<open>Routing\<close>: the routes of \<^verbatim>\<open>main.py\<close> and \<^verbatim>\<open>api/\<close> in their order, and the routed application inside the stack.
  \<^item> \<open>JsonText\<close>: what the program uses of Python's \<^verbatim>\<open>json\<close> module, as text: \<^verbatim>\<open>dumps\<close> on one line and indented with sorted
    keys, and \<^verbatim>\<open>loads\<close> as a parser whose termination is proved. Code points are below 256, floats
    are written without exponent, and there is no NaN or infinity.
  \<^item> \<open>Logging\<close> (\<^verbatim>\<open>core/logging.py\<close>): extra fields of log calls, the JSON lines, set-up.
  \<^item> \<open>Harness\<close>, \<open>RecoveryAgent\<close>, \<open>BenchmarkReplay\<close>, \<open>ChaosReplay\<close>, \<open>LoadTest\<close>, \<open>BenchmarkForgelog\<close>
    (\<^verbatim>\<open>scripts/\<close>): the benchmark clients, their reports, and the review of the artifacts. \<open>ArtifactFiles\<close>: the
    entry points of the scripts, which name and write the artifact files, and of the agent, which
    reads one back. The file system is a map from paths to texts; the output directory exists.

  \<^bold>\<open>What is shown.\<close> Delivery: a message is acknowledged only when its event is settled, and what each
  outcome records. Retries: budget, backoff, the scheduler's exactness under races, and that a failed
  attempt comes back. From end to end: a submission reaches a worker, which settles it. Submission: a refinement of an atomic registry whatever runs beside it, one
  event per key, stored before the answer, announced once. Replay: what it writes, at most once. The whole system: in every reachable
  state the schema holds and every event is in one of six states; the history is append-only.
  Reports: the convergence verdict against its specification, figures that add up, percentiles of
  the right rank, listings that agree. Security: decision tables, the bound of the limiter, and that a write without a key reaches no endpoint but one.
  Schema: the migration builds what the classes declare and is undone by its downgrade, and rows keep their types.
  Files and lines: what is encoded as JSON is decoded as it was, a log record is one line, and the agent reads the
  artifact that the benchmark wrote.
  Some theorems state what goes wrong: entries a new worker claims and never processes, a failed
  acknowledgement that reopens a success, a replay lost to a stale session, a worker whose row was
  collected, a retry lost between two commands, reports that look better than the state.

  \<^bold>\<open>Arguments instead of effects.\<close> Clock readings, random numbers, fresh ids, HTTP replies, the hash
  function, the \<^verbatim>\<open>avg\<close> and \<^verbatim>\<open>LIKE\<close> of the server and the language-model client are arguments. What other processes
  do between two statements of a transaction is a function on the database, restricted to
  what respects the schema. Loops over messages, rounds and wake-ups recurse on the list of what they
  get, so no fuel is needed: a loop that runs until a deadline or a shutdown is given the turns
  it takes before it. \<open>timestamp\<close>s count microseconds. Rows a query leaves unordered are in table order.

  \<^bold>\<open>Not modelled.\<close> The migration tool's version table and offline mode, and the CORS middleware; connection
  pools and transaction isolation below the statement; float overflow and underflow (the
  numbers here are far from both); the syntax of command lines (the parsed options are arguments), the text the load test and
  the demo print, and failures of the file system other than a missing file; the
  Go worker, the ForgeLog service and the dashboard, which are not Python.
\<close>

section \<open>Properties that span components\<close>

text \<open>The ids a worker draws are new and no other process interferes with the delivery.\<close>

definition draws_fresh :: "'r message_env \<Rightarrow> db \<Rightarrow> bool" where
  "draws_fresh E d \<longleftrightarrow> st_attempt_id (me_success E) \<notin> at_id ` set (event_attempts d)
     \<and> st_attempt_id (me_failure E) \<notin> at_id ` set (event_attempts d)
     \<and> st_dead_letter_id (me_failure E) \<notin> dl_id ` set (dead_letters d)
     \<and> me_others E = id \<and> me_others_redis E = id"

lemma retry_result:
  assumes "redis_service R up zs fresh pend slen" and "deliverable E m e s (w_db w)" and "up (w_redis w)"
    and "process_event_stub (me_random E) e = Inl x" and "ev_attempt_count e + 1 < ev_max_attempts e"
    and "process_message R E st m s w = (res, s1, w1)"
  shows "recorded (retrying_event E x e)
        (failed_attempt (me_failure E) s e (ev_attempt_count e + 1) (me_started_at E) (exn_str x)) [] (w_db w) (w_db w1)"
    and "up (w_redis w1)" and "zs (w_redis w1) RETRY_ZSET = (zs (w_redis w) RETRY_ZSET)(ev_id e \<mapsto> timestamp_of_us (retry_time E e))"
    and "ss_event s1 = Some (retrying_event E x e)" and "\<not> ss_failed s1" and "res = Inr ()"
    and "slen (w_redis w1) = slen (w_redis w)"
proof -
  from redis_service.deliver_retry [OF assms(1-5), of st] obtain d1 d2 r1 r' s' where
    p: "process_message R E st m s w = (Inr (), s',
        w\<lparr>w_db := d2, w_redis := r', w_seen := w_seen w @ [(d1, w_redis w), (d2, w_redis w), (d2, r1), (d2, r')]\<rparr>)"
    and r: "recorded (retrying_event E x e)
        (failed_attempt (me_failure E) s e (ev_attempt_count e + 1) (me_started_at E) (exn_str x)) [] (w_db w) d2"
      "up r'" "zs r' = (zs (w_redis w))(RETRY_ZSET := (zs (w_redis w) RETRY_ZSET)
          (ev_id e := Some (timestamp_of_us (retry_time E e))))"
      "ss_event s' = Some (retrying_event E x e)" "\<not> ss_failed s'" "slen r' = slen (w_redis w)"
    by blast
  from p assms(6) have e: "w_db w1 = d2" "w_redis w1 = r'" "s1 = s'" "res = Inr ()" by auto
  show "recorded (retrying_event E x e)
        (failed_attempt (me_failure E) s e (ev_attempt_count e + 1) (me_started_at E) (exn_str x)) [] (w_db w) (w_db w1)"
    and "up (w_redis w1)" and "zs (w_redis w1) RETRY_ZSET = (zs (w_redis w) RETRY_ZSET)(ev_id e \<mapsto> timestamp_of_us (retry_time E e))"
    and "ss_event s1 = Some (retrying_event E x e)" and "\<not> ss_failed s1" and "res = Inr ()"
    and "slen (w_redis w1) = slen (w_redis w)"
    using r unfolding e by simp_all
qed

lemma retry_due:
  assumes "0 \<le> st_jitter (me_failure E)" and "st_jitter (me_failure E) < 1" and "0 \<le> st_retry_from (me_failure E)"
    and "timestamp_of_us (st_retry_from (me_failure E) + seconds 72) \<le> now"
  shows "0 \<le> timestamp_of_us (retry_time E e)" and "timestamp_of_us (retry_time E e) \<le> now"
proof -
  have w: "0 \<le> retry_wait (me_failure E) n \<and> retry_wait (me_failure E) n \<le> 72" for n
    unfolding retry_wait_def by (rule backoff.wait_range [OF assms(1,2)])
  then have "0 \<le> retry_time E e" using assms(3) by (simp add: retry_time_def)
  then show "0 \<le> timestamp_of_us (retry_time E e)" by (simp add: timestamp_of_us_def fl_nonneg)
  have "retry_time E e \<le> st_retry_from (me_failure E) + seconds 72" using w by (simp add: retry_time_def)
  then have "timestamp_of_us (retry_time E e) \<le> timestamp_of_us (st_retry_from (me_failure E) + seconds 72)"
    unfolding timestamp_of_us_def by (intro fl_mono divide_right_mono) (simp_all only: of_int_le_iff)
  with assms(4) show "timestamp_of_us (retry_time E e) \<le> now" by simp
qed

text \<open>C6. A failed attempt comes back: when the handler raises before the last attempt, the worker records the
  failure, and a scheduler that wakes up at least 72 seconds after it puts the event back on the
  retry stream and takes it off the retry set; the new entry can be delivered again to the
  same worker, with the attempt count one higher.\<close>

theorem failed_attempt_comes_back:
  fixes R :: "'r redis_api"
  assumes "redis_service R up zs fresh pend slen" and "deliverable E m e s (w_db w)" and "up (w_redis w)"
    and "process_event_stub (me_random E) e = Inl x" and "ev_attempt_count e + 1 < ev_max_attempts e"
    and "0 \<le> st_jitter (me_failure E)" and "st_jitter (me_failure E) < 1" and "0 \<le> st_retry_from (me_failure E)"
    and "process_message R E st m s w = (res, s1, w1)"
    and "timestamp_of_us (st_retry_from (me_failure E) + seconds 72) \<le> now"
    and "finite {k. zs (w_redis w) RETRY_ZSET k \<noteq> None}"
    and "slen (w_redis w) STREAM_RETRY + card {k. zs (w_redis w) RETRY_ZSET k \<noteq> None} < 100000"
  shows "\<exists>n r2 i e2. flush_due_retries R now (w_redis w1) = (Inr n, r2)
    \<and> (i, [(''event_id'', ev_id e)]) \<in> set (fresh r2 STREAM_RETRY) \<and> zs r2 RETRY_ZSET (ev_id e) = None
    \<and> get_event (ev_id e) (w_db w1) = Some e2 \<and> ev_status e2 = ''retrying'' \<and> ev_attempt_count e2 = ev_attempt_count e + 1
    \<and> (\<forall>E2 :: 'r message_env. draws_fresh E2 (w_db w1) \<longrightarrow> deliverable E2 (i, [(''event_id'', ev_id e)]) e2 s1 (w_db w1))"
proof -
  note r = retry_result [OF assms(1-5,9)]
  let ?e = "retrying_event E x e"
  have dom: "{k. zs (w_redis w1) RETRY_ZSET k \<noteq> None} = insert (ev_id e) {k. zs (w_redis w) RETRY_ZSET k \<noteq> None}"
    unfolding r(3) by auto
  have room: "finite {k. zs (w_redis w1) RETRY_ZSET k \<noteq> None}"
    "slen (w_redis w1) STREAM_RETRY + card {k. zs (w_redis w1) RETRY_ZSET k \<noteq> None} \<le> 100000"
    unfolding dom r(7) using assms(11,12) by (simp_all add: card_insert_if)
  obtain ids r2 where f: "flush_due_retries R now (w_redis w1) = (Inr (length ids), r2)"
    and ids: "set ids = {k. \<exists>sc. zs (w_redis w1) RETRY_ZSET k = Some sc \<and> 0 \<le> sc \<and> sc \<le> now}"
    and new: "map snd (fresh r2 STREAM_RETRY) = map snd (fresh (w_redis w1) STREAM_RETRY) @ map id_fields ids"
    and gone: "zs r2 RETRY_ZSET = (\<lambda>k. if k \<in> set ids then None else zs (w_redis w1) RETRY_ZSET k)"
    using redis_service.flush_due_moves [OF assms(1) r(2) room, of now] by blast
  have due: "ev_id e \<in> set ids" unfolding ids using retry_due [OF assms(6-8,10), of e] by (simp add: r(3))
  then have "id_fields (ev_id e) \<in> set (map snd (fresh r2 STREAM_RETRY))" unfolding new by simp
  then obtain i where i: "(i, id_fields (ev_id e)) \<in> set (fresh r2 STREAM_RETRY)" by auto
  have g: "get_event (ev_id e) (w_db w1) = Some ?e" and ok: "schema_ok (w_db w1)" and wk: "workers (w_db w1) = workers (w_db w)"
    using r(1) by (simp_all add: recorded_def retrying_event_def)
  have "ev_id e \<noteq> []" and "ss_worker_id s \<in> wk_id ` set (workers (w_db w))" using assms(2) by (simp_all add: deliverable_defs)
  moreover have "ss_worker_id s1 = ss_worker_id s" using process_message_session [OF assms(9)] by simp
  ultimately have "deliverable E2 (i, id_fields (ev_id e)) ?e s1 (w_db w1)" if "draws_fresh E2 (w_db w1)" for E2 :: "'r message_env"
    using that g ok wk r(4,5) by (simp add: deliverable_defs draws_fresh_def retrying_event_def terminal_statuses_def)
  moreover have "ev_status ?e = ''retrying''" "ev_attempt_count ?e = ev_attempt_count e + 1"
    by (simp_all add: retrying_event_def)
  moreover have "zs r2 RETRY_ZSET (ev_id e) = None" unfolding gone using due by simp
  ultimately show ?thesis using f i g by blast
qed

lemma delivery_settles:
  assumes "redis_service R up zs fresh pend slen" and "deliverable E m e s (w_db w)" and "up (w_redis w)"
  shows "\<exists>s' w' a. process_message R E st m s w = (Inr (), s', w') \<and> settled (ev_id e) (w_db w') (zs (w_redis w'))
    \<and> event_attempts (w_db w') = event_attempts (w_db w) @ [a] \<and> at_event_id a = ev_id e
    \<and> at_attempt_number a = ev_attempt_count e + 1 \<and> m \<notin> set (pend (w_redis w') st)
    \<and> (process_event_stub (me_random E) e = Inr () \<longrightarrow> get_event (ev_id e) (w_db w') = Some (succeeded_event E e))"
proof (cases "process_event_stub (me_random E) e")
  case (Inr u)
  then have "process_event_stub (me_random E) e = Inr ()" by simp
  from redis_service.deliver_success [OF assms this, of st] show ?thesis
    by (fastforce simp: settled_def recorded_def succeeded_event_def succeeded_attempt_def)
next
  case (Inl x)
  show ?thesis
  proof (cases "ev_attempt_count e + 1 < ev_max_attempts e")
    case True
    from redis_service.deliver_retry [OF assms Inl this, of st] Inl show ?thesis
      by (fastforce simp: settled_def recorded_def retrying_event_def failed_attempt_def)
  next
    case False
    then have "ev_max_attempts e \<le> ev_attempt_count e + 1" by simp
    from redis_service.deliver_dead_letter [OF assms Inl this, of st] Inl show ?thesis
      by (fastforce simp: settled_def recorded_def dead_event_def dead_letter_row_def failed_attempt_def)
  qed
qed

lemma accepted_is_queued:
  assumes "schema_ok d" and "benign (env_app E)" and "benign (env_ev E)" and "fresh_ids E p d" and "payload_fits p"
    and "ingest_event R H S E t p d sv = (Inr out, d', sv')" and "\<not> eo_duplicate out"
  shows "schema_ok d'" and "get_event (new_event_id E) d' = Some (eo_event out)"
    and "sv' = snd (append_event_to_backend R H S (eo_event out) p sv)" and "ev_id (eo_event out) = new_event_id E"
    and "ev_status (eo_event out) = ''queued''" and "ev_attempt_count (eo_event out) = 0"
    and "ev_payload_json (eo_event out) = ec_payload p" and "ev_metadata_json (eo_event out) = ec_metadata p"
proof -
  obtain e dup d1 where g: "get_or_create_event E p d = (Inr (e, dup), d1)" and ok: "schema_ok d1"
    and des: "designates p e d1" and new: "\<not> dup \<Longrightarrow> e = new_event E (ev_application_id e) p"
    using get_or_create_event_ok [OF assms(1-5)] by metis
  let ?q = "write_status ''queued'' t e" and ?d = "update_event (ev_id e) (write_status ''queued'' t) d1"
  have "\<not> dup" using assms(6,7) by (auto simp: ingest_event_cases [OF g] split: if_splits)
  then have i: "d' = ?d" "eo_event out = ?q" "sv' = snd (append_event_to_backend R H S ?q p sv)"
    and e: "e = new_event E (ev_application_id e) p"
    using assms(6) new by (auto simp: ingest_event_cases [OF g] publishes_def event_model_validate_def)
  show ok': "schema_ok d'" unfolding i using update_event_ok [OF ok] by simp
  have f: "ev_id e = new_event_id E" "ev_attempt_count e = 0" "ev_payload_json e = ec_payload p" "ev_metadata_json e = ec_metadata p"
    by (subst e, simp add: new_event_def)+
  have "?q \<in> set (events d')" unfolding i using des by (intro in_update_status [OF ok]) (simp add: designates_def)
  from get_event_in [OF ok' this] show "get_event (new_event_id E) d' = Some (eo_event out)" by (simp add: i f)
  show "sv' = snd (append_event_to_backend R H S (eo_event out) p sv)" "ev_id (eo_event out) = new_event_id E"
    "ev_status (eo_event out) = ''queued''" "ev_attempt_count (eo_event out) = 0"
    "ev_payload_json (eo_event out) = ec_payload p" "ev_metadata_json (eo_event out) = ec_metadata p"
    using f by (simp_all add: i write_status_def)
qed

text \<open>C7. A submission is processed: the event of an accepted new submission gets an entry on the incoming stream,
  and the worker that reads the entry settles the event and acknowledges it, whatever the
  handler does: one attempt with number one is recorded, and the event has succeeded, waits in the retry set
  under the time its row names, or is dead-lettered and can be replayed. If the handler returns, it
  has succeeded, with the payload that was submitted.\<close>

theorem submission_is_processed:
  fixes R :: "'r redis_api"
  assumes "redis_service R up zs fresh pend slen" and "up (sv_redis sv)" and "slen (sv_redis sv) STREAM_INCOMING < 100000"
    and "normalized_event_backend S = ''redis''" and "schema_ok d" and "benign (env_app E)" and "benign (env_ev E)"
    and "fresh_ids E p d" and "payload_fits p" and "new_event_id E \<noteq> []"
    and "ingest_event R H S E t p d sv = (Inr out, w_db w, sv')" and "\<not> eo_duplicate out"
    and "draws_fresh M (w_db w)" and "ss_event s = None" and "\<not> ss_failed s" and "ss_worker_id s \<in> wk_id ` set (workers (w_db w))"
    and "up (w_redis w)"
  shows "\<exists>i s' w' a. fresh (sv_redis sv') STREAM_INCOMING
        = fresh (sv_redis sv) STREAM_INCOMING @ [(i, [(''event_id'', new_event_id E)])]
    \<and> process_message R M STREAM_INCOMING (i, [(''event_id'', new_event_id E)]) s w = (Inr (), s', w')
    \<and> settled (new_event_id E) (w_db w') (zs (w_redis w'))
    \<and> (i, [(''event_id'', new_event_id E)]) \<notin> set (pend (w_redis w') STREAM_INCOMING)
    \<and> event_attempts (w_db w') = event_attempts (w_db w) @ [a] \<and> at_event_id a = new_event_id E \<and> at_attempt_number a = 1
    \<and> (process_event_stub (me_random M) (eo_event out) = Inr () \<longrightarrow> (\<exists>e. get_event (new_event_id E) (w_db w') = Some e
         \<and> ev_status e = ''succeeded'' \<and> ev_payload_json e = ec_payload p \<and> ev_metadata_json e = ec_metadata p))"
proof -
  note q = accepted_is_queued [OF assms(5-9,11,12)]
  obtain i where i: "fresh (sv_redis sv') STREAM_INCOMING
      = fresh (sv_redis sv) STREAM_INCOMING @ [(i, [(''event_id'', new_event_id E)])]"
    using append_publishes [OF assms(1-4), of H "eo_event out" p] q(3,4) by auto
  have "deliverable M (i, [(''event_id'', new_event_id E)]) (eo_event out) s (w_db w)"
    using assms(10,13-16) q by (simp add: deliverable_defs draws_fresh_def terminal_statuses_def)
  from delivery_settles [OF assms(1) this assms(17), of STREAM_INCOMING] i q(4,6-8) show ?thesis
    by (fastforce simp: succeeded_event_def)
qed

lemma known_status_partition:
  "\<forall>e \<in> set es. ev_status e \<in> set event_statuses \<Longrightarrow>
    int (length es) = int (count_where (has_status ''succeeded'') es) + int (count_where (has_status ''dead_lettered'') es)
      + int (count_where (has_status ''retrying'') es) + int (count_where (has_status ''queued'') es)
      + int (count_where (has_status ''processing'') es) + int (count_where (has_status ''received'') es)
    \<and> count_where (has_status ''failed'') es = 0"
  by (induction es) (auto simp: event_statuses_def has_status_def)

lemma known_status_summary:
  assumes "\<forall>e \<in> set (events d). ev_status e \<in> set event_statuses" and "list_workflows n k d = Inr ws" and "w \<in> set ws"
  shows "ws_total_events w = ws_succeeded w + ws_failed w + ws_in_flight w \<and> ws_failed w = ws_dead_lettered w"
proof -
  from assms(2) have "set ws \<subseteq> workflow_row ` set (group_rows ev_workflow_id (events d))"
    by (auto simp: list_workflows_def sql_page_map dest!: sql_page_subset)
  with assms(3) obtain g where g: "g \<in> set (group_rows ev_workflow_id (events d))" "w = workflow_row g" by blast
  from g(1) have "set (snd g) \<subseteq> set (events d)" by (simp add: in_group_rows)
  with assms(1) have k: "\<forall>e \<in> set (snd g). ev_status e \<in> set event_statuses" by blast
  then have "\<forall>e \<in> set (snd g). SUCCEEDED e \<or> FAILED e \<or> IN_FLIGHT e"
    by (auto simp: event_statuses_def SUCCEEDED_def FAILED_def IN_FLIGHT_def)
  from summary_classes [OF this] have "int (length (snd g)) = int (count_where SUCCEEDED (snd g))
      + int (count_where FAILED (snd g)) + int (count_where IN_FLIGHT (snd g))" by linarith
  moreover have "count_where FAILED (snd g) = count_where DEAD_LETTERED (snd g)"
    using k unfolding count_where_def
    by (intro arg_cong [where f = length] filter_cong) (auto simp: event_statuses_def FAILED_def DEAD_LETTERED_def)
  ultimately show ?thesis unfolding g(2) by (cases g) (simp add: workflow_row_def)
qed

text \<open>C39. On every reachable state the reports account for every event: the dashboard's total is the sum of
  its succeeded, dead-lettered, retrying, queued and processing figures and the events just received,
  its figure of failed events is zero, and in every workflow summary the total is the sum of
  the succeeded, failed and in-flight figures, failed and dead-lettered being the same.\<close>

theorem reachable_reports_add_up:
  assumes "(sys_step R H S)\<^sup>*\<^sup>* (empty_db, sv) (d, sv')" and "get_metrics R ts t d r = (m, r')"
  shows "mo_failed m = 0
    \<and> mo_total_events m = mo_succeeded m + mo_dead_lettered m + mo_retrying m + mo_queued m + mo_processing m
        + int (count_where (has_status ''received'') (events d))
    \<and> (\<forall>ws. list_workflows n k d = Inr ws \<longrightarrow> (\<forall>w \<in> set ws. ws_total_events w = ws_succeeded w + ws_failed w + ws_in_flight w
        \<and> ws_failed w = ws_dead_lettered w))"
proof -
  have "lifecycle_ok d" using reachable_history [OF assms(1)] lifecycle_ok_empty by simp
  then have k: "\<forall>e \<in> set (events d). ev_status e \<in> set event_statuses"
    by (simp add: lifecycle_ok_def statuses_upto_def)
  have fields: "mo_total_events m = int (length (events d))"
    "mo_failed m = int (count_where (has_status ''failed'') (events d))"
    "mo_succeeded m = int (count_where (has_status ''succeeded'') (events d))"
    "mo_dead_lettered m = int (count_where (has_status ''dead_lettered'') (events d))"
    "mo_retrying m = int (count_where (has_status ''retrying'') (events d))"
    "mo_queued m = int (count_where (has_status ''queued'') (events d))"
    "mo_processing m = int (count_where (has_status ''processing'') (events d))"
    using metrics_counts [OF assms(2)] by (simp_all add: has_status_def [abs_def])
  from known_status_partition [OF k] known_status_summary [OF k] show ?thesis unfolding fields by simp
qed

section \<open>Witnesses\<close>

theorem reachable_reports_add_up_witness:
  "mo_failed (fst (get_metrics mem_api (1, 2, 3) 4 (fst ex_submitted) mem_init)) = 0"
proof -
  obtain m r' where m: "get_metrics mem_api (1, 2, 3) 4 (fst ex_submitted) mem_init = (m, r')"
    by (cases "get_metrics mem_api (1, 2, 3) 4 (fst ex_submitted) mem_init")
  from reachable_reports_add_up [OF ex_submit_run m] m show ?thesis by simp
qed

definition ex_db1 :: db where
  "ex_db1 = ex_db\<lparr>workers := [ex_worker ''w1'' 0]\<rparr>"

theorem submission_is_processed_witness:
  "\<exists>i s' w'. process_message mem_api ex_menv STREAM_INCOMING (i, [(''event_id'', ''e1'')]) ex_session
      \<lparr>w_db = fst (snd (ingest_event mem_api no_http ex_settings (ex_env (\<lambda>d. d) ''e1'') 5 ex_payload ex_db1 ex_sv)),
        w_redis = mem_init, w_seen = []\<rparr> = (Inr (), s', w')
    \<and> settled ''e1'' (w_db w') (mem_zs (w_redis w'))"
proof -
  let ?E = "ex_env (\<lambda>d. d) ''e1''"
  have g: "get_or_create_event ?E ex_payload ex_db1 = (Inr (ex_rival, False), rival_insert ex_rival ex_db1)"
    by (simp add: get_or_create_event_def get_or_create_application_def ex_defs ex_db1_def rival_insert_def
        insert_event_def new_event_def fits_eval scalar_one_or_none_def visible_def Let_def)
  have id: "ev_id ex_rival = ''e1''" by (simp add: ex_rival_def new_event_def ex_env_def)
  obtain out d' sv' where i: "ingest_event mem_api no_http ex_settings ?E 5 ex_payload ex_db1 ex_sv = (Inr out, d', sv')"
    and out: "\<not> eo_duplicate out" and d': "d' = update_event ''e1'' (write_status ''queued'' 5) (rival_insert ex_rival ex_db1)"
    by (simp add: ingest_event_cases [OF g] publishes_def id)
  let ?w = "\<lparr>w_db = d', w_redis = mem_init, w_seen = []\<rparr>"
  have "mr_up (sv_redis ex_sv)" "mem_slen (sv_redis ex_sv) STREAM_INCOMING < 100000" "mr_up (w_redis ?w)"
    by (simp_all add: ex_sv_def mem_init_def mem_slen_def)
  note redis = this
  have rival: "event_attempts (rival_insert e d) = event_attempts d" "dead_letters (rival_insert e d) = dead_letters d"
    "workers (rival_insert e d) = workers d" for e d
    by (auto simp: rival_insert_def insert_event_def split: option.splits)
  have "schema_ok ex_db1" by (simp add: ex_db1_def ex_db_def ex_app_def empty_db_def ex_worker_def schema_ok_def keys_ok_defs)
  moreover have "benign (env_app ?E)" "benign (env_ev ?E)" "fresh_ids ?E ex_payload ex_db1" "new_event_id ?E \<noteq> []"
    by (simp_all add: ex_env_def fresh_ids_def ex_db1_def ex_db_def ex_app_def empty_db_def)
  moreover have "draws_fresh ex_menv (w_db ?w)" "ss_worker_id ex_session \<in> wk_id ` set (workers (w_db ?w))"
    by (simp_all add: d' rival draws_fresh_def ex_menv_def ex_session_def ex_worker_def update_event_def ex_db1_def ex_db_def empty_db_def)
  moreover have "ss_event ex_session = None" "\<not> ss_failed ex_session" by (simp_all add: ex_session_def)
  moreover have "ingest_event mem_api no_http ex_settings ?E 5 ex_payload ex_db1 ex_sv = (Inr out, w_db ?w, sv')" using i by simp
  ultimately have "\<exists>i s' w'. process_message mem_api ex_menv STREAM_INCOMING (i, [(''event_id'', new_event_id ?E)]) ex_session ?w
        = (Inr (), s', w') \<and> settled (new_event_id ?E) (w_db w') (mem_zs (w_redis w'))"
    using submission_is_processed [OF mem.redis_service_axioms redis(1,2) ex_redis_backend, where w = ?w, OF _ _ _ _ ex_payload_fits _ _ out _ _ _ _ redis(3)]
    by blast
  then show ?thesis unfolding i by (simp add: ex_env_def)
qed

theorem failed_attempt_comes_back_witness:
  "\<exists>n r2 i. flush_due_retries mem_api (timestamp_of_us (50 + seconds 72))
        (w_redis (snd (snd (process_message mem_api ex_menv STREAM_INCOMING ex_msg ex_session (ex_world ex_poison))))) = (Inr n, r2)
    \<and> (i, [(''event_id'', ''e1'')]) \<in> set (mr_new r2 STREAM_RETRY)"
proof -
  obtain res s1 w1 where p: "process_message mem_api ex_menv STREAM_INCOMING ex_msg ex_session (ex_world ex_poison) = (res, s1, w1)"
    by (metis prod_cases3)
  have st: "0 \<le> st_jitter (me_failure ex_menv)" "st_jitter (me_failure ex_menv) < 1" "st_retry_from (me_failure ex_menv) = 50"
    by (simp_all add: ex_menv_def ex_stamps_def)
  have "ev_attempt_count ex_poison + 1 < ev_max_attempts ex_poison" "0 \<le> st_retry_from (me_failure ex_menv)"
    "timestamp_of_us (st_retry_from (me_failure ex_menv) + seconds 72) \<le> timestamp_of_us (50 + seconds 72)"
    "finite {k. mem_zs (w_redis (ex_world ex_poison)) RETRY_ZSET k \<noteq> None}"
    "mem_slen (w_redis (ex_world ex_poison)) STREAM_RETRY + card {k. mem_zs (w_redis (ex_world ex_poison)) RETRY_ZSET k \<noteq> None} < 100000"
    by (simp_all add: st)
  note h = this
  from failed_attempt_comes_back [OF mem.redis_service_axioms ex_deliverable(2) ex_redis_views(1) ex_stub(2) h(1) st(1,2) h(2) p h(3,4,5)]
  obtain n r2 i where "flush_due_retries mem_api (timestamp_of_us (50 + seconds 72)) (w_redis w1) = (Inr n, r2)"
    "(i, [(''event_id'', ev_id ex_poison)]) \<in> set (mr_new r2 STREAM_RETRY)" by blast
  then show ?thesis unfolding p by (intro exI [of _ n] exI [of _ r2] exI [of _ i]) simp
qed

end
